(* ===== verification/Prelude.thy ===== *)
theory Prelude
  imports Main "HOL-Library.Word" "HOL-Library.Char_ord" "HOL-Library.Monad_Syntax"
begin

text \<open>
  What the other theories share: the machine integer types of the C++ sources, the casts
  between them, the collections of facts the component proofs add to the simplifier, and the
  generic lemmas on lists and words.

  \<^verbatim>\<open>uint64_t\<close>, \<^verbatim>\<open>uint32_t\<close> and \<^verbatim>\<open>uint8_t\<close> are words of their width. Signed values
  (\<^verbatim>\<open>int\<close>, \<^verbatim>\<open>int64_t\<close>) are HOL integers, and every cast of the source that can wrap is
  written out with \<open>cast_i32\<close> and \<open>cast_i64\<close>. \<^verbatim>\<open>std::string\<close> is a list of
  \<open>char\<close>, whose elements are bytes, and a binary buffer is a list of 8-bit words.
\<close>

unbundle bit_operations_syntax

section \<open>Machine integers\<close>

type_synonym u8 = "8 word"
type_synonym u32 = "32 word"
type_synonym u64 = "64 word"
type_synonym bytes = "u8 list"

abbreviation UINT64_MAX :: u64 where "UINT64_MAX \<equiv> - 1"

text \<open>
  The casts \<^verbatim>\<open>static_cast<int>\<close> and \<^verbatim>\<open>static_cast<int64_t>\<close>: since C++20 they keep the
  value modulo the width and read it as two's complement.
\<close>

definition cast_i32 :: "int \<Rightarrow> int" where
  "cast_i32 n = signed_take_bit 31 n"

definition cast_i64 :: "int \<Rightarrow> int" where
  "cast_i64 n = signed_take_bit 63 n"

definition i32_range :: "int \<Rightarrow> bool" where
  "i32_range n \<longleftrightarrow> - (2 ^ 31) \<le> n \<and> n < 2 ^ 31"

definition i64_range :: "int \<Rightarrow> bool" where
  "i64_range n \<longleftrightarrow> - (2 ^ 63) \<le> n \<and> n < 2 ^ 63"

section \<open>Collections of facts\<close>

named_theorems text_simps \<open>printing and parsing of the text formats\<close>
named_theorems kernel_simps \<open>the system call wrappers, unfolded to an answer and a longer history\<close>
named_theorems frame_simps \<open>what an operation leaves unchanged\<close>
named_theorems keeps \<open>operations that keep the invariant of their component\<close>

section \<open>Casts and words\<close>

lemma cast_i32_id [simp]: "i32_range n \<Longrightarrow> cast_i32 n = n"
  by (auto simp: cast_i32_def i32_range_def intro: signed_take_bit_int_eq_self)

lemma cast_i64_id [simp]: "i64_range n \<Longrightarrow> cast_i64 n = n"
  by (auto simp: cast_i64_def i64_range_def intro: signed_take_bit_int_eq_self)

lemma cast_i32_range [simp]: "i32_range (cast_i32 n)"
  using signed_take_bit_int_greater_eq_minus_exp [of 31 n] signed_take_bit_int_less_exp [of 31 n]
  by (simp add: i32_range_def cast_i32_def)

lemma cast_i64_range [simp]: "i64_range (cast_i64 n)"
  using signed_take_bit_int_greater_eq_minus_exp [of 63 n] signed_take_bit_int_less_exp [of 63 n]
  by (simp add: i64_range_def cast_i64_def)

lemma i32_i64_range: "i32_range n \<Longrightarrow> i64_range n"
  by (simp add: i32_range_def i64_range_def)

lemma unat_u64_less [simp]: "unat (w :: u64) < 18446744073709551616"
  using unsigned_less [of w] by simp

lemma unat_u8_less [simp]: "unat (w :: u8) < 256"
  using unsigned_less [of w] by simp

lemma unat_of_nat_u64: "n < 2 ^ 64 \<Longrightarrow> unat (word_of_nat n :: u64) = n"
  by (simp add: unat_of_nat take_bit_nat_eq_self)

lemma uint_of_nat_u64: "n < 2 ^ 64 \<Longrightarrow> uint (word_of_nat n :: u64) = int n"
  by (simp add: unsigned_of_nat take_bit_nat_eq_self)

lemma unat_u64_add: "unat a + unat b < 2 ^ 64 \<Longrightarrow> unat (a + b :: u64) = unat a + unat b"
  by (simp add: unat_word_ariths)

lemma unat_u64_mult: "unat a * unat b < 2 ^ 64 \<Longrightarrow> unat (a * b :: u64) = unat a * unat b"
  by (simp add: unat_word_ariths)

lemma unat_u64_linear:
  assumes "unat a * unat b + unat c < 2 ^ 64"
  shows "unat (a * b + c :: u64) = unat a * unat b + unat c"
  using assms by (subst unat_u64_add) (simp_all add: unat_u64_mult)

lemma unat_u64_sub: "b \<le> a \<Longrightarrow> unat (a - b :: u64) = unat a - unat b"
  by (simp add: unat_sub)

section \<open>Lists\<close>

lemma bind_Some_conv:
  "(Option.bind m f = Some y) = (\<exists>x. m = Some x \<and> f x = Some y)"
  by (cases m) auto

text \<open>A computation that may run forever returns when its value is not \<open>None\<close>.\<close>

definition returns :: "'a option \<Rightarrow> bool" where
  "returns m \<longleftrightarrow> m \<noteq> None"

lemma returns_simps [simp]: "returns (Some x)" "\<not> returns None"
  by (simp_all add: returns_def)

lemma returns_bind [intro!]: "returns m \<Longrightarrow> (\<And>x. m = Some x \<Longrightarrow> returns (f x)) \<Longrightarrow> returns (Option.bind m f)"
  by (cases m) auto

lemma returns_iff: "returns m \<longleftrightarrow> (\<exists>x. m = Some x)"
  by (simp add: returns_def)

text \<open>What holds of the result of a computation if it returns, with a rule for each construct;
  the rules for the operations of the program join the collection as they are proved.\<close>

named_theorems yields_rules \<open>what holds of the result of an operation that returns\<close>

definition yields :: "('a \<Rightarrow> bool) \<Rightarrow> 'a option \<Rightarrow> bool" where
  "yields Q m \<longleftrightarrow> (\<forall>x. m = Some x \<longrightarrow> Q x)"

lemma yieldsD: "yields Q m \<Longrightarrow> m = Some x \<Longrightarrow> Q x"
  by (simp add: yields_def)

lemma yieldsI: "(\<And>x. m = Some x \<Longrightarrow> Q x) \<Longrightarrow> yields Q m"
  by (simp add: yields_def)

lemma yields_simps [simp]: "yields Q (Some x) \<longleftrightarrow> Q x" "yields Q None"
  by (simp_all add: yields_def)

lemma yields_True [simp]: "yields (\<lambda>_. True) m"
  by (simp add: yields_def)

lemma yields_all: "(\<And>x. Q x) \<Longrightarrow> yields Q m"
  by (simp add: yields_def)

lemma yields_bind: "yields (\<lambda>x. yields Q (f x)) m \<Longrightarrow> yields Q (Option.bind m f)"
  by (cases m) simp_all

lemma yields_mono: "yields P m \<Longrightarrow> (\<And>x. P x \<Longrightarrow> Q x) \<Longrightarrow> yields Q m"
  by (simp add: yields_def)

text \<open>A range-based \<^verbatim>\<open>for\<close> over a state.\<close>

fun for_each :: "('a \<Rightarrow> 's \<Rightarrow> 's option) \<Rightarrow> 'a list \<Rightarrow> 's \<Rightarrow> 's option" where
  "for_each f [] s = Some s"
| "for_each f (x # xs) s = Option.bind (f x s) (for_each f xs)"

lemma yields_for_each:
  "P s \<Longrightarrow> (\<And>x s. x \<in> set xs \<Longrightarrow> P s \<Longrightarrow> yields P (f x s)) \<Longrightarrow> yields P (for_each f xs s)"
proof (induction xs arbitrary: s)
  case (Cons x xs)
  have tail: "yields P (for_each f xs s')" if "P s'" for s'
    by (rule Cons.IH [OF that], rule Cons.prems(2), simp)
  have "yields P (f x s)" by (rule Cons.prems(2)) (simp_all add: Cons.prems(1))
  then have "yields (\<lambda>s'. yields P (for_each f xs s')) (f x s)" by (rule yields_mono) (rule tail)
  then show ?case by (simp add: yields_bind)
qed simp

lemma returns_for_each:
  "(\<And>x s. x \<in> set xs \<Longrightarrow> returns (f x s)) \<Longrightarrow> returns (for_each f xs s)"
proof (induction xs arbitrary: s)
  case (Cons x xs)
  have "returns (for_each f xs s')" for s'
    using Cons.prems by (intro Cons.IH) simp
  then show ?case using Cons.prems by (simp add: returns_bind)
qed simp

text \<open>The value of a result, if it is not an error.\<close>

definition ok_value :: "'e + 'a \<Rightarrow> 'a option" where
  "ok_value r = (case r of Inl _ \<Rightarrow> None | Inr x \<Rightarrow> Some x)"

lemma ok_value_Some [simp]: "ok_value r = Some x \<longleftrightarrow> r = Inr x"
  by (simp add: ok_value_def split: sum.split)

text \<open>Going on only after a success.\<close>

definition and_then :: "'e + 'a \<Rightarrow> ('a \<Rightarrow> 'e + 'b) \<Rightarrow> 'e + 'b" where
  "and_then r f = (case r of Inl e \<Rightarrow> Inl e | Inr x \<Rightarrow> f x)"

lemma and_then_simps [simp]: "and_then (Inl e) f = Inl e" "and_then (Inr x) f = f x"
  by (simp_all add: and_then_def)

lemma and_then_Inr [simp]: "and_then r f = Inr y \<longleftrightarrow> (\<exists>x. r = Inr x \<and> f x = Inr y)"
  by (cases r) simp_all

text \<open>Splitting a list at the first element equal to a separator, as \<^verbatim>\<open>find\<close> and
  \<^verbatim>\<open>substr\<close> do.\<close>

fun split_first :: "'a \<Rightarrow> 'a list \<Rightarrow> ('a list \<times> 'a list) option" where
  "split_first c [] = None"
| "split_first c (x # xs) =
     (if x = c then Some ([], xs)
      else map_option (\<lambda>(a, b). (x # a, b)) (split_first c xs))"

lemma split_first_None: "split_first c xs = None \<longleftrightarrow> c \<notin> set xs"
  by (induction xs) auto

lemma split_first_Some:
  "split_first c xs = Some (a, b) \<longleftrightarrow> xs = a @ c # b \<and> c \<notin> set a"
proof (induction xs arbitrary: a)
  case Nil
  then show ?case by simp
next
  case (Cons x xs)
  then show ?case by (cases a) auto
qed

lemma split_first_append [simp]: "c \<notin> set a \<Longrightarrow> split_first c (a @ c # b) = Some (a, b)"
  by (simp add: split_first_Some)

lemma split_first_length: "split_first c xs = Some (a, b) \<Longrightarrow> length b < length xs"
  by (auto simp: split_first_Some)

section \<open>Text\<close>

abbreviation NL :: char where "NL \<equiv> CHR 0x0A"
abbreviation CR :: char where "CR \<equiv> CHR 0x0D"
abbreviation NUL :: char where "NUL \<equiv> CHR 0x00"

text \<open>\<^verbatim>\<open>while (!s.empty() && p(s.back())) s.pop_back();\<close>\<close>

definition strip_back :: "('a \<Rightarrow> bool) \<Rightarrow> 'a list \<Rightarrow> 'a list" where
  "strip_back p s = rev (dropWhile p (rev s))"

lemma strip_back_id: "s = [] \<or> \<not> p (last s) \<Longrightarrow> strip_back p s = s"
  unfolding strip_back_def by (cases s rule: rev_cases) auto

lemma strip_back_snoc [simp]: "p c \<Longrightarrow> strip_back p (s @ [c]) = strip_back p s"
  by (simp add: strip_back_def)

text \<open>The lines \<^verbatim>\<open>std::getline\<close> returns until the stream is exhausted: each is ended by a newline,
  except that text after the last newline is a line of its own.\<close>

function getlines :: "string \<Rightarrow> string list" where
  "getlines text =
     (if text = [] then []
      else case split_first NL text of
        None \<Rightarrow> [text]
      | Some (line, rest) \<Rightarrow> line # getlines rest)"
  by pat_completeness auto
termination
  by (relation "measure length") (auto dest: split_first_length)

declare getlines.simps [simp del]

lemma getlines_Nil [simp]: "getlines [] = []"
  by (simp add: getlines.simps)

lemma getlines_line [simp]: "NL \<notin> set l \<Longrightarrow> getlines (l @ NL # rest) = l # getlines rest"
  by (subst getlines.simps) simp

lemma getlines_concat:
  "\<forall>l \<in> set ls. NL \<notin> set l \<Longrightarrow> getlines (concat (map (\<lambda>l. l @ [NL]) ls)) = ls"
  by (induction ls) auto

text \<open>A buffer and the text it holds.\<close>

definition text_bytes :: "string \<Rightarrow> bytes" where
  "text_bytes s = map (\<lambda>c. word_of_nat (of_char c)) s"

definition bytes_text :: "bytes \<Rightarrow> string" where
  "bytes_text b = map (\<lambda>w. char_of (unat w)) b"

lemma bytes_text_text_bytes [simp]: "bytes_text (text_bytes s) = s"
  by (simp add: bytes_text_def text_bytes_def o_def unat_of_nat take_bit_eq_mod map_idI)

lemma length_text_bytes [simp]: "length (text_bytes s) = length s"
  by (simp add: text_bytes_def)

lemma length_bytes_text [simp]: "length (bytes_text s) = length s"
  by (simp add: bytes_text_def)

lemma text_bytes_append [simp]: "text_bytes (s @ t) = text_bytes s @ text_bytes t"
  by (simp add: text_bytes_def)

lemma bytes_text_append [simp]: "bytes_text (s @ t) = bytes_text s @ bytes_text t"
  by (simp add: bytes_text_def)

lemma bytes_text_Nil [simp]: "bytes_text [] = []" "text_bytes [] = []"
  by (simp_all add: bytes_text_def text_bytes_def)

end
