(* ===== verification/Text_Numbers.thy ===== *)
theory Text_Numbers
  imports Prelude
begin

text \<open>
  Decimal numbers in the text formats: \<^verbatim>\<open>std::to_string\<close> and stream output of the integer
  types, and the two parsers \<^verbatim>\<open>parse_u64\<close> and \<^verbatim>\<open>parse_i64\<close> of \<^verbatim>\<open>store.cpp\<close>. The lemmas
  characterise the parsers exactly (what is accepted, which value it has, where 64 bits are
  exceeded) and show that printing followed by parsing is the identity. The locale
  \<open>text_codec\<close> is the contract every text format of the workspace keeps.
\<close>

section \<open>The contract of a text format\<close>

text \<open>
  A format prints a value and parses it back; \<open>ok\<close> are the values it can represent. What
  clients of a format use follows here once: a printed text determines its value.
\<close>

locale text_codec =
  fixes enc :: "'a \<Rightarrow> string"
    and dec :: "string \<Rightarrow> 'a option"
    and ok :: "'a \<Rightarrow> bool"
  assumes dec_enc: "ok x \<Longrightarrow> dec (enc x) = Some x"
begin

lemma enc_inj: "ok x \<Longrightarrow> ok y \<Longrightarrow> enc x = enc y \<longleftrightarrow> x = y"
  by (metis dec_enc option.inject)

lemma enc_unique: "ok x \<Longrightarrow> dec (enc x) = Some y \<Longrightarrow> y = x"
  by (simp add: dec_enc)

end

section \<open>Digits and their values\<close>

definition digit_char :: "nat \<Rightarrow> char" where
  "digit_char d = char_of (48 + d)"

definition is_digit :: "char \<Rightarrow> bool" where
  "is_digit ch \<longleftrightarrow> CHR ''0'' \<le> ch \<and> ch \<le> CHR ''9''"

text \<open>The code's \<^verbatim>\<open>ch - '0'\<close>.\<close>

definition digit_val :: "char \<Rightarrow> nat" where
  "digit_val ch = of_char ch - 48"

text \<open>The value of a list of digits, most significant first, in unbounded arithmetic: the
  reference the machine parser is compared with.\<close>

definition dec_value :: "string \<Rightarrow> nat" where
  "dec_value s = foldl (\<lambda>v ch. 10 * v + digit_val ch) 0 s"

lemma is_digit_of_char: "is_digit ch \<longleftrightarrow> 48 \<le> (of_char ch :: nat) \<and> (of_char ch :: nat) \<le> 57"
  by (simp add: is_digit_def less_eq_char_def)

lemma of_char_digit_char [simp]: "d < 10 \<Longrightarrow> of_char (digit_char d) = 48 + d"
  by (simp add: digit_char_def)

lemma is_digit_digit_char [simp]: "d < 10 \<Longrightarrow> is_digit (digit_char d)"
  by (simp add: is_digit_of_char)

lemma digit_val_digit_char [simp]: "d < 10 \<Longrightarrow> digit_val (digit_char d) = d"
  by (simp add: digit_val_def)

lemma digit_val_less: "is_digit ch \<Longrightarrow> digit_val ch < 10"
  unfolding is_digit_of_char digit_val_def by linarith

lemma foldl_digits_ge: "v \<le> foldl (\<lambda>v ch. 10 * v + digit_val ch) v s"
proof (induction s arbitrary: v)
  case Nil
  then show ?case by simp
next
  case (Cons ch s)
  have "v \<le> 10 * v + digit_val ch" by simp
  also have "\<dots> \<le> foldl (\<lambda>v ch. 10 * v + digit_val ch) (10 * v + digit_val ch) s"
    by (rule Cons.IH)
  finally show ?case by simp
qed

section \<open>Printing\<close>

text \<open>\<^verbatim>\<open>std::to_string\<close> and \<^verbatim>\<open>operator<<\<close> on unsigned and signed integers.\<close>

fun dec_nat :: "nat \<Rightarrow> string" where
  "dec_nat n = (if n < 10 then [digit_char n] else dec_nat (n div 10) @ [digit_char (n mod 10)])"

declare dec_nat.simps [simp del]

definition dec_u64 :: "u64 \<Rightarrow> string" where
  "dec_u64 w = dec_nat (unat w)"

definition dec_int :: "int \<Rightarrow> string" where
  "dec_int n = (if n < 0 then CHR ''-'' # dec_nat (nat (- n)) else dec_nat (nat n))"

lemma dec_nat_digits: "\<forall>ch \<in> set (dec_nat n). is_digit ch"
proof (induction n rule: dec_nat.induct)
  case (1 n)
  then show ?case
    by (subst dec_nat.simps) (cases "n < 10"; auto)
qed

lemma dec_nat_nonempty [simp]: "dec_nat n \<noteq> []"
  by (subst dec_nat.simps) simp

lemma dec_value_dec_nat [simp]: "dec_value (dec_nat n) = n"
proof (induction n rule: dec_nat.induct)
  case (1 n)
  show ?case
  proof (cases "n < 10")
    case True
    then show ?thesis by (subst dec_nat.simps) (simp add: dec_value_def)
  next
    case False
    have "dec_value (dec_nat n) = 10 * dec_value (dec_nat (n div 10)) + n mod 10"
      using False by (subst dec_nat.simps) (simp add: dec_value_def)
    with "1.IH" False show ?thesis by simp
  qed
qed

lemma dec_nat_not_in: "\<not> is_digit ch \<Longrightarrow> ch \<notin> set (dec_nat n)"
  using dec_nat_digits by blast

lemma dec_int_chars: "ch \<in> set (dec_int n) \<Longrightarrow> is_digit ch \<or> ch = CHR ''-''"
  using dec_nat_digits by (auto simp: dec_int_def split: if_splits)

lemma dec_int_nonempty [simp]: "dec_int n \<noteq> []"
  by (simp add: dec_int_def)

lemma dec_u64_nonempty [simp]: "dec_u64 w \<noteq> []"
  by (simp add: dec_u64_def)

section \<open>Parsing\<close>

text \<open>
  The loop of \<^verbatim>\<open>parse_u64\<close>: \<open>value\<close> is the 64-bit accumulator, and the guard
  \<^verbatim>\<open>value > (UINT64_MAX - digit) / 10\<close> rejects the text before the multiplication can wrap.
\<close>

fun parse_u64_loop :: "string \<Rightarrow> u64 \<Rightarrow> u64 option" where
  "parse_u64_loop [] value = Some value"
| "parse_u64_loop (ch # text) value =
     (if ch < CHR ''0'' \<or> ch > CHR ''9'' then None
      else let digit = word_of_nat (digit_val ch)
           in if value > (UINT64_MAX - digit) div 10 then None
              else parse_u64_loop text (value * 10 + digit))"

definition parse_u64 :: "string \<Rightarrow> u64 option" where
  "parse_u64 text = (if text = [] then None else parse_u64_loop text 0)"

text \<open>
  \<^verbatim>\<open>parse_i64\<close> casts the magnitude to \<^verbatim>\<open>int64_t\<close> without a range check and negates it when a
  minus sign was removed. The cast keeps the value modulo \<open>2 ^ 64\<close>. For the magnitude
  \<open>2 ^ 63\<close> the C++ negation overflows, which is undefined; the model takes the wrapped result.
\<close>

definition parse_i64 :: "string \<Rightarrow> int option" where
  "parse_i64 text =
     (case text of
        [] \<Rightarrow> None
      | ch # rest \<Rightarrow>
          if ch = CHR ''-''
          then map_option (\<lambda>mag. cast_i64 (- cast_i64 (uint mag))) (parse_u64 rest)
          else map_option (\<lambda>mag. cast_i64 (uint mag)) (parse_u64 text))"

lemma overflow_guard:
  assumes "unat (w :: u64) = d" and "d < 10"
  shows "value > (UINT64_MAX - w) div 10 \<longleftrightarrow> 10 * unat value + d \<ge> 2 ^ 64"
    and "10 * unat value + d < 2 ^ 64 \<Longrightarrow> unat (value * 10 + w) = 10 * unat value + d"
proof -
  have "unat (UINT64_MAX - w) = 2 ^ 64 - 1 - d"
    by (subst unat_u64_sub) (simp_all add: assms unsigned_minus_1_eq_mask mask_eq_exp_minus_1)
  then have div: "unat ((UINT64_MAX - w) div 10) = (2 ^ 64 - 1 - d) div 10"
    by (simp add: unat_div)
  have "(2 ^ 64 - 1 - d) div 10 < unat value \<longleftrightarrow> 2 ^ 64 - 1 - d < unat value * 10"
    by (simp add: div_less_iff_less_mult)
  also have "\<dots> \<longleftrightarrow> 10 * unat value + d \<ge> 2 ^ 64" using assms(2) by auto
  finally show "value > (UINT64_MAX - w) div 10 \<longleftrightarrow> 10 * unat value + d \<ge> 2 ^ 64"
    unfolding word_less_nat_alt div .
  show "unat (value * 10 + w) = 10 * unat value + d" if "10 * unat value + d < 2 ^ 64"
    using that assms by (simp add: unat_word_ariths)
qed

lemma digit_word: "is_digit ch \<Longrightarrow> unat (word_of_nat (digit_val ch) :: u64) = digit_val ch"
  using digit_val_less [of ch] by (simp add: unat_of_nat_u64)

lemma parse_u64_step:
  assumes "is_digit ch"
  shows "value > (UINT64_MAX - word_of_nat (digit_val ch)) div 10 \<longleftrightarrow>
      10 * unat (value :: u64) + digit_val ch \<ge> 2 ^ 64"
    and "10 * unat value + digit_val ch < 2 ^ 64 \<Longrightarrow>
      unat (value * 10 + word_of_nat (digit_val ch)) = 10 * unat value + digit_val ch"
  by (rule overflow_guard [OF digit_word [OF assms] digit_val_less [OF assms]])+

lemma parse_u64_loop_eq:
  "parse_u64_loop s v =
     (if list_all is_digit s \<and> foldl (\<lambda>v ch. 10 * v + digit_val ch) (unat v) s < 2 ^ 64
      then Some (word_of_nat (foldl (\<lambda>v ch. 10 * v + digit_val ch) (unat v) s)) else None)"
proof (induction s arbitrary: v)
  case Nil
  then show ?case by simp
next
  case (Cons ch s)
  show ?case
  proof (cases "is_digit ch \<and> 10 * unat v + digit_val ch < 2 ^ 64")
    case True
    then show ?thesis
      using parse_u64_step [of ch v] by (auto simp: Cons.IH is_digit_def not_less Let_def)
  next
    case False
    have "10 * unat v + digit_val ch \<le>
        foldl (\<lambda>v ch. 10 * v + digit_val ch) (10 * unat v + digit_val ch) s"
      by (rule foldl_digits_ge)
    with False show ?thesis
      using parse_u64_step(1) [of ch v] by (auto simp: is_digit_def not_less Let_def not_le)
  qed
qed

text \<open>The exact specification of \<^verbatim>\<open>parse_u64\<close>: non-empty, digits only, below \<open>2 ^ 64\<close>.\<close>

lemma parse_u64_eq:
  "parse_u64 s =
     (if s \<noteq> [] \<and> list_all is_digit s \<and> dec_value s < 2 ^ 64
      then Some (word_of_nat (dec_value s)) else None)"
  by (simp add: parse_u64_def parse_u64_loop_eq dec_value_def)

lemma parse_u64_dec_nat: "n < 2 ^ 64 \<Longrightarrow> parse_u64 (dec_nat n) = Some (word_of_nat n)"
  using dec_nat_digits [of n] by (simp add: parse_u64_eq list_all_iff)

lemma parse_u64_dec_u64 [simp, text_simps]: "parse_u64 (dec_u64 w) = Some w"
  by (simp add: dec_u64_def parse_u64_dec_nat)

lemma parse_i64_dec_int [simp, text_simps]:
  assumes "i64_range n"
  shows "parse_i64 (dec_int n) = Some n"
proof (cases "n < 0")
  case True
  let ?m = "word_of_nat (nat (- n)) :: u64"
  have n: "- (2 ^ 63) \<le> n" using assms by (simp add: i64_range_def)
  have p: "parse_u64 (dec_nat (nat (- n))) = Some ?m"
    using n True by (intro parse_u64_dec_nat) (simp add: nat_less_iff)
  have "uint ?m = int (nat (- n))"
    using n by (intro uint_of_nat_u64) (simp add: nat_less_iff)
  then have u: "uint ?m = - n" using True by simp
  have "cast_i64 (- cast_i64 (- n)) = n"
  proof (cases "n = - (2 ^ 63)")
    case True
    have "cast_i64 (- cast_i64 9223372036854775808) = - 9223372036854775808"
      by (simp add: cast_i64_def)
    with True show ?thesis by simp
  next
    case False
    with n \<open>n < 0\<close> have "i64_range (- n)" by (simp add: i64_range_def)
    with assms show ?thesis by simp
  qed
  with True p u show ?thesis by (simp add: dec_int_def parse_i64_def)
next
  case False
  have n: "0 \<le> n" "n < 2 ^ 63" using assms False by (auto simp: i64_range_def)
  have p: "parse_u64 (dec_nat (nat n)) = Some (word_of_nat (nat n))"
    using n by (intro parse_u64_dec_nat) (simp add: nat_less_iff)
  have "uint (word_of_nat (nat n) :: u64) = int (nat n)"
    using n by (intro uint_of_nat_u64) (simp add: nat_less_iff)
  then have u: "uint (word_of_nat (nat n) :: u64) = n" using n by simp
  obtain c cs where c: "dec_nat (nat n) = c # cs" by (cases "dec_nat (nat n)") auto
  with dec_nat_not_in [of "CHR ''-''" "nat n"] have "c \<noteq> CHR ''-''"
    by (auto simp: is_digit_of_char)
  with False c p u assms show ?thesis by (simp add: dec_int_def parse_i64_def)
qed

section \<open>The number formats keep the contract\<close>

interpretation u64_text: text_codec dec_u64 parse_u64 "\<lambda>_. True"
  by unfold_locales simp

interpretation i64_text: text_codec dec_int parse_i64 i64_range
  by unfold_locales simp

section \<open>Properties\<close>

text \<open>C35. \<^verbatim>\<open>parse_u64\<close> accepts exactly the non-empty digit strings whose value is below
  \<open>2 ^ 64\<close> and returns that value: the guard before each step rejects every text that would wrap
  and no other.\<close>

theorem parse_u64_exact:
  "parse_u64 text = Some v \<longleftrightarrow>
     text \<noteq> [] \<and> list_all is_digit text \<and> dec_value text = unat v"
  by (auto simp: parse_u64_eq unat_of_nat_u64 word_unat_eq_iff split: if_splits)

text \<open>Printing a number and parsing it gives the number back, for every \<^verbatim>\<open>uint64_t\<close> and
  every \<^verbatim>\<open>int64_t\<close>.\<close>

theorem number_roundtrip:
  assumes "i64_range n"
  shows "parse_u64 (dec_u64 w) = Some w \<and> parse_i64 (dec_int n) = Some n"
  using assms by simp

theorem number_roundtrip_witness:
  "parse_u64 (dec_u64 18446744073709551615) = Some 18446744073709551615
    \<and> parse_i64 (dec_int (-9223372036854775808)) = Some (-9223372036854775808)"
  by (rule number_roundtrip) (simp add: i64_range_def)

text \<open>\<^verbatim>\<open>parse_i64\<close> does not reject a magnitude outside \<^verbatim>\<open>int64_t\<close>: a text of digits whose
  value lies in \<open>[2 ^ 63, 2 ^ 64)\<close> is accepted as a negative number.\<close>

theorem parse_i64_wraps:
  assumes "s \<noteq> []" and "list_all is_digit s"
    and "2 ^ 63 \<le> dec_value s" and "dec_value s < 2 ^ 64"
  shows "parse_i64 s = Some (int (dec_value s) - 2 ^ 64)"
proof -
  have p: "parse_u64 s = Some (word_of_nat (dec_value s))"
    using assms by (simp add: parse_u64_eq)
  obtain c cs where c: "s = c # cs" using assms(1) by (cases s) auto
  with assms(2) have "c \<noteq> CHR ''-''" by (auto simp: is_digit_of_char)
  moreover have "cast_i64 (int (dec_value s)) = int (dec_value s) - 2 ^ 64"
  proof -
    have "cast_i64 (int (dec_value s)) = cast_i64 (int (dec_value s) - 2 ^ 64)"
      unfolding cast_i64_def signed_take_bit_eq_iff_take_bit_eq
      by (simp add: take_bit_eq_mod mod_diff_right_eq [symmetric])
    also have "\<dots> = int (dec_value s) - 2 ^ 64"
      using assms(3,4) by (intro cast_i64_id) (simp add: i64_range_def)
    finally show ?thesis .
  qed
  ultimately show ?thesis
    using p assms(4) by (simp add: c parse_i64_def uint_of_nat_u64)
qed

theorem parse_i64_wraps_witness:
  "parse_i64 ''18446744073709551615'' = Some (-1)"
proof -
  have v: "dec_value ''18446744073709551615'' = 18446744073709551615"
    by (simp add: dec_value_def digit_val_def)
  have d: "list_all is_digit ''18446744073709551615''"
    by (simp add: is_digit_of_char)
  show ?thesis using parse_i64_wraps [of "''18446744073709551615''"] v d by simp
qed

end
