(* ===== verification/Ranges.thy ===== *)
theory Ranges
  imports Prelude
begin

text \<open>
  \<^verbatim>\<open>split_ranges\<close> of \<^verbatim>\<open>forge.hpp\<close>: how the controller cuts the input of a job into one byte
  range per worker. The arithmetic is the code's, on \<^verbatim>\<open>uint64_t\<close>; the lemmas read it with
  \<open>unat\<close> and show that nothing wraps: the ranges follow each other without a gap, cover
  exactly \<open>[0, size)\<close>, are as even as possible, and are aligned as \<^verbatim>\<open>O_DIRECT\<close> needs them.
\<close>

record byte_range =
  br_offset :: u64
  br_length :: u64

definition kDirectAlign :: u64 where "kDirectAlign = 4096"
definition kMaxWorkers :: int where "kMaxWorkers = 16"
definition kMaxSlots :: u64 where "kMaxSlots = 256"

section \<open>The code\<close>

text \<open>The loop for \<open>align \<le> 1\<close>: the first \<open>rem\<close> slices are one byte longer.\<close>

function byte_loop :: "nat \<Rightarrow> nat \<Rightarrow> u64 \<Rightarrow> u64 \<Rightarrow> u64 \<Rightarrow> byte_range list" where
  "byte_loop workers i base rem off =
     (if i < workers then
        let n = base + (if word_of_nat i < rem then 1 else 0)
        in \<lparr>br_offset = off, br_length = n\<rparr> # byte_loop workers (Suc i) base rem (off + n)
      else [])"
  by pat_completeness auto
termination
  by (relation "measure (\<lambda>(workers, i, _). workers - i)") auto

text \<open>The loop over aligned blocks: the unaligned tail sticks to the last slice.\<close>

function block_loop ::
  "nat \<Rightarrow> nat \<Rightarrow> u64 \<Rightarrow> u64 \<Rightarrow> u64 \<Rightarrow> u64 \<Rightarrow> u64 \<Rightarrow> byte_range list" where
  "block_loop workers i base_blocks rem_blocks align tail off =
     (if i < workers then
        let b = base_blocks + (if word_of_nat i < rem_blocks then 1 else 0);
            n = b * align + (if i = workers - 1 then tail else 0)
        in \<lparr>br_offset = off, br_length = n\<rparr> #
           block_loop workers (Suc i) base_blocks rem_blocks align tail (off + n)
      else [])"
  by pat_completeness auto
termination
  by (relation "measure (\<lambda>(workers, i, _). workers - i)") auto

declare byte_loop.simps [simp del] block_loop.simps [simp del]

definition split_ranges :: "u64 \<Rightarrow> int \<Rightarrow> u64 \<Rightarrow> byte_range list" where
  "split_ranges bytes_total workers align =
     (let workers = (if workers < 1 then 1 else workers) in
      if bytes_total = 0 \<or> workers = 1 then [\<lparr>br_offset = 0, br_length = bytes_total\<rparr>]
      else if align \<le> 1 then
        let nworkers = word_of_int workers in
        byte_loop (nat workers) 0 (bytes_total div nworkers) (bytes_total mod nworkers) 0
      else
        let prefix = bytes_total - (bytes_total mod align) in
        if prefix = 0 then [\<lparr>br_offset = 0, br_length = bytes_total\<rparr>]
        else
          let blocks = prefix div align; nworkers = word_of_int workers in
          block_loop (nat workers) 0 (blocks div nworkers) (blocks mod nworkers) align
            (bytes_total - prefix) 0)"

section \<open>The loops in closed form\<close>

text \<open>A range read in unbounded arithmetic. A wrapped offset or length would show here.\<close>

definition range_view :: "byte_range \<Rightarrow> nat \<times> nat" where
  "range_view r = (unat (br_offset r), unat (br_length r))"

text \<open>The even distribution of \<open>W * B + R\<close> units: share \<open>j\<close> starts at \<open>share_start B R j\<close>
  and has \<open>share_size B R j\<close> units.\<close>

definition share_size :: "nat \<Rightarrow> nat \<Rightarrow> nat \<Rightarrow> nat" where
  "share_size B R j = B + (if j < R then 1 else 0)"

definition share_start :: "nat \<Rightarrow> nat \<Rightarrow> nat \<Rightarrow> nat" where
  "share_start B R j = j * B + min j R"

lemma share_start_0 [simp]: "share_start B R 0 = 0"
  by (simp add: share_start_def)

lemma share_start_Suc: "share_start B R (Suc j) = share_start B R j + share_size B R j"
  by (simp add: share_start_def share_size_def min_def)

lemma share_start_total: "R \<le> W \<Longrightarrow> share_start B R W = W * B + R"
  by (simp add: share_start_def min_def)

lemma share_start_mono: "i \<le> j \<Longrightarrow> share_start B R i \<le> share_start B R j"
  unfolding share_start_def by (intro add_mono mult_le_mono1) auto

lemma share_next_le: "i < W \<Longrightarrow> share_start B R i + share_size B R i \<le> share_start B R W"
  using share_start_mono [of "Suc i" W B R] by (simp add: share_start_Suc)

lemma unat_share:
  assumes "i < W" and "W < 2 ^ 64" and "share_start (unat base) (unat rem) W < 2 ^ 64"
  shows "unat (base + (if word_of_nat i < (rem :: u64) then 1 else 0) :: u64) =
    share_size (unat base) (unat rem) i"
proof -
  have less: "(word_of_nat i < rem) \<longleftrightarrow> i < unat rem"
    using assms(1,2) by (simp add: word_less_nat_alt unat_of_nat_u64)
  have "share_size (unat base) (unat rem) i < 2 ^ 64"
    using share_next_le [OF assms(1), of "unat base" "unat rem"] assms(3) by linarith
  then show ?thesis
    unfolding less by (auto simp: share_size_def intro: unat_u64_add [THEN trans])
qed

lemma byte_loop_view:
  assumes "i \<le> W" and "unat off = share_start (unat base) (unat rem) i"
    and "W < 2 ^ 64" and "share_start (unat base) (unat rem) W < 2 ^ 64"
  shows "map range_view (byte_loop W i base rem off) =
    map (\<lambda>j. (share_start (unat base) (unat rem) j, share_size (unat base) (unat rem) j)) [i..<W]"
  using assms
proof (induction W i base rem off rule: byte_loop.induct)
  case (1 W i base rem off)
  show ?case
  proof (cases "i < W")
    case False
    then show ?thesis by (subst byte_loop.simps) simp
  next
    case True
    let ?n = "base + (if word_of_nat i < rem then 1 else 0)"
    have n: "unat ?n = share_size (unat base) (unat rem) i"
      using True "1.prems"(3,4) by (rule unat_share)
    then have "unat (off + ?n) = share_start (unat base) (unat rem) (Suc i)"
      using share_next_le [OF True, of "unat base" "unat rem"] "1.prems"(2,4)
      by (subst unat_u64_add) (simp_all add: share_start_Suc)
    then have "map range_view (byte_loop W (Suc i) base rem (off + ?n)) =
        map (\<lambda>j. (share_start (unat base) (unat rem) j, share_size (unat base) (unat rem) j)) [Suc i..<W]"
      using "1.IH" [OF True refl] "1.prems"(3,4) True by simp
    with True n "1.prems"(2) show ?thesis
      by (subst byte_loop.simps) (simp add: range_view_def upt_conv_Cons Let_def)
  qed
qed

lemma block_loop_view:
  assumes "i \<le> W" and "unat off = share_start (unat base) (unat rem) i * unat align + (if i = W then unat tail else 0)"
    and "W < 2 ^ 64" and "0 < unat align"
    and "share_start (unat base) (unat rem) W * unat align + unat tail < 2 ^ 64"
  shows "map range_view (block_loop W i base rem align tail off) =
    map (\<lambda>j. (share_start (unat base) (unat rem) j * unat align,
              share_size (unat base) (unat rem) j * unat align + (if j = W - 1 then unat tail else 0))) [i..<W]"
  using assms
proof (induction W i base rem align tail off rule: block_loop.induct)
  case (1 W i base rem align tail off)
  show ?case
  proof (cases "i < W")
    case False
    then show ?thesis by (subst block_loop.simps) simp
  next
    case True
    let ?S = "share_start (unat base) (unat rem)"
    let ?b = "base + (if word_of_nat i < rem then 1 else 0)"
    let ?n = "?b * align + (if i = W - 1 then tail else 0)"
    have "?S W \<le> ?S W * unat align" using "1.prems"(4) by simp
    then have "?S W < 2 ^ 64" using "1.prems"(5) by linarith
    then have b: "unat ?b = share_size (unat base) (unat rem) i"
      using True "1.prems"(3) by (intro unat_share)
    have le: "(?S i + share_size (unat base) (unat rem) i) * unat align \<le> ?S W * unat align"
      by (intro mult_le_mono1 share_next_le True)
    have n: "unat ?n = share_size (unat base) (unat rem) i * unat align + (if i = W - 1 then unat tail else 0)"
    proof -
      have t: "unat (if i = W - 1 then tail else 0) = (if i = W - 1 then unat tail else 0)" by simp
      have "unat ?b * unat align + unat (if i = W - 1 then tail else 0) < 2 ^ 64"
        unfolding b t using le "1.prems"(5) unfolding distrib_right by (auto split: if_split)
      from unat_u64_linear [OF this] show ?thesis unfolding b t .
    qed
    then have "unat (off + ?n) = ?S (Suc i) * unat align + (if Suc i = W then unat tail else 0)"
      using le "1.prems"(2,5) True
      by (subst unat_u64_add) (auto simp: share_start_Suc distrib_right)
    then have "map range_view (block_loop W (Suc i) base rem align tail (off + ?n)) =
        map (\<lambda>j. (?S j * unat align, share_size (unat base) (unat rem) j * unat align +
          (if j = W - 1 then unat tail else 0))) [Suc i..<W]"
      using "1.IH" [OF True refl refl] "1.prems" True by simp
    with True n "1.prems"(2) show ?thesis
      by (subst block_loop.simps) (simp add: range_view_def upt_conv_Cons Let_def)
  qed
qed

section \<open>The split in closed form\<close>

text \<open>The three shapes \<^verbatim>\<open>split_ranges\<close> can return: one range, the byte split, the block
  split.\<close>

definition one_range :: "u64 \<Rightarrow> int \<Rightarrow> u64 \<Rightarrow> bool" where
  "one_range bytes_total workers align \<longleftrightarrow>
     bytes_total = 0 \<or> workers \<le> 1 \<or> (1 < align \<and> bytes_total < align)"

lemma word_of_int_workers:
  assumes "1 < workers" and "i32_range workers"
  shows "unat (word_of_int workers :: u64) = nat workers"
  using assms
  by (simp add: i32_range_def unat_eq_nat_uint uint_word_of_int_eq take_bit_int_eq_self)

lemma prefix_zero_iff:
  assumes "0 < (align :: u64)"
  shows "n - n mod align = 0 \<longleftrightarrow> n < align"
proof -
  have "n - n mod align = 0 \<longleftrightarrow> unat n mod unat align = unat n"
    unfolding right_minus_eq by (auto simp: word_unat_eq_iff unat_mod)
  also have "\<dots> \<longleftrightarrow> unat n < unat align"
    using assms by (metis mod_less mod_less_divisor unat_gt_0 word_gt_0)
  finally show ?thesis by (simp add: word_less_nat_alt)
qed

lemma split_ranges_one:
  "one_range bytes_total workers align \<Longrightarrow>
   split_ranges bytes_total workers align = [\<lparr>br_offset = 0, br_length = bytes_total\<rparr>]"
  using prefix_zero_iff [of align bytes_total]
  by (auto simp: split_ranges_def one_range_def Let_def word_less_nat_alt word_le_nat_alt)

lemma split_ranges_bytes:
  assumes "\<not> one_range bytes_total workers align" and "align \<le> 1" and "i32_range workers"
  shows "map range_view (split_ranges bytes_total workers align) =
    map (\<lambda>j. (share_start (unat bytes_total div nat workers) (unat bytes_total mod nat workers) j,
              share_size (unat bytes_total div nat workers) (unat bytes_total mod nat workers) j))
      [0..<nat workers]"
proof -
  let ?w = "word_of_int workers :: u64"
  have W: "unat ?w = nat workers" "1 < workers"
    using assms by (auto simp: one_range_def intro: word_of_int_workers)
  have tot: "share_start (unat bytes_total div nat workers) (unat bytes_total mod nat workers)
      (nat workers) = unat bytes_total"
    using W(2) by (subst share_start_total) (simp_all add: mult.commute)
  have "map range_view (byte_loop (nat workers) 0 (bytes_total div ?w) (bytes_total mod ?w) 0) =
      map (\<lambda>j. (share_start (unat (bytes_total div ?w)) (unat (bytes_total mod ?w)) j,
                share_size (unat (bytes_total div ?w)) (unat (bytes_total mod ?w)) j)) [0..<nat workers]"
  proof (rule byte_loop_view)
    show "nat workers < 2 ^ 64" using assms(3) W(2) by (simp add: i32_range_def nat_less_iff)
  qed (simp_all add: unat_div unat_mod W tot)
  then show ?thesis
    using assms W by (simp add: split_ranges_def one_range_def unat_div unat_mod Let_def)
qed

lemma split_ranges_blocks:
  assumes "\<not> one_range bytes_total workers align" and "1 < align" and "i32_range workers"
  defines "B \<equiv> unat bytes_total div unat align div nat workers"
    and "R \<equiv> unat bytes_total div unat align mod nat workers"
  shows "map range_view (split_ranges bytes_total workers align) =
    map (\<lambda>j. (share_start B R j * unat align,
              share_size B R j * unat align +
              (if j = nat workers - 1 then unat bytes_total mod unat align else 0)))
      [0..<nat workers]"
proof -
  let ?w = "word_of_int workers :: u64"
  let ?prefix = "bytes_total - bytes_total mod align"
  have W: "unat ?w = nat workers" "1 < workers"
    using assms by (auto simp: one_range_def intro: word_of_int_workers)
  have A: "1 < unat align" using assms(2) by (simp add: word_less_nat_alt)
  have p: "unat ?prefix = unat bytes_total div unat align * unat align"
    by (subst unat_u64_sub) (simp_all add: word_le_nat_alt unat_mod minus_mod_eq_div_mult)
  have blocks: "unat (?prefix div align) = unat bytes_total div unat align"
    using A by (simp add: unat_div p)
  have BR: "unat (?prefix div align div ?w) = B" "unat (?prefix div align mod ?w) = R"
    using blocks W by (simp_all add: unat_div [of "?prefix div align"] unat_mod B_def R_def)
  have "?prefix \<le> bytes_total" by (simp add: word_le_nat_alt p)
  then have tail: "unat (bytes_total - ?prefix) = unat bytes_total mod unat align"
    by (subst unat_u64_sub) (simp_all add: p minus_div_mult_eq_mod)
  have tot: "share_start B R (nat workers) = unat bytes_total div unat align"
    using W(2) unfolding B_def R_def by (subst share_start_total) (simp_all add: mult.commute)
  have "map range_view (block_loop (nat workers) 0 (?prefix div align div ?w)
        (?prefix div align mod ?w) align (bytes_total - ?prefix) 0) =
      map (\<lambda>j. (share_start B R j * unat align,
        share_size B R j * unat align +
          (if j = nat workers - 1 then unat (bytes_total - ?prefix) else 0))) [0..<nat workers]"
    unfolding BR [symmetric]
  proof (rule block_loop_view)
    show "nat workers < 2 ^ 64" using assms(3) W(2) by (simp add: i32_range_def nat_less_iff)
    show "share_start (unat (?prefix div align div ?w)) (unat (?prefix div align mod ?w))
        (nat workers) * unat align + unat (bytes_total - ?prefix) < 2 ^ 64"
      unfolding BR tot tail by simp
  qed (use A W in simp_all)
  moreover have "?prefix \<noteq> 0"
    using assms(1,2) prefix_zero_iff [of align bytes_total]
    by (auto simp: one_range_def word_less_nat_alt)
  ultimately show ?thesis
    using assms(1,2) W by (auto simp: split_ranges_def one_range_def Let_def tail unat_mod)
qed

section \<open>Coverage, evenness, alignment\<close>

text \<open>Ranges given by offset and length that start at \<open>off\<close>, follow each other without a gap
  or an overlap, and end at \<open>stop\<close>.\<close>

fun contiguous :: "nat \<Rightarrow> (nat \<times> nat) list \<Rightarrow> nat \<Rightarrow> bool" where
  "contiguous off [] stop \<longleftrightarrow> off = stop"
| "contiguous off ((o1, n) # rs) stop \<longleftrightarrow> o1 = off \<and> contiguous (off + n) rs stop"

lemma contiguous_upt:
  assumes "\<And>j. i \<le> j \<Longrightarrow> j < W \<Longrightarrow> f j + g j = f (Suc j)" and "i \<le> W"
  shows "contiguous (f i) (map (\<lambda>j. (f j, g j)) [i..<W]) (f W)"
  using assms
proof (induction "W - i" arbitrary: i)
  case 0
  then show ?case by simp
next
  case (Suc d)
  then have i: "i < W" by simp
  have "contiguous (f (Suc i)) (map (\<lambda>j. (f j, g j)) [Suc i..<W]) (f W)"
    using Suc i by simp
  with i Suc.prems(1) [of i] show ?case by (simp add: upt_conv_Cons)
qed

text \<open>The bytes of a file a range selects.\<close>

definition slice :: "'a list \<Rightarrow> nat \<times> nat \<Rightarrow> 'a list" where
  "slice xs r = take (snd r) (drop (fst r) xs)"

lemma contiguous_slices:
  "contiguous off rs (length xs) \<Longrightarrow> concat (map (slice xs) rs) = drop off xs"
proof (induction rs arbitrary: off)
  case Nil
  then show ?case by simp
next
  case (Cons r rs)
  obtain o1 n where r: "r = (o1, n)" by (cases r)
  from Cons.prems have "contiguous (off + n) rs (length xs)" and [simp]: "o1 = off"
    by (simp_all add: r)
  from Cons.IH [OF this(1)] have "concat (map (slice xs) rs) = drop n (drop off xs)"
    by (simp add: add.commute)
  moreover have "slice xs r = take n (drop off xs)" by (simp add: r slice_def)
  ultimately show ?case by (simp del: drop_drop)
qed

lemma contiguous_sum: "contiguous off rs stop \<Longrightarrow> off + sum_list (map snd rs) = stop"
  by (induction off rs stop rule: contiguous.induct) (auto simp: algebra_simps)

lemma split_ranges_contiguous_view:
  assumes "i32_range workers"
  shows "contiguous 0 (map range_view (split_ranges bytes_total workers align)) (unat bytes_total)"
proof (cases "one_range bytes_total workers align")
  case True
  then show ?thesis by (simp add: split_ranges_one range_view_def)
next
  case many: False
  define W where "W = nat workers"
  have W: "0 < W" using many by (auto simp: one_range_def W_def)
  show ?thesis
  proof (cases "align \<le> 1")
    case True
    let ?f = "share_start (unat bytes_total div W) (unat bytes_total mod W)"
    have "contiguous (?f 0) (map (\<lambda>j. (?f j, share_size (unat bytes_total div W) (unat bytes_total mod W) j)) [0..<W]) (?f W)"
      by (rule contiguous_upt) (simp_all add: share_start_Suc)
    moreover have "?f W = unat bytes_total"
      using W by (subst share_start_total) (simp_all add: mult.commute)
    ultimately show ?thesis
      using split_ranges_bytes [OF many True assms] by (simp add: W_def)
  next
    case False
    let ?A = "unat align"
    let ?B = "unat bytes_total div ?A div W" and ?R = "unat bytes_total div ?A mod W"
    let ?f = "\<lambda>j. share_start ?B ?R j * ?A + (if j = W then unat bytes_total mod ?A else 0)"
    let ?g = "\<lambda>j. share_size ?B ?R j * ?A + (if j = W - 1 then unat bytes_total mod ?A else 0)"
    have "1 < align" using False by simp
    then have v: "map range_view (split_ranges bytes_total workers align) =
        map (\<lambda>j. (?f j, ?g j)) [0..<W]"
      unfolding split_ranges_blocks [OF many \<open>1 < align\<close> assms] W_def by simp
    have f0: "?f 0 = 0" using W by simp
    have fW: "?f W = unat bytes_total" using W by (simp add: share_start_total mult.commute)
    have "contiguous (?f 0) (map (\<lambda>j. (?f j, ?g j)) [0..<W]) (?f W)"
      using W by (intro contiguous_upt) (auto simp: share_start_Suc distrib_right)
    then show ?thesis unfolding v f0 fW .
  qed
qed

lemma split_ranges_length:
  assumes "i32_range workers"
  shows "length (split_ranges bytes_total workers align) =
    (if one_range bytes_total workers align then 1 else nat workers)"
proof (cases "one_range bytes_total workers align")
  case True
  then show ?thesis by (simp add: split_ranges_one)
next
  case False
  then have "length (map range_view (split_ranges bytes_total workers align)) = nat workers"
    using split_ranges_bytes [OF False _ assms] split_ranges_blocks [OF False _ assms]
    by (cases "align \<le> 1") (simp_all add: not_le)
  with False show ?thesis by simp
qed

lemma share_size_close: "share_size B R i \<le> Suc (share_size B R j)"
  by (simp add: share_size_def)

lemma nth_view: "i < length rs \<Longrightarrow> range_view (rs ! i) = map range_view rs ! i"
  by simp

section \<open>Properties\<close>

text \<open>C8. \<^verbatim>\<open>split_ranges\<close> loses no byte and reads none twice: for every file size, every
  \<^verbatim>\<open>int\<close> worker count and every alignment, the ranges follow each other from 0 to the size
  without gap, overlap or wrap-around, so the slices they select concatenate to the file; and there
  is one range per worker, or a single one for an empty file, one worker, or a file below one block.\<close>

theorem split_ranges_cover:
  assumes "i32_range workers"
  shows "contiguous 0 (map range_view (split_ranges bytes_total workers align)) (unat bytes_total)
    \<and> (length data = unat bytes_total \<longrightarrow>
        concat (map (slice data) (map range_view (split_ranges bytes_total workers align))) = data)
    \<and> length (split_ranges bytes_total workers align) =
        (if one_range bytes_total workers align then 1 else nat workers)"
  using split_ranges_contiguous_view [OF assms, of bytes_total align]
    contiguous_slices [of 0 "map range_view (split_ranges bytes_total workers align)" data]
    split_ranges_length [OF assms, of bytes_total align]
  by simp

theorem split_ranges_cover_witness:
  "contiguous 0 (map range_view (split_ranges 10 3 4)) (unat (10 :: u64))
    \<and> concat (map (slice [0..<10 :: nat]) (map range_view (split_ranges 10 3 4))) = [0..<10]
    \<and> length (split_ranges 10 3 4) = 3"
  using split_ranges_cover [of 3 10 4 "[0..<10 :: nat]"]
  by (simp add: i32_range_def one_range_def)

text \<open>The byte split is as even as it can be: without alignment any two slices differ by at
  most one byte.\<close>

theorem split_ranges_even:
  assumes "i32_range workers" and "align \<le> 1"
    and "r \<in> set (split_ranges bytes_total workers align)"
    and "s \<in> set (split_ranges bytes_total workers align)"
  shows "unat (br_length r) \<le> unat (br_length s) + 1"
proof (cases "one_range bytes_total workers align")
  case True
  with assms(3,4) show ?thesis by (simp add: split_ranges_one)
next
  case False
  let ?g = "share_size (unat bytes_total div nat workers) (unat bytes_total mod nat workers)"
  have "snd ` set (map range_view (split_ranges bytes_total workers align)) = ?g ` {0..<nat workers}"
    unfolding split_ranges_bytes [OF False assms(2,1)] by (simp add: image_image)
  then have "unat (br_length t) \<in> range ?g" if "t \<in> set (split_ranges bytes_total workers align)" for t
    using that by (auto simp: range_view_def image_image)
  from this [OF assms(3)] this [OF assms(4)] show ?thesis
    by (auto simp: share_size_close)
qed

theorem split_ranges_even_witness:
  "unat (br_length (split_ranges 10 3 1 ! 0)) \<le> unat (br_length (split_ranges 10 3 1 ! 2)) + 1
    \<and> map range_view (split_ranges 10 3 1) = [(0, 4), (4, 3), (7, 3)]"
proof -
  have v: "map range_view (split_ranges 10 3 1) = [(0, 4), (4, 3), (7, 3)]" by code_simp
  then have l: "length (split_ranges 10 3 1) = 3" by (simp add: arg_cong [OF v, of length, simplified])
  show ?thesis
    using split_ranges_even [of 3 1 "split_ranges 10 3 1 ! 0" 10 "split_ranges 10 3 1 ! 2"] v l
    by (simp add: i32_range_def)
qed

text \<open>C31. The block split is what \<^verbatim>\<open>O_DIRECT\<close> needs: with an alignment above 1 every slice
  starts at a multiple of it, and every slice but the last has a length that is one.\<close>

theorem split_ranges_aligned:
  assumes "i32_range workers" and "1 < align"
    and "i < length (split_ranges bytes_total workers align)"
  shows "unat align dvd unat (br_offset (split_ranges bytes_total workers align ! i)) \<and>
    (Suc i < length (split_ranges bytes_total workers align) \<longrightarrow>
      unat align dvd unat (br_length (split_ranges bytes_total workers align ! i)))"
proof (cases "one_range bytes_total workers align")
  case True
  with assms(3) show ?thesis by (simp add: split_ranges_one)
next
  case False
  have len: "length (split_ranges bytes_total workers align) = nat workers"
    using split_ranges_length [OF assms(1)] False by simp
  have "range_view (split_ranges bytes_total workers align ! i) =
      map range_view (split_ranges bytes_total workers align) ! i"
    using assms(3) by (rule nth_view)
  then show ?thesis
    using assms(3) len unfolding split_ranges_blocks [OF False assms(2,1)]
    by (auto simp: range_view_def)
qed

theorem split_ranges_aligned_witness:
  "unat kDirectAlign dvd unat (br_offset (split_ranges 20000 3 kDirectAlign ! 1))
    \<and> unat kDirectAlign dvd unat (br_length (split_ranges 20000 3 kDirectAlign ! 1))
    \<and> map range_view (split_ranges 20000 3 kDirectAlign) = [(0, 8192), (8192, 4096), (12288, 7712)]"
proof -
  have v: "map range_view (split_ranges 20000 3 kDirectAlign) = [(0, 8192), (8192, 4096), (12288, 7712)]"
    by code_simp
  have "length (split_ranges 20000 3 kDirectAlign) = 3"
    using split_ranges_length [of 3 20000 kDirectAlign]
    by (simp add: i32_range_def one_range_def kDirectAlign_def)
  then show ?thesis
    using split_ranges_aligned [of 3 kDirectAlign 1 20000] v
    by (simp add: i32_range_def kDirectAlign_def)
qed

end
