(* ===== verification/Meta.thy ===== *)
theory Meta
  imports Text_Numbers Ranges
begin

text \<open>
  The job record of \<^verbatim>\<open>forge.hpp\<close> (\<^verbatim>\<open>struct Meta\<close>, \<^verbatim>\<open>is_terminal_state\<close>) and its text form
  of \<^verbatim>\<open>store.cpp\<close>: \<^verbatim>\<open>validate_meta\<close>, \<^verbatim>\<open>meta_to_text\<close>, \<^verbatim>\<open>assign_meta_field\<close> and
  \<^verbatim>\<open>text_to_meta\<close>. A function that fills \<^verbatim>\<open>std::string& err\<close> and returns \<^verbatim>\<open>false\<close> returns
  \<open>Inl err\<close>. The lemmas give the round trip of the text form, the records it can represent, and
  what a record that passes validation satisfies.
\<close>

section \<open>The record\<close>

record meta =
  m_id :: u64
  m_state :: string
  m_op :: string
  m_input :: string
  m_exec_path :: string
  m_io :: string
  m_workers :: int
  m_priority :: int
  m_nice :: int
  m_cpu :: int
  m_mem_mb :: u64
  m_cpu_sec :: u64
  m_max_fds :: u64
  m_max_out_mb :: u64
  m_deadline_s :: u64
  m_procs :: string
  m_exits :: string
  m_bytes :: u64
  m_digest :: string
  m_error :: string
  m_submitted_ms :: int
  m_started_ms :: int
  m_finished_ms :: int

text \<open>\<^verbatim>\<open>Meta{}\<close>: the default member initialisers.\<close>

definition empty_meta :: meta where
  "empty_meta = \<lparr>m_id = 0, m_state = ''submitted'', m_op = [], m_input = [], m_exec_path = [],
     m_io = ''mmap'', m_workers = 1, m_priority = 0, m_nice = 0, m_cpu = -1, m_mem_mb = 0,
     m_cpu_sec = 0, m_max_fds = 0, m_max_out_mb = 0, m_deadline_s = 0, m_procs = [], m_exits = [],
     m_bytes = 0, m_digest = [], m_error = [], m_submitted_ms = 0, m_started_ms = 0,
     m_finished_ms = 0\<rparr>"

definition is_terminal_state :: "string \<Rightarrow> bool" where
  "is_terminal_state state \<longleftrightarrow>
     state = ''completed'' \<or> state = ''failed'' \<or> state = ''timed_out'' \<or> state = ''cancelled''"

section \<open>Validation\<close>

definition bad_text :: "string \<Rightarrow> bool" where
  "bad_text s \<longleftrightarrow> NL \<in> set s \<or> CR \<in> set s"

definition validate_meta :: "meta \<Rightarrow> string + unit" where
  "validate_meta m =
     (if bad_text (m_input m) \<or> bad_text (m_exec_path m) \<or> bad_text (m_op m) then
        Inl ''paths and operation names cannot contain newlines''
      else if m_op m \<noteq> ''sha256'' \<and> m_op m \<noteq> ''chunk-sha256'' \<and> m_op m \<noteq> ''count'' \<and>
              m_op m \<noteq> ''copy'' \<and> m_op m \<noteq> ''exec'' then
        Inl (''unknown operation '' @ [CHR 0x27] @ m_op m @ [CHR 0x27] @
             ''. Use sha256, chunk-sha256, count, copy, or exec.'')
      else if m_io m \<noteq> ''mmap'' \<and> m_io m \<noteq> ''read'' \<and> m_io m \<noteq> ''direct'' then
        Inl (''unknown --io '' @ [CHR 0x27] @ m_io m @ [CHR 0x27] @ ''. Use mmap, read, or direct.'')
      else if m_workers m < 1 \<or> m_workers m > kMaxWorkers then
        Inl (''workers must be between 1 and '' @ dec_int kMaxWorkers)
      else if m_op m = ''sha256'' \<and> m_workers m \<noteq> 1 then
        Inl (''sha256 is sequential, so it always uses 1 worker. '' @
             ''Use chunk-sha256 to hash slices in parallel '' @
             ''(that output is not the sha256 of the whole file).'')
      else if (m_op m = ''copy'' \<or> m_op m = ''exec'') \<and> m_workers m \<noteq> 1 then
        Inl (m_op m @ '' uses one worker process'')
      else if m_op m = ''exec'' \<and> m_exec_path m = [] then
        Inl ''exec requires --exec /path/to/program''
      else if m_op m \<noteq> ''exec'' \<and> m_input m = [] then
        Inl ''missing --input''
      else if m_nice m < -20 \<or> m_nice m > 19 then
        Inl ''nice must be between -20 and 19''
      else Inr ())"

section \<open>The text form\<close>

definition meta_to_text :: "meta \<Rightarrow> string" where
  "meta_to_text m =
     ''id='' @ dec_u64 (m_id m) @ [NL] @
     ''state='' @ m_state m @ [NL] @
     ''op='' @ m_op m @ [NL] @
     ''input='' @ m_input m @ [NL] @
     ''exec='' @ m_exec_path m @ [NL] @
     ''io='' @ m_io m @ [NL] @
     ''workers='' @ dec_int (m_workers m) @ [NL] @
     ''priority='' @ dec_int (m_priority m) @ [NL] @
     ''nice='' @ dec_int (m_nice m) @ [NL] @
     ''cpu='' @ dec_int (m_cpu m) @ [NL] @
     ''mem_mb='' @ dec_u64 (m_mem_mb m) @ [NL] @
     ''cpu_sec='' @ dec_u64 (m_cpu_sec m) @ [NL] @
     ''max_fds='' @ dec_u64 (m_max_fds m) @ [NL] @
     ''max_out_mb='' @ dec_u64 (m_max_out_mb m) @ [NL] @
     ''deadline_s='' @ dec_u64 (m_deadline_s m) @ [NL] @
     ''procs='' @ m_procs m @ [NL] @
     ''exits='' @ m_exits m @ [NL] @
     ''bytes='' @ dec_u64 (m_bytes m) @ [NL] @
     ''digest='' @ m_digest m @ [NL] @
     ''error='' @ m_error m @ [NL] @
     ''submitted_ms='' @ dec_int (m_submitted_ms m) @ [NL] @
     ''started_ms='' @ dec_int (m_started_ms m) @ [NL] @
     ''finished_ms='' @ dec_int (m_finished_ms m) @ [NL]"

text \<open>The lambdas \<^verbatim>\<open>need_u64\<close> and \<^verbatim>\<open>need_i64\<close>: the setter runs on the parsed number.\<close>

definition need_u64 :: "string \<Rightarrow> string \<Rightarrow> (u64 \<Rightarrow> meta) \<Rightarrow> string + meta" where
  "need_u64 key val setter =
     (case parse_u64 val of None \<Rightarrow> Inl (''bad number for '' @ key) | Some n \<Rightarrow> Inr (setter n))"

definition need_i64 :: "string \<Rightarrow> string \<Rightarrow> (int \<Rightarrow> meta) \<Rightarrow> string + meta" where
  "need_i64 key val setter =
     (case parse_i64 val of None \<Rightarrow> Inl (''bad number for '' @ key) | Some n \<Rightarrow> Inr (setter n))"

definition assign_meta_field :: "meta \<Rightarrow> string \<Rightarrow> string \<Rightarrow> string + meta" where
  "assign_meta_field m key val =
     (if key = ''id'' then need_u64 key val (\<lambda>n. m\<lparr>m_id := n\<rparr>)
      else if key = ''state'' then Inr (m\<lparr>m_state := val\<rparr>)
      else if key = ''op'' then Inr (m\<lparr>m_op := val\<rparr>)
      else if key = ''input'' then Inr (m\<lparr>m_input := val\<rparr>)
      else if key = ''exec'' then Inr (m\<lparr>m_exec_path := val\<rparr>)
      else if key = ''io'' then Inr (m\<lparr>m_io := val\<rparr>)
      else if key = ''workers'' then need_u64 key val (\<lambda>n. m\<lparr>m_workers := cast_i32 (uint n)\<rparr>)
      else if key = ''priority'' then need_i64 key val (\<lambda>n. m\<lparr>m_priority := cast_i32 n\<rparr>)
      else if key = ''nice'' then need_i64 key val (\<lambda>n. m\<lparr>m_nice := cast_i32 n\<rparr>)
      else if key = ''cpu'' then need_i64 key val (\<lambda>n. m\<lparr>m_cpu := cast_i32 n\<rparr>)
      else if key = ''mem_mb'' then need_u64 key val (\<lambda>n. m\<lparr>m_mem_mb := n\<rparr>)
      else if key = ''cpu_sec'' then need_u64 key val (\<lambda>n. m\<lparr>m_cpu_sec := n\<rparr>)
      else if key = ''max_fds'' then need_u64 key val (\<lambda>n. m\<lparr>m_max_fds := n\<rparr>)
      else if key = ''max_out_mb'' then need_u64 key val (\<lambda>n. m\<lparr>m_max_out_mb := n\<rparr>)
      else if key = ''deadline_s'' then need_u64 key val (\<lambda>n. m\<lparr>m_deadline_s := n\<rparr>)
      else if key = ''procs'' then Inr (m\<lparr>m_procs := val\<rparr>)
      else if key = ''exits'' then Inr (m\<lparr>m_exits := val\<rparr>)
      else if key = ''bytes'' then need_u64 key val (\<lambda>n. m\<lparr>m_bytes := n\<rparr>)
      else if key = ''digest'' then Inr (m\<lparr>m_digest := val\<rparr>)
      else if key = ''error'' then Inr (m\<lparr>m_error := val\<rparr>)
      else if key = ''submitted_ms'' then need_i64 key val (\<lambda>n. m\<lparr>m_submitted_ms := n\<rparr>)
      else if key = ''started_ms'' then need_i64 key val (\<lambda>n. m\<lparr>m_started_ms := n\<rparr>)
      else if key = ''finished_ms'' then need_i64 key val (\<lambda>n. m\<lparr>m_finished_ms := n\<rparr>)
      else Inr m)"

text \<open>The loop of \<^verbatim>\<open>text_to_meta\<close> over the lines, and the check after it.\<close>

definition pop_cr :: "string \<Rightarrow> string" where
  "pop_cr line = (if line \<noteq> [] \<and> last line = CR then butlast line else line)"

fun meta_lines_loop :: "meta \<Rightarrow> string list \<Rightarrow> string + meta" where
  "meta_lines_loop m [] = Inr m"
| "meta_lines_loop m (line # lines) =
     (if line = [] \<or> hd line = CHR ''#'' then meta_lines_loop m lines
      else let line = pop_cr line in
        (case split_first (CHR ''='') line of
           None \<Rightarrow> Inl (''meta line has no '' @ [CHR 0x27] @ ''='' @ [CHR 0x27] @ '': '' @ line)
         | Some (key, val) \<Rightarrow>
             (case assign_meta_field m key val of
                Inl err \<Rightarrow> Inl err
              | Inr m' \<Rightarrow> meta_lines_loop m' lines)))"

definition text_to_meta :: "string \<Rightarrow> string + meta" where
  "text_to_meta text =
     (case meta_lines_loop empty_meta (getlines text) of
        Inl err \<Rightarrow> Inl err
      | Inr m \<Rightarrow>
          if m_id m = 0 \<or> m_op m = [] \<or> m_state m = []
          then Inl ''meta is missing id, op, or state'' else Inr m)"

section \<open>Round trip\<close>

text \<open>A value of a text field survives: no newline in it and no carriage return at its end.\<close>

definition line_ok :: "string \<Rightarrow> bool" where
  "line_ok s \<longleftrightarrow> NL \<notin> set s \<and> (s = [] \<or> last s \<noteq> CR)"

text \<open>The records the text form represents: the identifying fields are present, the texts are
  single lines, and the signed fields are in the range of their C++ types.\<close>

definition meta_ok :: "meta \<Rightarrow> bool" where
  "meta_ok m \<longleftrightarrow>
     m_id m \<noteq> 0 \<and> m_op m \<noteq> [] \<and> m_state m \<noteq> [] \<and>
     list_all line_ok [m_state m, m_op m, m_input m, m_exec_path m, m_io m, m_procs m, m_exits m,
       m_digest m, m_error m] \<and>
     0 \<le> m_workers m \<and>
     list_all i32_range [m_workers m, m_priority m, m_nice m, m_cpu m] \<and>
     list_all i64_range [m_submitted_ms m, m_started_ms m, m_finished_ms m]"

lemma line_ok_dec [simp, text_simps]: "line_ok (dec_u64 w)" "line_ok (dec_int n)"
proof -
  have sep: "\<not> is_digit NL" "\<not> is_digit CR" by (simp_all add: is_digit_of_char)
  have "CR \<notin> set (dec_u64 w)" "CR \<notin> set (dec_int n)" "NL \<notin> set (dec_u64 w)" "NL \<notin> set (dec_int n)"
    using sep dec_int_chars [of _ n] by (auto simp: dec_u64_def dec_nat_not_in)
  then show "line_ok (dec_u64 w)" "line_ok (dec_int n)"
    unfolding line_ok_def by (metis last_in_set)+
qed

text \<open>The lines of a file as key and value.\<close>

definition field_line :: "string \<times> string \<Rightarrow> string" where
  "field_line kv = fst kv @ CHR ''='' # snd kv"

definition meta_fields :: "meta \<Rightarrow> (string \<times> string) list" where
  "meta_fields m =
     [(''id'', dec_u64 (m_id m)), (''state'', m_state m), (''op'', m_op m), (''input'', m_input m),
      (''exec'', m_exec_path m), (''io'', m_io m), (''workers'', dec_int (m_workers m)),
      (''priority'', dec_int (m_priority m)), (''nice'', dec_int (m_nice m)),
      (''cpu'', dec_int (m_cpu m)), (''mem_mb'', dec_u64 (m_mem_mb m)),
      (''cpu_sec'', dec_u64 (m_cpu_sec m)), (''max_fds'', dec_u64 (m_max_fds m)),
      (''max_out_mb'', dec_u64 (m_max_out_mb m)), (''deadline_s'', dec_u64 (m_deadline_s m)),
      (''procs'', m_procs m), (''exits'', m_exits m), (''bytes'', dec_u64 (m_bytes m)),
      (''digest'', m_digest m), (''error'', m_error m),
      (''submitted_ms'', dec_int (m_submitted_ms m)), (''started_ms'', dec_int (m_started_ms m)),
      (''finished_ms'', dec_int (m_finished_ms m))]"

lemma meta_to_text_fields:
  "meta_to_text m = concat (map (\<lambda>l. l @ [NL]) (map field_line (meta_fields m)))"
  by (simp add: meta_to_text_def meta_fields_def field_line_def)

text \<open>A key as the code writes them.\<close>

definition key_ok :: "string \<Rightarrow> bool" where
  "key_ok k \<longleftrightarrow> k \<noteq> [] \<and> hd k \<noteq> CHR ''#'' \<and> CHR ''='' \<notin> set k \<and> NL \<notin> set k"

fun assign_fields :: "meta \<Rightarrow> (string \<times> string) list \<Rightarrow> string + meta" where
  "assign_fields m [] = Inr m"
| "assign_fields m ((key, val) # kvs) =
     (case assign_meta_field m key val of Inl err \<Rightarrow> Inl err | Inr m' \<Rightarrow> assign_fields m' kvs)"

lemma meta_lines_loop_fields:
  "list_all (\<lambda>(k, v). key_ok k \<and> line_ok v) kvs \<Longrightarrow>
   meta_lines_loop m (map field_line kvs) = assign_fields m kvs"
proof (induction kvs arbitrary: m)
  case Nil
  then show ?case by simp
next
  case (Cons kv kvs)
  obtain k v where kv: "kv = (k, v)" by (cases kv)
  have k: "key_ok k" and v: "line_ok v" using Cons.prems by (simp_all add: kv)
  have "pop_cr (field_line kv) = k @ CHR ''='' # v"
    using v by (auto simp: kv pop_cr_def field_line_def line_ok_def)
  moreover have "field_line kv \<noteq> []" "hd (field_line kv) \<noteq> CHR ''#''"
    using k by (simp_all add: kv field_line_def key_ok_def)
  moreover have "split_first (CHR ''='') (k @ CHR ''='' # v) = Some (k, v)"
    using k by (intro split_first_append) (simp add: key_ok_def)
  ultimately show ?case
    using Cons by (simp add: kv split: sum.splits)
qed

lemma field_lines_no_newline:
  "list_all (\<lambda>(k, v). key_ok k \<and> line_ok v) kvs \<Longrightarrow> \<forall>l \<in> set (map field_line kvs). NL \<notin> set l"
  by (auto simp: list_all_iff field_line_def key_ok_def line_ok_def)

lemma meta_fields_ok: "meta_ok m \<Longrightarrow> list_all (\<lambda>(k, v). key_ok k \<and> line_ok v) (meta_fields m)"
  by (simp add: meta_fields_def meta_ok_def key_ok_def)

lemma assign_texts [text_simps]:
  "assign_meta_field m ''state'' v = Inr (m\<lparr>m_state := v\<rparr>)"
  "assign_meta_field m ''op'' v = Inr (m\<lparr>m_op := v\<rparr>)"
  "assign_meta_field m ''input'' v = Inr (m\<lparr>m_input := v\<rparr>)"
  "assign_meta_field m ''exec'' v = Inr (m\<lparr>m_exec_path := v\<rparr>)"
  "assign_meta_field m ''io'' v = Inr (m\<lparr>m_io := v\<rparr>)"
  "assign_meta_field m ''procs'' v = Inr (m\<lparr>m_procs := v\<rparr>)"
  "assign_meta_field m ''exits'' v = Inr (m\<lparr>m_exits := v\<rparr>)"
  "assign_meta_field m ''digest'' v = Inr (m\<lparr>m_digest := v\<rparr>)"
  "assign_meta_field m ''error'' v = Inr (m\<lparr>m_error := v\<rparr>)"
  by (simp_all add: assign_meta_field_def)

lemma assign_unsigned [text_simps]:
  "assign_meta_field m ''id'' (dec_u64 n) = Inr (m\<lparr>m_id := n\<rparr>)"
  "assign_meta_field m ''mem_mb'' (dec_u64 n) = Inr (m\<lparr>m_mem_mb := n\<rparr>)"
  "assign_meta_field m ''cpu_sec'' (dec_u64 n) = Inr (m\<lparr>m_cpu_sec := n\<rparr>)"
  "assign_meta_field m ''max_fds'' (dec_u64 n) = Inr (m\<lparr>m_max_fds := n\<rparr>)"
  "assign_meta_field m ''max_out_mb'' (dec_u64 n) = Inr (m\<lparr>m_max_out_mb := n\<rparr>)"
  "assign_meta_field m ''deadline_s'' (dec_u64 n) = Inr (m\<lparr>m_deadline_s := n\<rparr>)"
  "assign_meta_field m ''bytes'' (dec_u64 n) = Inr (m\<lparr>m_bytes := n\<rparr>)"
  by (simp_all add: assign_meta_field_def need_u64_def)

lemma assign_workers [text_simps]:
  assumes "0 \<le> n" and "i32_range n"
  shows "assign_meta_field m ''workers'' (dec_int n) = Inr (m\<lparr>m_workers := n\<rparr>)"
proof -
  have n: "nat n < 2 ^ 64" using assms by (simp add: i32_range_def nat_less_iff)
  then have "parse_u64 (dec_int n) = Some (word_of_nat (nat n))"
    using assms(1) by (simp add: dec_int_def parse_u64_dec_nat)
  moreover have "uint (word_of_nat (nat n) :: u64) = n"
    using uint_of_nat_u64 [OF n] assms(1) by simp
  ultimately show ?thesis
    using assms(2) by (simp add: assign_meta_field_def need_u64_def)
qed

lemma assign_signed [text_simps]:
  "i32_range n \<Longrightarrow> assign_meta_field m ''priority'' (dec_int n) = Inr (m\<lparr>m_priority := n\<rparr>)"
  "i32_range n \<Longrightarrow> assign_meta_field m ''nice'' (dec_int n) = Inr (m\<lparr>m_nice := n\<rparr>)"
  "i32_range n \<Longrightarrow> assign_meta_field m ''cpu'' (dec_int n) = Inr (m\<lparr>m_cpu := n\<rparr>)"
  "i64_range n \<Longrightarrow> assign_meta_field m ''submitted_ms'' (dec_int n) = Inr (m\<lparr>m_submitted_ms := n\<rparr>)"
  "i64_range n \<Longrightarrow> assign_meta_field m ''started_ms'' (dec_int n) = Inr (m\<lparr>m_started_ms := n\<rparr>)"
  "i64_range n \<Longrightarrow> assign_meta_field m ''finished_ms'' (dec_int n) = Inr (m\<lparr>m_finished_ms := n\<rparr>)"
  by (simp_all add: assign_meta_field_def need_i64_def i32_i64_range)

lemma assign_fields_meta:
  assumes "meta_ok m"
  shows "assign_fields empty_meta (meta_fields m) = Inr m"
  using assms by (cases m) (simp add: meta_fields_def meta_ok_def text_simps empty_meta_def)

lemma text_to_meta_to_text: "meta_ok m \<Longrightarrow> text_to_meta (meta_to_text m) = Inr m"
  unfolding text_to_meta_def meta_to_text_fields
  by (subst getlines_concat [OF field_lines_no_newline [OF meta_fields_ok]], assumption)
    (simp add: meta_lines_loop_fields meta_fields_ok assign_fields_meta, simp add: meta_ok_def)

text \<open>The text form keeps the contract of a format, so one text stands for one record.\<close>

interpretation meta_text: text_codec meta_to_text "\<lambda>txt. ok_value (text_to_meta txt)" meta_ok
  by unfold_locales (simp add: text_to_meta_to_text)

section \<open>Properties\<close>

text \<open>C15. A saved record is read back unchanged: for every record whose identifying fields are
  present, whose texts are single lines and whose signed fields fit their types,
  \<^verbatim>\<open>text_to_meta\<close> undoes \<^verbatim>\<open>meta_to_text\<close>.\<close>

theorem meta_roundtrip:
  "meta_ok m \<Longrightarrow> text_to_meta (meta_to_text m) = Inr m"
  by (rule text_to_meta_to_text)

definition sample_meta :: meta where
  "sample_meta = empty_meta\<lparr>m_id := 12, m_op := ''count'', m_input := ''/tmp/a=b'', m_workers := 4,
     m_priority := -3, m_bytes := 8202\<rparr>"

lemma sample_meta_ok: "meta_ok sample_meta"
  by (simp add: sample_meta_def meta_ok_def empty_meta_def line_ok_def i32_range_def i64_range_def)

theorem meta_roundtrip_witness:
  "text_to_meta (meta_to_text sample_meta) = Inr sample_meta"
  by (rule meta_roundtrip [OF sample_meta_ok])

text \<open>C37. A newline inside a text field is not escaped, so what follows it is read as fields of its
  own: an error text that ends in the line \<open>state=S\<close> is read back as a job in state \<open>S\<close>.\<close>

theorem meta_newline_injects:
  assumes "meta_ok m" and "m_error m = e" and "S \<noteq> []" and "line_ok S"
  shows "text_to_meta (meta_to_text (m\<lparr>m_error := e @ [NL] @ ''state='' @ S\<rparr>)) =
    Inr (m\<lparr>m_state := S\<rparr>)"
proof -
  let ?before = "take 20 (meta_fields m)" and ?after = "drop 20 (meta_fields m)"
  let ?kvs = "?before @ (''state'', S) # ?after"
  have ok: "list_all (\<lambda>(k, v). key_ok k \<and> line_ok v) ?kvs"
    using assms(4) meta_fields_ok [OF assms(1)]
    by (simp add: key_ok_def meta_fields_def)
  have body: "meta_to_text (m\<lparr>m_error := e @ [NL] @ ''state='' @ S\<rparr>) =
      concat (map (\<lambda>l. l @ [NL]) (map field_line ?kvs))"
    using assms(2) by (simp add: meta_to_text_def meta_fields_def field_line_def)
  have "assign_fields empty_meta ?kvs = Inr (m\<lparr>m_state := S\<rparr>)"
    using assms(1,3)
    by (cases m) (simp add: meta_fields_def meta_ok_def text_simps empty_meta_def)
  then show ?thesis
    unfolding text_to_meta_def body getlines_concat [OF field_lines_no_newline [OF ok]]
      meta_lines_loop_fields [OF ok]
    using assms(1,3) by (simp add: meta_ok_def)
qed

theorem meta_newline_injects_witness:
  "text_to_meta (meta_to_text (sample_meta\<lparr>m_error := [] @ [NL] @ ''state='' @ ''completed''\<rparr>)) =
    Inr (sample_meta\<lparr>m_state := ''completed''\<rparr>)"
  by (rule meta_newline_injects [OF sample_meta_ok])
    (simp_all add: sample_meta_def empty_meta_def line_ok_def)

text \<open>A record of the types the C++ struct has, with texts that are lines.\<close>

definition meta_typed :: "meta \<Rightarrow> bool" where
  "meta_typed m \<longleftrightarrow>
     list_all (\<lambda>s. NL \<notin> set s) [m_state m, m_op m, m_input m, m_exec_path m, m_io m, m_procs m, m_exits m,
       m_digest m, m_error m] \<and>
     list_all i32_range [m_workers m, m_priority m, m_nice m, m_cpu m] \<and>
     list_all i64_range [m_submitted_ms m, m_started_ms m, m_finished_ms m]"

lemma empty_meta_typed: "meta_typed empty_meta"
  by (simp add: meta_typed_def empty_meta_def i32_range_def i64_range_def)

lemma parse_i64_range: "parse_i64 s = Some n \<Longrightarrow> i64_range n"
  by (auto simp: parse_i64_def split: list.splits if_splits)

definition typed_result :: "string + meta \<Rightarrow> bool" where
  "typed_result r \<longleftrightarrow> (case r of Inl _ \<Rightarrow> True | Inr m \<Rightarrow> meta_typed m)"

lemma typed_result_if: "typed_result r \<Longrightarrow> typed_result r' \<Longrightarrow> typed_result (if b then r else r')"
  by simp

lemma typed_result_simps:
  "typed_result (Inr m) \<longleftrightarrow> meta_typed m"
  "(\<And>n. meta_typed (f n)) \<Longrightarrow> typed_result (need_u64 key val f)"
  "(\<And>n. i64_range n \<Longrightarrow> meta_typed (g n)) \<Longrightarrow> typed_result (need_i64 key val g)"
  by (auto simp: typed_result_def need_u64_def need_i64_def parse_i64_range split: option.splits)

lemma typed_updates:
  assumes "meta_typed m"
  shows "NL \<notin> set v \<Longrightarrow> meta_typed (m\<lparr>m_state := v\<rparr>)" "NL \<notin> set v \<Longrightarrow> meta_typed (m\<lparr>m_op := v\<rparr>)"
    "NL \<notin> set v \<Longrightarrow> meta_typed (m\<lparr>m_input := v\<rparr>)" "NL \<notin> set v \<Longrightarrow> meta_typed (m\<lparr>m_exec_path := v\<rparr>)"
    "NL \<notin> set v \<Longrightarrow> meta_typed (m\<lparr>m_io := v\<rparr>)" "NL \<notin> set v \<Longrightarrow> meta_typed (m\<lparr>m_procs := v\<rparr>)"
    "NL \<notin> set v \<Longrightarrow> meta_typed (m\<lparr>m_exits := v\<rparr>)" "NL \<notin> set v \<Longrightarrow> meta_typed (m\<lparr>m_digest := v\<rparr>)"
    "NL \<notin> set v \<Longrightarrow> meta_typed (m\<lparr>m_error := v\<rparr>)" "i32_range n \<Longrightarrow> meta_typed (m\<lparr>m_workers := n\<rparr>)"
    "i32_range n \<Longrightarrow> meta_typed (m\<lparr>m_priority := n\<rparr>)" "i32_range n \<Longrightarrow> meta_typed (m\<lparr>m_nice := n\<rparr>)"
    "i32_range n \<Longrightarrow> meta_typed (m\<lparr>m_cpu := n\<rparr>)" "i64_range n \<Longrightarrow> meta_typed (m\<lparr>m_submitted_ms := n\<rparr>)"
    "i64_range n \<Longrightarrow> meta_typed (m\<lparr>m_started_ms := n\<rparr>)" "i64_range n \<Longrightarrow> meta_typed (m\<lparr>m_finished_ms := n\<rparr>)"
    "meta_typed (m\<lparr>m_id := w\<rparr>)" "meta_typed (m\<lparr>m_mem_mb := w\<rparr>)" "meta_typed (m\<lparr>m_cpu_sec := w\<rparr>)"
    "meta_typed (m\<lparr>m_max_fds := w\<rparr>)" "meta_typed (m\<lparr>m_max_out_mb := w\<rparr>)"
    "meta_typed (m\<lparr>m_deadline_s := w\<rparr>)" "meta_typed (m\<lparr>m_bytes := w\<rparr>)"
  using assms by (simp_all add: meta_typed_def)

lemma assign_meta_field_typed:
  assumes "meta_typed m" and "NL \<notin> set val" and "assign_meta_field m key val = Inr m'"
  shows "meta_typed m'"
proof -
  have "typed_result (assign_meta_field m key val)"
    unfolding assign_meta_field_def
    by (intro typed_result_if) (simp_all add: typed_result_simps typed_updates assms(1,2))
  then show ?thesis by (simp add: assms(3) typed_result_simps)
qed

lemma getlines_no_newline: "l \<in> set (getlines t) \<Longrightarrow> NL \<notin> set l"
proof (induction t rule: getlines.induct)
  case (1 t)
  then show ?case
    by (subst (asm) (2) getlines.simps) (auto simp: split_first_None split_first_Some split: if_splits option.splits)
qed

lemma meta_lines_loop_typed:
  "meta_typed m \<Longrightarrow> \<forall>l \<in> set ls. NL \<notin> set l \<Longrightarrow> meta_lines_loop m ls = Inr m' \<Longrightarrow> meta_typed m'"
proof (induction ls arbitrary: m)
  case (Cons l ls)
  show ?case
  proof (cases "l = [] \<or> hd l = CHR ''#''")
    case True
    then show ?thesis using Cons by auto
  next
    case False
    have "NL \<notin> set (pop_cr l)" using Cons.prems(2) by (auto simp: pop_cr_def dest: in_set_butlastD)
    moreover obtain k v m1 where "split_first (CHR ''='') (pop_cr l) = Some (k, v)"
      "assign_meta_field m k v = Inr m1" "meta_lines_loop m1 ls = Inr m'"
      using Cons.prems(3) False by (auto simp: Let_def split: option.splits sum.splits)
    ultimately have "meta_typed m1" "meta_lines_loop m1 ls = Inr m'"
      using assign_meta_field_typed [OF Cons.prems(1)] by (auto simp: split_first_Some)
    then show ?thesis using Cons.IH Cons.prems(2) by simp
  qed
qed simp

text \<open>C16. Whatever the file holds, a record that is read is well typed: it has an id, an operation and a
  state, its numbers are in the range of their C++ types, and none of its texts has a newline.\<close>

theorem read_record_typed:
  assumes "text_to_meta txt = Inr m"
  shows "meta_typed m \<and> m_id m \<noteq> 0 \<and> m_op m \<noteq> [] \<and> m_state m \<noteq> []"
proof -
  obtain m1 where "meta_lines_loop empty_meta (getlines txt) = Inr m1" "m = m1"
    "m_id m1 \<noteq> 0" "m_op m1 \<noteq> []" "m_state m1 \<noteq> []"
    using assms by (auto simp: text_to_meta_def split: sum.splits if_splits)
  then show ?thesis
    using meta_lines_loop_typed [OF empty_meta_typed] getlines_no_newline by blast
qed

theorem read_record_typed_witness:
  "meta_typed sample_meta \<and> m_id sample_meta \<noteq> 0"
  using read_record_typed [OF text_to_meta_to_text [OF sample_meta_ok]] by blast

text \<open>The same for the input path, whose line comes before those of the options.\<close>

lemma meta_input_injects:
  assumes "meta_ok m" and "S \<noteq> []" and "line_ok S"
  shows "text_to_meta (meta_to_text (m\<lparr>m_input := m_input m @ [NL] @ ''state='' @ S\<rparr>)) =
    Inr (m\<lparr>m_state := S\<rparr>)"
proof -
  let ?kvs = "take 4 (meta_fields m) @ (''state'', S) # drop 4 (meta_fields m)"
  have ok: "list_all (\<lambda>(k, v). key_ok k \<and> line_ok v) ?kvs"
    using assms(3) meta_fields_ok [OF assms(1)] by (simp add: key_ok_def meta_fields_def)
  have body: "meta_to_text (m\<lparr>m_input := m_input m @ [NL] @ ''state='' @ S\<rparr>) =
      concat (map (\<lambda>l. l @ [NL]) (map field_line ?kvs))"
    by (simp add: meta_to_text_def meta_fields_def field_line_def)
  have "assign_fields empty_meta ?kvs = Inr (m\<lparr>m_state := S\<rparr>)"
    using assms(1,2) by (cases m) (simp add: meta_fields_def meta_ok_def text_simps empty_meta_def)
  then show ?thesis
    unfolding text_to_meta_def body getlines_concat [OF field_lines_no_newline [OF ok]]
      meta_lines_loop_fields [OF ok]
    using assms(1,2) by (simp add: meta_ok_def)
qed

text \<open>C30. A job that passes \<^verbatim>\<open>validate_meta\<close> fits the shared region and the split: the operation
  and the io mode are ones the worker implements, \<^verbatim>\<open>sha256\<close>, \<^verbatim>\<open>copy\<close> and \<^verbatim>\<open>exec\<close> have one
  worker, and the ranges of its input, however large and for both alignments, are at most the
  \<^verbatim>\<open>kMaxWorkers\<close> slots and at least one.\<close>

theorem validated_job_fits:
  assumes "validate_meta m = Inr ()"
  shows "m_op m \<in> {''sha256'', ''chunk-sha256'', ''count'', ''copy'', ''exec''}
    \<and> m_io m \<in> {''mmap'', ''read'', ''direct''}
    \<and> (m_op m \<in> {''sha256'', ''copy'', ''exec''} \<longrightarrow> m_workers m = 1)
    \<and> 1 \<le> length (split_ranges bytes_total (m_workers m) align)
    \<and> int (length (split_ranges bytes_total (m_workers m) align)) \<le> kMaxWorkers"
proof -
  have w: "1 \<le> m_workers m" "m_workers m \<le> kMaxWorkers"
    using assms by (auto simp: validate_meta_def split: if_splits)
  have "m_op m \<in> {''sha256'', ''chunk-sha256'', ''count'', ''copy'', ''exec''}"
    and "m_io m \<in> {''mmap'', ''read'', ''direct''}"
    and "m_op m \<in> {''sha256'', ''copy'', ''exec''} \<longrightarrow> m_workers m = 1"
    using assms by (auto simp: validate_meta_def split: if_splits)
  moreover have "i32_range (m_workers m)" using w by (simp add: kMaxWorkers_def i32_range_def)
  ultimately show ?thesis
    using split_ranges_length [of "m_workers m" bytes_total align] w by (auto simp: kMaxWorkers_def)
qed

theorem validated_job_fits_witness:
  "m_op sample_meta \<in> {''sha256'', ''chunk-sha256'', ''count'', ''copy'', ''exec''}
    \<and> int (length (split_ranges 8202 (m_workers sample_meta) kDirectAlign)) \<le> kMaxWorkers"
proof -
  have "validate_meta sample_meta = Inr ()" by code_simp
  from validated_job_fits [OF this, of 8202 kDirectAlign] show ?thesis by blast
qed

text \<open>The \<open>workers\<close> field is parsed as \<^verbatim>\<open>uint64_t\<close> and stored in an \<^verbatim>\<open>int\<close> without a range
  check: a count \<open>2 ^ 32 + k\<close> is taken as \<open>k\<close>, and so passes the later bound.\<close>

theorem workers_truncated:
  assumes "k < 2 ^ 31"
  shows "assign_meta_field m ''workers'' (dec_nat (2 ^ 32 + k)) = Inr (m\<lparr>m_workers := int k\<rparr>)"
proof -
  have n: "2 ^ 32 + k < 2 ^ 64" using assms by simp
  have "cast_i32 (int (2 ^ 32 + k)) = cast_i32 (int k)"
    unfolding cast_i32_def
    by (simp add: signed_take_bit_eq_iff_take_bit_eq take_bit_eq_mod)
  also have "\<dots> = int k" using assms by (intro cast_i32_id) (simp add: i32_range_def)
  finally show ?thesis
    using parse_u64_dec_nat [OF n] uint_of_nat_u64 [OF n]
    by (simp add: assign_meta_field_def need_u64_def)
qed

theorem workers_truncated_witness:
  "assign_meta_field empty_meta ''workers'' (dec_nat (2 ^ 32 + 2)) = Inr (empty_meta\<lparr>m_workers := int 2\<rparr>)"
  by (rule workers_truncated) simp

end
