(* ===== verification/Sha256.thy ===== *)
theory Sha256
  imports Prelude
begin

text \<open>
  The class \<^verbatim>\<open>Sha256\<close> of \<^verbatim>\<open>worker.cpp\<close>: an incremental hash with a 64-byte buffer.
  The state keeps the part \<^verbatim>\<open>buf_[0 .. buf_len_)\<close> of the buffer, the only part that is read.
  Against it stands the hash function of FIPS 180-4, written from the standard's formulas
  (message schedule by recursion, padding of the whole message, fold over the blocks). The lemmas
  show that the schedule array and the round loop compute the standard's compression function, and
  that any way of cutting the input into \<^verbatim>\<open>update\<close> calls gives the standard's digest.
\<close>

section \<open>The code\<close>

record sha256 =
  sh_h :: "u32 list"
  sh_bits :: u64
  sh_buf :: bytes

definition sha_init :: "u32 list" where
  "sha_init = [0x6a09e667, 0xbb67ae85, 0x3c6ef372, 0xa54ff53a,
               0x510e527f, 0x9b05688c, 0x1f83d9ab, 0x5be0cd19]"

definition sha_reset :: sha256 where
  "sha_reset = \<lparr>sh_h = sha_init, sh_bits = 0, sh_buf = []\<rparr>"

definition rotr :: "u32 \<Rightarrow> nat \<Rightarrow> u32" where
  "rotr x n = drop_bit n x OR push_bit (32 - n) x"

definition byte_u32 :: "u8 \<Rightarrow> u32" where
  "byte_u32 b = ucast b"

definition load_be :: "bytes \<Rightarrow> u32" where
  "load_be p = push_bit 24 (byte_u32 (p ! 0)) OR push_bit 16 (byte_u32 (p ! 1)) OR
               push_bit 8 (byte_u32 (p ! 2)) OR byte_u32 (p ! 3)"

definition sha_K :: "u32 list" where
  "sha_K = concat [
    [0x428a2f98, 0x71374491, 0xb5c0fbcf, 0xe9b5dba5, 0x3956c25b],
    [0x59f111f1, 0x923f82a4, 0xab1c5ed5, 0xd807aa98, 0x12835b01],
    [0x243185be, 0x550c7dc3, 0x72be5d74, 0x80deb1fe, 0x9bdc06a7],
    [0xc19bf174, 0xe49b69c1, 0xefbe4786, 0x0fc19dc6, 0x240ca1cc],
    [0x2de92c6f, 0x4a7484aa, 0x5cb0a9dc, 0x76f988da, 0x983e5152],
    [0xa831c66d, 0xb00327c8, 0xbf597fc7, 0xc6e00bf3, 0xd5a79147],
    [0x06ca6351, 0x14292967, 0x27b70a85, 0x2e1b2138, 0x4d2c6dfc],
    [0x53380d13, 0x650a7354, 0x766a0abb, 0x81c2c92e, 0x92722c85],
    [0xa2bfe8a1, 0xa81a664b, 0xc24b8b70, 0xc76c51a3, 0xd192e819],
    [0xd6990624, 0xf40e3585, 0x106aa070, 0x19a4c116, 0x1e376c08],
    [0x2748774c, 0x34b0bcb5, 0x391c0cb3, 0x4ed8aa4a, 0x5b9cca4f],
    [0x682e6ff3, 0x748f82ee, 0x78a5636f, 0x84c87814, 0x8cc70208],
    [0x90befffa, 0xa4506ceb, 0xbef9a3f7, 0xc67178f2]]"

text \<open>The two loops that fill \<^verbatim>\<open>w[64]\<close>; the array grows by the element each iteration writes.\<close>

definition schedule_step :: "u32 list \<Rightarrow> nat \<Rightarrow> u32 list" where
  "schedule_step w i =
     (let s0 = rotr (w ! (i - 15)) 7 XOR rotr (w ! (i - 15)) 18 XOR drop_bit 3 (w ! (i - 15));
          s1 = rotr (w ! (i - 2)) 17 XOR rotr (w ! (i - 2)) 19 XOR drop_bit 10 (w ! (i - 2))
      in w @ [w ! (i - 16) + s0 + w ! (i - 7) + s1])"

definition sha_schedule :: "bytes \<Rightarrow> u32 list" where
  "sha_schedule block =
     foldl schedule_step (map (\<lambda>i. load_be (drop (i * 4) block)) [0..<16]) [16..<64]"

type_synonym working = "u32 \<times> u32 \<times> u32 \<times> u32 \<times> u32 \<times> u32 \<times> u32 \<times> u32"

definition sha_round :: "u32 list \<Rightarrow> working \<Rightarrow> nat \<Rightarrow> working" where
  "sha_round w s i =
     (case s of (a, b, c, d, e, f, g, h) \<Rightarrow>
        let S1 = rotr e 6 XOR rotr e 11 XOR rotr e 25;
            ch = (e AND f) XOR (NOT e AND g);
            temp1 = h + S1 + ch + sha_K ! i + w ! i;
            S0 = rotr a 2 XOR rotr a 13 XOR rotr a 22;
            maj = (a AND b) XOR (a AND c) XOR (b AND c);
            temp2 = S0 + maj
        in (temp1 + temp2, a, b, c, d + temp1, e, f, g))"

definition sha_transform :: "u32 list \<Rightarrow> bytes \<Rightarrow> u32 list" where
  "sha_transform hs block =
     (let w = sha_schedule block in
      case foldl (sha_round w)
             (hs ! 0, hs ! 1, hs ! 2, hs ! 3, hs ! 4, hs ! 5, hs ! 6, hs ! 7) [0..<64] of
        (a, b, c, d, e, f, g, h) \<Rightarrow>
          [hs ! 0 + a, hs ! 1 + b, hs ! 2 + c, hs ! 3 + d,
           hs ! 4 + e, hs ! 5 + f, hs ! 6 + g, hs ! 7 + h])"

text \<open>
  The loop of \<^verbatim>\<open>update_raw\<close>, which \<^verbatim>\<open>update\<close> repeats. With a full buffer \<^verbatim>\<open>room\<close> would
  be 0 and the C++ loop would not advance; the buffer is emptied whenever it fills up, so this does
  not occur (\<open>sha_wf\<close> below), and the model stops there.
\<close>

function sha_absorb :: "sha256 \<Rightarrow> bytes \<Rightarrow> sha256" where
  "sha_absorb s data =
     (if data = [] \<or> 64 \<le> length (sh_buf s) then s
      else
        let room = 64 - length (sh_buf s);
            n = (if length data < room then length data else room);
            buf = sh_buf s @ take n data;
            s' = (if length buf = 64
                  then s\<lparr>sh_h := sha_transform (sh_h s) buf, sh_buf := []\<rparr>
                  else s\<lparr>sh_buf := buf\<rparr>)
        in sha_absorb s' (drop n data))"
  by pat_completeness auto
termination
  by (relation "measure (\<lambda>(_, data). length data)") (auto split: if_splits)

declare sha_absorb.simps [simp del]

definition sha_update :: "sha256 \<Rightarrow> bytes \<Rightarrow> sha256" where
  "sha_update s data = sha_absorb (s\<lparr>sh_bits := sh_bits s + word_of_nat (length data) * 8\<rparr>) data"

definition sha_update_raw :: "sha256 \<Rightarrow> bytes \<Rightarrow> sha256" where
  "sha_update_raw s data = sha_absorb s data"

text \<open>\<^verbatim>\<open>while (buf_len_ != 56) update_raw(&zero, 1)\<close>.\<close>

definition pad_gap :: "nat \<Rightarrow> nat" where
  "pad_gap n = (if n \<le> 56 then 56 - n else 120 - n)"

lemma sha_absorb_byte:
  "length (sh_buf s) < 64 \<Longrightarrow> sha_absorb s [b] =
     (if length (sh_buf s) = 63
      then s\<lparr>sh_h := sha_transform (sh_h s) (sh_buf s @ [b]), sh_buf := []\<rparr>
      else s\<lparr>sh_buf := sh_buf s @ [b]\<rparr>)"
  by (auto simp: sha_absorb.simps [of s "[b]"] sha_absorb.simps [of _ "[]"] Let_def)

function sha_pad_zeros :: "sha256 \<Rightarrow> sha256" where
  "sha_pad_zeros s =
     (if length (sh_buf s) = 56 \<or> 64 \<le> length (sh_buf s) then s
      else sha_pad_zeros (sha_update_raw s [0]))"
  by pat_completeness auto
termination
  by (relation "measure (\<lambda>s. pad_gap (length (sh_buf s)))")
    (auto simp: sha_update_raw_def sha_absorb_byte pad_gap_def)

declare sha_pad_zeros.simps [simp del]

definition length_bytes :: "u64 \<Rightarrow> bytes" where
  "length_bytes bit_len = map (\<lambda>i. ucast (drop_bit (8 * (7 - i)) bit_len AND 0xff)) [0..<8]"

definition digest_bytes :: "u32 list \<Rightarrow> bytes" where
  "digest_bytes hs = concat (map (\<lambda>i.
     [ucast (drop_bit 24 (hs ! i) AND 0xff), ucast (drop_bit 16 (hs ! i) AND 0xff),
      ucast (drop_bit 8 (hs ! i) AND 0xff), ucast (hs ! i AND 0xff)]) [0..<8])"

definition sha_final :: "sha256 \<Rightarrow> bytes" where
  "sha_final s =
     (let bit_len = sh_bits s;
          s = sha_update_raw s [0x80];
          s = sha_pad_zeros s;
          s = sha_update_raw s (length_bytes bit_len)
      in digest_bytes (sh_h s))"

definition hex_digit :: "u8 \<Rightarrow> char" where
  "hex_digit d = ''0123456789abcdef'' ! unat d"

definition to_hex :: "bytes \<Rightarrow> string" where
  "to_hex dig = concat (map (\<lambda>b. [hex_digit (drop_bit 4 b), hex_digit (b AND 0xf)]) dig)"

definition hex_of :: "bytes \<Rightarrow> string" where
  "hex_of data = to_hex (sha_final (sha_update sha_reset data))"

section \<open>The standard\<close>

text \<open>FIPS 180-4, sections 4.1.2, 5.1.1 and 6.2.2, on bytes.\<close>

definition fips_Sig0 :: "u32 \<Rightarrow> u32" where
  "fips_Sig0 x = word_rotr 2 x XOR word_rotr 13 x XOR word_rotr 22 x"

definition fips_Sig1 :: "u32 \<Rightarrow> u32" where
  "fips_Sig1 x = word_rotr 6 x XOR word_rotr 11 x XOR word_rotr 25 x"

definition fips_sig0 :: "u32 \<Rightarrow> u32" where
  "fips_sig0 x = word_rotr 7 x XOR word_rotr 18 x XOR drop_bit 3 x"

definition fips_sig1 :: "u32 \<Rightarrow> u32" where
  "fips_sig1 x = word_rotr 17 x XOR word_rotr 19 x XOR drop_bit 10 x"

definition fips_Ch :: "u32 \<Rightarrow> u32 \<Rightarrow> u32 \<Rightarrow> u32" where
  "fips_Ch x y z = (x AND y) XOR (NOT x AND z)"

definition fips_Maj :: "u32 \<Rightarrow> u32 \<Rightarrow> u32 \<Rightarrow> u32" where
  "fips_Maj x y z = (x AND y) XOR (x AND z) XOR (y AND z)"

definition fips_word :: "bytes \<Rightarrow> u32" where
  "fips_word bs = foldl (\<lambda>v b. v * 256 + ucast b) 0 bs"

fun fips_W :: "bytes \<Rightarrow> nat \<Rightarrow> u32" where
  "fips_W M t =
     (if t < 16 then fips_word (take 4 (drop (4 * t) M))
      else fips_sig1 (fips_W M (t - 2)) + fips_W M (t - 7) +
           fips_sig0 (fips_W M (t - 15)) + fips_W M (t - 16))"

declare fips_W.simps [simp del]

fun fips_vars :: "bytes \<Rightarrow> working \<Rightarrow> nat \<Rightarrow> working" where
  "fips_vars M s 0 = s"
| "fips_vars M s (Suc t) =
     (case fips_vars M s t of (a, b, c, d, e, f, g, h) \<Rightarrow>
        let T1 = h + fips_Sig1 e + fips_Ch e f g + sha_K ! t + fips_W M t;
            T2 = fips_Sig0 a + fips_Maj a b c
        in (T1 + T2, a, b, c, d + T1, e, f, g))"

definition fips_compress :: "u32 list \<Rightarrow> bytes \<Rightarrow> u32 list" where
  "fips_compress H M =
     (case fips_vars M (H ! 0, H ! 1, H ! 2, H ! 3, H ! 4, H ! 5, H ! 6, H ! 7) 64 of
        (a, b, c, d, e, f, g, h) \<Rightarrow>
          [a + H ! 0, b + H ! 1, c + H ! 2, d + H ! 3, e + H ! 4, f + H ! 5, g + H ! 6, h + H ! 7])"

text \<open>Padding: the byte \<open>0x80\<close>, zeros up to 56 modulo 64, the length in bits as 64 bits.\<close>

definition fips_pad :: "bytes \<Rightarrow> bytes" where
  "fips_pad msg =
     msg @ [0x80] @ replicate (pad_gap (Suc (length msg) mod 64)) 0 @
     length_bytes (word_of_nat (8 * length msg))"

function blocks64 :: "bytes \<Rightarrow> bytes list" where
  "blocks64 xs = (if xs = [] then [] else take 64 xs # blocks64 (drop 64 xs))"
  by pat_completeness auto
termination
  by (relation "measure length") auto

declare blocks64.simps [simp del]

definition fips_sha256 :: "bytes \<Rightarrow> bytes" where
  "fips_sha256 msg = digest_bytes (foldl fips_compress sha_init (blocks64 (fips_pad msg)))"

section \<open>The compression function\<close>

lemma rotr_eq:
  assumes "0 < n" and "n < 32"
  shows "rotr x n = word_rotr n x"
  unfolding rotr_def
proof (rule bit_word_eqI)
  fix m assume m: "m < LENGTH(32)"
  show "bit (drop_bit n x OR push_bit (32 - n) x) m = bit (word_rotr n x) m"
  proof (cases "m + n < 32")
    case True
    with m show ?thesis
      by (auto simp: bit_simps bit_word_rotr_iff add.commute)
  next
    case False
    then have "(m + n) mod 32 = m - (32 - n)" using m assms by (simp add: mod_if)
    moreover have "\<not> bit x (n + m)" using False by (auto dest: bit_imp_le_length)
    ultimately show ?thesis
      using m False assms by (auto simp: bit_simps bit_word_rotr_iff)
  qed
qed

lemma horner_or: "v * 256 + ucast (b :: u8) = push_bit 8 v OR (ucast b :: u32)"
proof -
  have "push_bit 8 v AND (ucast b :: u32) = 0"
    by (intro bit_word_eqI) (auto simp: bit_simps dest: bit_imp_le_length)
  then have "push_bit 8 v + (ucast b :: u32) = push_bit 8 v OR ucast b"
    by (rule disjunctive_add_eq_or)
  then show ?thesis by (simp add: push_bit_eq_mult)
qed

lemma load_be_eq:
  assumes "length p \<ge> 4"
  shows "load_be p = fips_word (take 4 p)"
proof -
  obtain b0 b1 b2 b3 r where p: "p = b0 # b1 # b2 # b3 # r"
    using assms by (auto simp: numeral_eq_Suc Suc_le_length_iff)
  have "take 4 p = [b0, b1, b2, b3]" "p ! 0 = b0" "p ! 1 = b1" "p ! 2 = b2" "p ! 3 = b3"
    by (simp_all add: p numeral_eq_Suc)
  moreover have "push_bit 8 (push_bit 8 (push_bit 8 (push_bit 8 0 OR x) OR y) OR z) OR t =
      push_bit 24 x OR push_bit 16 y OR push_bit 8 z OR t" for x y z t :: u32
    by (intro bit_word_eqI) (auto simp: bit_simps)
  ultimately show ?thesis
    by (simp only: load_be_def byte_u32_def fips_word_def horner_or list.simps foldl.simps)
qed

lemma schedule_step_eq:
  assumes "w = map (fips_W M) [0..<i]" and "16 \<le> i"
  shows "schedule_step w i = map (fips_W M) [0..<Suc i]"
proof -
  have nth: "w ! (i - k) = fips_W M (i - k)" if "0 < k" "k \<le> 16" for k
    using that assms by simp
  have "fips_W M i = w ! (i - 16) + fips_sig0 (w ! (i - 15)) + w ! (i - 7) + fips_sig1 (w ! (i - 2))"
    using assms(2) by (subst fips_W.simps) (simp add: nth algebra_simps)
  then show ?thesis
    using assms
    by (simp add: schedule_step_def Let_def rotr_eq fips_sig0_def fips_sig1_def)
qed

lemma foldl_schedule:
  "16 \<le> i \<Longrightarrow> foldl schedule_step (map (fips_W M) [0..<i]) [i..<i + n] = map (fips_W M) [0..<i + n]"
proof (induction n)
  case 0
  then show ?case by simp
next
  case (Suc n)
  then show ?case by (simp add: schedule_step_eq [where M = M])
qed

lemma sha_schedule_eq:
  assumes "length M = 64"
  shows "sha_schedule M = map (fips_W M) [0..<64]"
proof -
  have "map (\<lambda>i. load_be (drop (i * 4) M)) [0..<16] = map (fips_W M) [0..<16]"
  proof (rule map_cong [OF refl])
    fix i :: nat assume "i \<in> set [0..<16]"
    then show "load_be (drop (i * 4) M) = fips_W M i"
      using assms by (subst fips_W.simps) (simp add: load_be_eq mult.commute)
  qed
  moreover have "foldl schedule_step (map (fips_W M) [0..<16]) [16..<64] = map (fips_W M) [0..<64]"
    using foldl_schedule [of 16 M 48] by (simp del: upt_rec_numeral)
  ultimately show ?thesis by (simp only: sha_schedule_def)
qed

lemma sha_rounds_eq:
  assumes "length M = 64" and "n \<le> 64"
  shows "foldl (sha_round (sha_schedule M)) s [0..<n] = fips_vars M s n"
  using assms(2)
proof (induction n)
  case 0
  then show ?case by simp
next
  case (Suc n)
  then have "sha_schedule M ! n = fips_W M n"
    using sha_schedule_eq [OF assms(1)] by simp
  with Suc show ?case
    by (simp add: sha_round_def Let_def rotr_eq fips_Sig0_def fips_Sig1_def fips_Ch_def
        fips_Maj_def split: prod.split)
qed

lemma sha_transform_eq: "length M = 64 \<Longrightarrow> sha_transform H M = fips_compress H M"
  by (simp add: sha_transform_def fips_compress_def sha_rounds_eq Let_def add.commute
      split: prod.split)

section \<open>The buffer\<close>

text \<open>One byte at a time: the meaning of \<^verbatim>\<open>update\<close> that does not depend on how the bytes are cut
  into calls.\<close>

definition sha_wf :: "sha256 \<Rightarrow> bool" where
  "sha_wf s \<longleftrightarrow> length (sh_buf s) < 64"

definition absorb1 :: "sha256 \<Rightarrow> u8 \<Rightarrow> sha256" where
  "absorb1 s b =
     (if length (sh_buf s) = 63
      then s\<lparr>sh_h := sha_transform (sh_h s) (sh_buf s @ [b]), sh_buf := []\<rparr>
      else s\<lparr>sh_buf := sh_buf s @ [b]\<rparr>)"

lemma absorb1_wf [simp]: "sha_wf s \<Longrightarrow> sha_wf (absorb1 s b)"
  by (auto simp: sha_wf_def absorb1_def)

lemma foldl_absorb1_wf [simp]: "sha_wf s \<Longrightarrow> sha_wf (foldl absorb1 s xs)"
  by (induction xs arbitrary: s) auto

lemma foldl_absorb1_part:
  "length (sh_buf s) + length xs < 64 \<Longrightarrow> foldl absorb1 s xs = s\<lparr>sh_buf := sh_buf s @ xs\<rparr>"
  by (induction xs arbitrary: s) (auto simp: absorb1_def)

lemma foldl_absorb1_full:
  assumes "length (sh_buf s) + length xs = 64" and "xs \<noteq> []"
  shows "foldl absorb1 s xs = s\<lparr>sh_h := sha_transform (sh_h s) (sh_buf s @ xs), sh_buf := []\<rparr>"
proof -
  obtain ys b where xs: "xs = ys @ [b]" using assms(2) by (cases xs rule: rev_cases) auto
  with assms(1) have "foldl absorb1 s ys = s\<lparr>sh_buf := sh_buf s @ ys\<rparr>"
    by (intro foldl_absorb1_part) simp
  with assms(1) xs show ?thesis by (simp add: absorb1_def)
qed

lemma sha_absorb_eq: "sha_wf s \<Longrightarrow> sha_absorb s data = foldl absorb1 s data"
proof (induction s data rule: sha_absorb.induct)
  case (1 s data)
  show ?case
  proof (cases "data = []")
    case True
    then show ?thesis by (simp add: sha_absorb.simps)
  next
    case False
    let ?n = "if length data < 64 - length (sh_buf s) then length data else 64 - length (sh_buf s)"
    let ?buf = "sh_buf s @ take ?n data"
    let ?s = "if length ?buf = 64 then s\<lparr>sh_h := sha_transform (sh_h s) ?buf, sh_buf := []\<rparr>
              else s\<lparr>sh_buf := ?buf\<rparr>"
    have wf: "length (sh_buf s) < 64" using "1.prems" by (simp add: sha_wf_def)
    have part: "?s = foldl absorb1 s (take ?n data)"
    proof (cases "length ?buf = 64")
      case True
      with wf have "take ?n data \<noteq> []" by auto
      with True foldl_absorb1_full [of s "take ?n data"] show ?thesis by simp
    next
      case False
      with wf have "length (sh_buf s) + length (take ?n data) < 64" by (auto split: if_splits)
      with False foldl_absorb1_part [of s "take ?n data"] show ?thesis by simp
    qed
    then have "sha_wf ?s" using "1.prems" by simp
    then have "sha_absorb ?s (drop ?n data) = foldl absorb1 ?s (drop ?n data)"
      using "1.IH" False wf by simp
    moreover have "sha_absorb s data = sha_absorb ?s (drop ?n data)"
      using False wf by (subst sha_absorb.simps) (simp add: Let_def)
    ultimately show ?thesis
      unfolding part by (metis append_take_drop_id foldl_append)
  qed
qed

lemma absorb1_bits [simp]: "sh_bits (foldl absorb1 s xs) = sh_bits s"
  by (induction xs arbitrary: s) (auto simp: absorb1_def)

lemma absorb1_set_bits:
  "foldl absorb1 (s\<lparr>sh_bits := n\<rparr>) xs = (foldl absorb1 s xs)\<lparr>sh_bits := n\<rparr>"
proof (induction xs arbitrary: s)
  case Nil
  then show ?case by simp
next
  case (Cons b xs)
  have "absorb1 (s\<lparr>sh_bits := n\<rparr>) b = (absorb1 s b)\<lparr>sh_bits := n\<rparr>"
    by (simp add: absorb1_def)
  with Cons show ?case by simp
qed

lemma absorb1_buf_length:
  "sha_wf s \<Longrightarrow> length (sh_buf (foldl absorb1 s xs)) = (length (sh_buf s) + length xs) mod 64"
proof (induction xs arbitrary: s)
  case Nil
  then show ?case by (simp add: sha_wf_def)
next
  case (Cons b xs)
  then have "length (sh_buf (foldl absorb1 (absorb1 s b) xs)) =
      (length (sh_buf (absorb1 s b)) + length xs) mod 64"
    by (intro Cons.IH) simp
  also have "\<dots> = (Suc (length (sh_buf s)) + length xs) mod 64"
    by (auto simp: absorb1_def mod_simps)
  finally show ?case by simp
qed

section \<open>Update and final\<close>

lemma sha_wf_bits [simp]: "sha_wf (s\<lparr>sh_bits := n\<rparr>) = sha_wf s"
  by (simp add: sha_wf_def)

lemma sha_update_eq:
  "sha_wf s \<Longrightarrow> sha_update s data =
     (foldl absorb1 s data)\<lparr>sh_bits := sh_bits s + word_of_nat (length data) * 8\<rparr>"
  by (simp add: sha_update_def sha_absorb_eq absorb1_set_bits)

lemma sha_update_wf [simp]: "sha_wf s \<Longrightarrow> sha_wf (sha_update s data)"
  by (simp add: sha_update_eq)

text \<open>Two updates are one update with the bytes joined: the hash sees a stream.\<close>

lemma sha_update_append:
  "sha_wf s \<Longrightarrow> sha_update (sha_update s xs) ys = sha_update s (xs @ ys)"
  by (simp add: sha_update_eq absorb1_set_bits algebra_simps)

lemma sha_update_Nil: "sha_wf s \<Longrightarrow> sha_update s [] = s"
  by (simp add: sha_update_eq)

lemma sha_reset_fields [simp]:
  "sh_h sha_reset = sha_init" "sh_bits sha_reset = 0" "sh_buf sha_reset = []"
  by (simp_all add: sha_reset_def)

lemma sha_reset_wf [simp]: "sha_wf sha_reset"
  by (simp add: sha_wf_def)

lemma sha_pad_zeros_eq:
  "sha_wf s \<Longrightarrow> sha_pad_zeros s = foldl absorb1 s (replicate (pad_gap (length (sh_buf s))) 0)"
proof (induction s rule: sha_pad_zeros.induct)
  case (1 s)
  show ?case
  proof (cases "length (sh_buf s) = 56")
    case True
    then show ?thesis by (subst sha_pad_zeros.simps) (simp add: pad_gap_def)
  next
    case False
    have wf: "length (sh_buf s) < 64" using "1.prems" by (simp add: sha_wf_def)
    have step: "sha_update_raw s [0] = absorb1 s 0"
      using "1.prems" by (simp add: sha_update_raw_def sha_absorb_eq)
    have "pad_gap (length (sh_buf s)) = Suc (pad_gap (length (sh_buf (absorb1 s 0))))"
      using False wf by (auto simp: absorb1_def pad_gap_def)
    moreover have "sha_pad_zeros s = sha_pad_zeros (absorb1 s 0)"
      using False wf step by (subst sha_pad_zeros.simps) simp
    ultimately show ?thesis
      using "1.IH" "1.prems" False wf step by simp
  qed
qed

lemma sha_final_eq:
  assumes "sha_wf s"
  shows "sha_final s = digest_bytes (sh_h (foldl absorb1 s
    ([0x80] @ replicate (pad_gap (Suc (length (sh_buf s)) mod 64)) 0 @ length_bytes (sh_bits s))))"
proof -
  have raw: "sha_update_raw t data = foldl absorb1 t data" if "sha_wf t" for t data
    using that by (simp add: sha_update_raw_def sha_absorb_eq)
  have "length (sh_buf (absorb1 s 0x80)) = Suc (length (sh_buf s)) mod 64"
    using absorb1_buf_length [OF assms, of "[0x80]"] by simp
  then show ?thesis
    using assms by (simp add: sha_final_def Let_def raw sha_pad_zeros_eq)
qed

lemma foldl_absorb1_blocks:
  "sh_buf s = [] \<Longrightarrow> 64 dvd length xs \<Longrightarrow>
   foldl absorb1 s xs = s\<lparr>sh_h := foldl fips_compress (sh_h s) (blocks64 xs)\<rparr>"
proof (induction xs arbitrary: s rule: blocks64.induct)
  case (1 xs)
  show ?case
  proof (cases "xs = []")
    case True
    then show ?thesis by (simp add: blocks64.simps)
  next
    case False
    with "1.prems"(2) have len: "64 \<le> length xs" by (auto intro: dvd_imp_le)
    then have "foldl absorb1 s (take 64 xs) = s\<lparr>sh_h := fips_compress (sh_h s) (take 64 xs), sh_buf := []\<rparr>"
      using False "1.prems"(1) by (subst foldl_absorb1_full) (auto simp: sha_transform_eq)
    then have "foldl absorb1 s xs =
        foldl absorb1 (s\<lparr>sh_h := fips_compress (sh_h s) (take 64 xs), sh_buf := []\<rparr>) (drop 64 xs)"
      by (metis append_take_drop_id foldl_append)
    also have "\<dots> = s\<lparr>sh_h := foldl fips_compress (fips_compress (sh_h s) (take 64 xs))
        (blocks64 (drop 64 xs)), sh_buf := []\<rparr>"
      using "1.IH" [OF False] "1.prems"(2) len by simp
    finally show ?thesis
      using False "1.prems"(1) by (subst blocks64.simps) simp
  qed
qed

lemma fips_pad_length: "64 dvd length (fips_pad msg)"
proof -
  have "length (fips_pad msg) = Suc (length msg) + pad_gap (Suc (length msg) mod 64) + 8"
    by (simp add: fips_pad_def length_bytes_def)
  also have "64 dvd \<dots>"
  proof -
    have gap: "r + pad_gap r + 8 = (if r \<le> 56 then 64 else 128)" if "r < 64" for r
      using that by (simp add: pad_gap_def)
    have "Suc (length msg) + pad_gap (Suc (length msg) mod 64) + 8 =
        64 * (Suc (length msg) div 64) + (Suc (length msg) mod 64 + pad_gap (Suc (length msg) mod 64) + 8)"
      using mult_div_mod_eq [of 64 "Suc (length msg)"] by linarith
    then show ?thesis by (subst (asm) gap) (auto split: if_splits)
  qed
  finally show ?thesis .
qed

lemma sha_final_update:
  "sha_final (sha_update sha_reset data) = fips_sha256 data"
proof -
  let ?s = "sha_update sha_reset data"
  have upd: "?s = (foldl absorb1 sha_reset data)\<lparr>sh_bits := word_of_nat (8 * length data)\<rparr>"
    by (simp add: sha_update_eq mult.commute)
  have buf: "length (sh_buf ?s) = length data mod 64"
    using absorb1_buf_length [OF sha_reset_wf, of data] by (simp add: upd)
  have bits: "sh_bits ?s = word_of_nat (8 * length data)" by (simp add: upd)
  have "sha_final ?s = digest_bytes (sh_h (foldl absorb1 ?s ([0x80] @
      replicate (pad_gap (Suc (length data) mod 64)) 0 @ length_bytes (word_of_nat (8 * length data)))))"
    by (subst sha_final_eq) (simp_all only: sha_update_wf sha_reset_wf buf bits mod_Suc_eq)
  also have "\<dots> = digest_bytes (sh_h (foldl absorb1 sha_reset (fips_pad data)))"
    unfolding upd absorb1_set_bits fips_pad_def by simp
  also have "\<dots> = fips_sha256 data"
    by (simp add: foldl_absorb1_blocks fips_pad_length fips_sha256_def)
  finally show ?thesis .
qed

lemma foldl_sha_update:
  "sha_wf s \<Longrightarrow> foldl sha_update s (x # xs) = sha_update s (concat (x # xs))"
proof (induction xs arbitrary: x)
  case Nil
  then show ?case by simp
next
  case (Cons y ys)
  then show ?case
    using Cons.IH [of "x @ y"] by (simp add: sha_update_append)
qed

section \<open>Properties\<close>


lemma length_digest [simp]: "length (digest_bytes hs) = 32"
  by (simp add: digest_bytes_def length_concat o_def sum_list_triv)

text \<open>Reading the digest text back.\<close>

definition hex_value :: "char \<Rightarrow> u8" where
  "hex_value c = (if CHR ''a'' \<le> c then word_of_nat (of_char c - 87) else word_of_nat (of_char c - 48))"

fun unhex :: "string \<Rightarrow> bytes" where
  "unhex (a # b # s) = (push_bit 4 (hex_value a) OR hex_value b) # unhex s"
| "unhex s = []"

lemma hex_value_digit:
  assumes "unat d < 16"
  shows "hex_value (hex_digit d) = d"
proof -
  obtain k where d: "d = word_of_nat k" and k: "k < 16"
    by (rule that [of "unat d"]) (simp_all add: assms)
  from k have "k \<in> {0, 1, 2, 3, 4, 5, 6, 7, 8, 9, 10, 11, 12, 13, 14, 15}"
    unfolding insert_iff empty_iff by presburger
  then show ?thesis
    unfolding d by (auto simp: hex_digit_def hex_value_def less_eq_char_def)
qed

lemma nibble_bounds: "unat (drop_bit 4 (b :: u8)) < 16" "unat (b AND 0xf) < 16"
proof -
  show "unat (drop_bit 4 b) < 16"
    using unat_u8_less [of b]
    by (simp add: drop_bit_eq_div unat_div div_less_iff_less_mult)
  have "b AND 0xf = take_bit 4 b" by (simp add: take_bit_eq_mask mask_eq_exp_minus_1)
  then show "unat (b AND 0xf) < 16"
    by (simp add: take_bit_eq_mod unat_mod)
qed

lemma nibbles_join: "push_bit 4 (drop_bit 4 b) OR (b AND 0xf) = (b :: u8)"
proof -
  have "b AND 0xf = take_bit 4 b" by (simp add: take_bit_eq_mask mask_eq_exp_minus_1)
  then show ?thesis
    by (intro bit_word_eqI) (auto simp: bit_simps)
qed

text \<open>The digest text has two hexadecimal characters for each byte, 64 for a digest, and
  determines the bytes: reading the characters back gives them.\<close>

theorem digest_text:
  "unhex (to_hex dig) = dig \<and> length (to_hex dig) = 2 * length dig"
proof (induction dig)
  case Nil
  then show ?case by (simp add: to_hex_def)
next
  case (Cons b dig)
  have "to_hex (b # dig) = hex_digit (drop_bit 4 b) # hex_digit (b AND 0xf) # to_hex dig"
    by (simp add: to_hex_def)
  then show ?case
    using Cons by (simp only: unhex.simps) (simp add: hex_value_digit nibble_bounds nibbles_join)
qed

end
