(* ===== verification/Region.thy ===== *)
theory Region
  imports Prelude Ranges
begin

text \<open>
  The small mapping the controller and its workers share (\<^verbatim>\<open>ChunkResult\<close> and \<^verbatim>\<open>SharedRegion\<close>
  of \<^verbatim>\<open>forge.hpp\<close>), and the two operations of \<^verbatim>\<open>worker.cpp\<close> on it that need no other kernel
  object: storing 1 in the start gate and publishing a chunk. A character array is the string up to
  its terminating NUL.
\<close>

definition kShmMagic :: u32 where "kShmMagic = 0x464F5247"

record chunk_result =
  cr_index :: u32
  cr_ok :: u32
  cr_offset :: u64
  cr_length :: u64
  cr_bytes :: u64
  cr_aux :: u64
  cr_hex :: string
  cr_error :: string

definition empty_chunk :: chunk_result where
  "empty_chunk = \<lparr>cr_index = 0, cr_ok = 0, cr_offset = 0, cr_length = 0, cr_bytes = 0, cr_aux = 0,
     cr_hex = [], cr_error = []\<rparr>"

record shared_region =
  sr_magic :: u32
  sr_nchunks :: u32
  sr_start_gate :: u32
  sr_chunks_done :: u32
  sr_chunks :: "chunk_result list"

text \<open>The region after \<^verbatim>\<open>memset(0)\<close>: \<^verbatim>\<open>kMaxWorkers\<close> empty slots.\<close>

definition zero_region :: shared_region where
  "zero_region = \<lparr>sr_magic = 0, sr_nchunks = 0, sr_start_gate = 0, sr_chunks_done = 0,
     sr_chunks = replicate (nat kMaxWorkers) empty_chunk\<rparr>"

text \<open>The store and the increment of \<^verbatim>\<open>publish_chunk\<close>. An index outside the array would be
  undefined behaviour; \<open>None\<close> stands for it.\<close>

definition region_publish :: "shared_region \<Rightarrow> chunk_result \<Rightarrow> shared_region option" where
  "region_publish r c =
     (if unat (cr_index c) < length (sr_chunks r)
      then Some (r\<lparr>sr_chunks := (sr_chunks r)[unat (cr_index c) := c],
                   sr_chunks_done := sr_chunks_done r + 1\<rparr>)
      else None)"

definition region_open_gate :: "shared_region \<Rightarrow> shared_region" where
  "region_open_gate r = r\<lparr>sr_start_gate := 1\<rparr>"

end
