(* ===== verification/Kernel.thy ===== *)
theory Kernel
  imports Prelude Text_Numbers Region
begin

text \<open>
  The operating system as the program sees it. The kernel is not part of the sources, so it is a
  parameter: a record of functions that give the answer to a call from the history of all calls
  and answers before it. Any behaviour of a kernel is such a function, and a property that needs
  documented behaviour names it as a hypothesis on the record.

  A function of the program takes the kernel and the history and returns its result and the longer
  history; the history is also the trace that properties about durability and ordering read. A
  function with a loop that the kernel can keep running (an endless run of \<^verbatim>\<open>EINTR\<close>) returns an
  option, and \<open>None\<close> means that it does not return.
\<close>

section \<open>Calls, answers, histories\<close>

datatype errno = EINTR | EAGAIN | EWOULDBLOCK | EEXIST | EIO | ENOSYS | ENOTSUP | ECHILD | EACCES
  | ENXIO | ETIMEDOUT | EOTHER nat

datatype oflag = O_RDONLY | O_WRONLY | O_RDWR | O_CREAT | O_TRUNC | O_EXCL | O_APPEND | O_DIRECT
  | O_DIRECTORY | O_NONBLOCK | O_CLOEXEC

datatype file_kind = Regular | Directory | Fifo | OtherKind

record file_stat =
  st_kind :: file_kind
  st_size :: u64
  st_blocks :: u64
  st_btime :: "int option"

type_synonym fd = int

text \<open>A ready \<^verbatim>\<open>kevent\<close> of macOS: its \<^verbatim>\<open>udata\<close>, its \<^verbatim>\<open>ident\<close>, and whether its filter is
  \<^verbatim>\<open>EVFILT_SIGNAL\<close>. An entry of \<^verbatim>\<open>statfs\<close>: where it is mounted, its type, and its device.\<close>

record kevent =
  ev_udata :: u64
  ev_ident :: int
  ev_signal :: bool

record mac_mount =
  f_mntonname :: string
  f_fstypename :: string
  f_mntfromname :: string

text \<open>
  The calls are grouped by the part of the system that answers them: files and directories,
  processes, the shared mapping with its futex and its notifications, the poller, and the
  rest of the environment (clocks, standard output, the environment variables).
\<close>

datatype fs_call =
    Open string "oflag list"
  | Openat fd string "oflag list"
  | Close fd
  | Write fd bytes
  | Pwrite fd bytes nat
  | Read fd nat
  | Pread fd nat nat
  | Ftruncate fd nat
  | Fsync fd
  | Renameat2 fd string string
  | Renameat fd string string
  | Unlinkat fd string
  | Unlink string
  | Mkdir string
  | Mkfifo string
  | Stat string
  | Statx string
  | Flock fd
  | RecordLock fd bool
  | Realpath string
  | Readdir string

datatype proc_call =
    Fork nat
  | Kill int int
  | WaitAny
  | WaitPid int
  | Execve string "string list"
  | ReadProc int string
  | SetRlimit string u64
  | SetPriority int
  | SetAffinity int
  | SchedulerName
  | SetPgid int
  | ResetSignals
  | IgnorePipe
  | Dup2 fd fd
  | ExitProcess int

datatype shm_call =
    MemfdCreate
  | UnmapShared fd
  | MapShared fd
  | EventFd
  | NotifyRead fd
  | NotifyWrite fd
  | LoadRegion fd
  | StoreRegion fd shared_region
  | StoreGate fd
  | StoreSlot fd chunk_result
  | AddDone fd
  | AlignedAlloc nat
  | FutexWait fd
  | FutexWake fd
  | MmapFile fd u64 u64
  | Munmap
  | Advise

datatype poll_call =
    BlockSignals
  | SignalFd
  | EpollCreate
  | EpollAdd fd fd u64
  | EpollDel fd fd
  | EpollWait fd nat
  | TimerFdCreate
  | TimerFdSet fd u64 u64 u64 u64
  | ReadSignal fd
  | ReadTimer fd

datatype env_call =
    ClockRealtime
  | ClockMonotonic
  | Getpid
  | Getcwd
  | Getenv string
  | Usleep nat
  | PageSize
  | CountCpus
  | PrintOut string
  | PrintErr string

text \<open>
  The calls only the macOS implementation makes: one kqueue with its filters, the anonymous shared
  mapping, the pipe, the wait on an address, and what replaces \<^verbatim>\<open>/proc\<close>.
\<close>

datatype mac_call =
    CatchSignal int
  | DefaultSignal int
  | Kqueue
  | KeventAddSignal fd int u64
  | KeventAddRead fd fd u64
  | KeventDelRead fd fd
  | KeventAddTimer fd int bool int u64
  | KeventDelTimer fd int
  | KeventWait fd nat
  | MmapAnon nat
  | UnmapAnon int nat
  | ZeroRegion int shared_region
  | Pipe
  | SetNonblock fd
  | SetCloexec fd
  | NoCache fd
  | SyncWait int u64 "u64 option"
  | SyncWakeAny int
  | AdviseAddress int nat
  | Rusage
  | TaskInfo
  | MountInfo
  | Statfs string
  | HwMemsize
  | ProcBsdInfo int
  | ProcPidPath int

datatype call = Fs fs_call | Proc proc_call | Shm shm_call | Poll poll_call | Env env_call | Mac mac_call

datatype answer =
    Done "errno option"
  | Num "errno + int"
  | Count "errno + nat"
  | Buf "errno + bytes"
  | Str "errno + string"
  | Names "errno + string list"
  | StatOf "errno + file_stat"
  | Child "errno + (int \<times> int \<times> int)"
  | Events "errno + u64 list"
  | Loaded shared_region
  | Ready "errno + kevent list"
  | Two "errno + (int \<times> int)"
  | Mounts "errno + mac_mount list"
  | Mounted "errno + mac_mount"

type_synonym event = "call \<times> answer"
type_synonym hist = "event list"

text \<open>
  The answers, by kind. \<open>None\<close> in \<open>k_done\<close> is success. \<open>k_child\<close> answers \<^verbatim>\<open>waitid\<close> with
  \<^verbatim>\<open>si_pid\<close>, \<^verbatim>\<open>si_code\<close> and \<^verbatim>\<open>si_status\<close>; \<open>k_events\<close> answers \<^verbatim>\<open>epoll_wait\<close> with
  the tokens of the ready descriptors; \<open>k_region\<close> is the shared mapping at the time of a load.
\<close>

record kernel =
  k_done :: "hist \<Rightarrow> call \<Rightarrow> errno option"
  k_num :: "hist \<Rightarrow> call \<Rightarrow> errno + int"
  k_count :: "hist \<Rightarrow> call \<Rightarrow> errno + nat"
  k_buf :: "hist \<Rightarrow> call \<Rightarrow> errno + bytes"
  k_str :: "hist \<Rightarrow> call \<Rightarrow> errno + string"
  k_names :: "hist \<Rightarrow> call \<Rightarrow> errno + string list"
  k_stat :: "hist \<Rightarrow> call \<Rightarrow> errno + file_stat"
  k_child :: "hist \<Rightarrow> call \<Rightarrow> errno + (int \<times> int \<times> int)"
  k_events :: "hist \<Rightarrow> call \<Rightarrow> errno + u64 list"
  k_region :: "hist \<Rightarrow> call \<Rightarrow> shared_region"
  k_strerror :: "errno \<Rightarrow> string"
  k_errno :: "errno \<Rightarrow> nat"

section \<open>System calls\<close>

definition sys_done :: "kernel \<Rightarrow> call \<Rightarrow> hist \<Rightarrow> errno option \<times> hist" where
  "sys_done K c h = (k_done K h c, h @ [(c, Done (k_done K h c))])"

definition sys_num :: "kernel \<Rightarrow> call \<Rightarrow> hist \<Rightarrow> (errno + int) \<times> hist" where
  "sys_num K c h = (k_num K h c, h @ [(c, Num (k_num K h c))])"

definition sys_count :: "kernel \<Rightarrow> call \<Rightarrow> hist \<Rightarrow> (errno + nat) \<times> hist" where
  "sys_count K c h = (k_count K h c, h @ [(c, Count (k_count K h c))])"

definition sys_buf :: "kernel \<Rightarrow> call \<Rightarrow> hist \<Rightarrow> (errno + bytes) \<times> hist" where
  "sys_buf K c h = (k_buf K h c, h @ [(c, Buf (k_buf K h c))])"

definition sys_str :: "kernel \<Rightarrow> call \<Rightarrow> hist \<Rightarrow> (errno + string) \<times> hist" where
  "sys_str K c h = (k_str K h c, h @ [(c, Str (k_str K h c))])"

definition sys_names :: "kernel \<Rightarrow> call \<Rightarrow> hist \<Rightarrow> (errno + string list) \<times> hist" where
  "sys_names K c h = (k_names K h c, h @ [(c, Names (k_names K h c))])"

definition sys_stat :: "kernel \<Rightarrow> call \<Rightarrow> hist \<Rightarrow> (errno + file_stat) \<times> hist" where
  "sys_stat K c h = (k_stat K h c, h @ [(c, StatOf (k_stat K h c))])"

definition sys_child :: "kernel \<Rightarrow> call \<Rightarrow> hist \<Rightarrow> (errno + (int \<times> int \<times> int)) \<times> hist" where
  "sys_child K c h = (k_child K h c, h @ [(c, Child (k_child K h c))])"

definition sys_events :: "kernel \<Rightarrow> call \<Rightarrow> hist \<Rightarrow> (errno + u64 list) \<times> hist" where
  "sys_events K c h = (k_events K h c, h @ [(c, Events (k_events K h c))])"

definition sys_region :: "kernel \<Rightarrow> call \<Rightarrow> hist \<Rightarrow> shared_region \<times> hist" where
  "sys_region K c h = (k_region K h c, h @ [(c, Loaded (k_region K h c))])"

text \<open>A call whose result the code ignores.\<close>

definition sys_do :: "kernel \<Rightarrow> call \<Rightarrow> hist \<Rightarrow> hist" where
  "sys_do K c h = snd (sys_done K c h)"

text \<open>The clocks and \<^verbatim>\<open>getpid\<close> do not fail.\<close>

definition sys_value :: "kernel \<Rightarrow> call \<Rightarrow> hist \<Rightarrow> int \<times> hist" where
  "sys_value K c h = (case sys_num K c h of (Inl _, h') \<Rightarrow> (0, h') | (Inr n, h') \<Rightarrow> (n, h'))"

lemmas sys_defs = sys_done_def sys_num_def sys_count_def sys_buf_def sys_str_def sys_names_def
  sys_stat_def sys_child_def sys_events_def sys_region_def sys_do_def

declare sys_defs [kernel_simps]

definition errno_string :: "kernel \<Rightarrow> errno \<Rightarrow> string" where
  "errno_string K e = k_strerror K e @ '' (errno '' @ dec_nat (k_errno K e) @ '')''"

definition realtime_ms :: "kernel \<Rightarrow> hist \<Rightarrow> int \<times> hist" where
  "realtime_ms K h = sys_value K (Env ClockRealtime) h"

definition mono_ms :: "kernel \<Rightarrow> hist \<Rightarrow> u64 \<times> hist" where
  "mono_ms K h = (case sys_value K (Env ClockMonotonic) h of (n, h') \<Rightarrow> (word_of_int n, h'))"

text \<open>\<^verbatim>\<open>c_str()\<close> hands the kernel the text up to the first NUL.\<close>

definition c_str :: "string \<Rightarrow> string" where
  "c_str s = takeWhile (\<lambda>c. c \<noteq> NUL) s"

lemma c_str_id [simp]: "NUL \<notin> set s \<Longrightarrow> c_str s = s"
  by (auto simp: c_str_def takeWhile_eq_all_conv)

section \<open>Histories only grow\<close>

definition extends :: "hist \<Rightarrow> hist \<Rightarrow> bool" where
  "extends h h' \<longleftrightarrow> (\<exists>es. h' = h @ es)"

lemma extends_refl [simp, intro]: "extends h h"
  by (simp add: extends_def)

lemma extends_append [simp, intro]: "extends h (h @ es)"
  by (simp add: extends_def)

lemma extends_trans [trans]: "extends a b \<Longrightarrow> extends b c \<Longrightarrow> extends a c"
  by (auto simp: extends_def)

lemma extends_appendD: "extends (h @ es) h' \<Longrightarrow> extends h h'"
  by (auto simp: extends_def)

text \<open>Every prefix between two histories: what holds at any moment of a run.\<close>

definition throughout :: "(hist \<Rightarrow> bool) \<Rightarrow> hist \<Rightarrow> hist \<Rightarrow> bool" where
  "throughout P h h' \<longleftrightarrow> extends h h' \<and> (\<forall>m. extends h m \<and> extends m h' \<longrightarrow> P m)"

lemma throughout_refl: "P h \<Longrightarrow> throughout P h h"
  by (auto simp: throughout_def extends_def)

lemma throughout_step: "P h \<Longrightarrow> P (h @ [e]) \<Longrightarrow> throughout P h (h @ [e])"
  by (auto simp: throughout_def extends_def append_eq_append_conv2 Cons_eq_append_conv)

lemma throughout_trans:
  assumes "throughout P h h'" and "throughout P h' h''"
  shows "throughout P h h''"
  unfolding throughout_def
proof (intro conjI allI impI)
  show "extends h h''"
    using assms by (auto simp: throughout_def intro: extends_trans)
next
  fix m assume m: "extends h m \<and> extends m h''"
  obtain a b where "m @ a = h' @ b"
    using m assms(2) by (auto simp: throughout_def extends_def)
  then obtain us where "m = h' @ us \<or> h' = m @ us"
    by (auto simp: append_eq_append_conv2)
  then have "extends m h' \<or> extends h' m"
    by (auto simp: extends_def)
  then show "P m"
    using m assms by (auto simp: throughout_def)
qed

lemma throughout_ends: "throughout P h h' \<Longrightarrow> P h \<and> P h'"
  by (auto simp: throughout_def)

lemma throughout_extends: "throughout P h h' \<Longrightarrow> extends h h'"
  by (simp add: throughout_def)

lemma throughout_mono: "throughout P h h' \<Longrightarrow> (\<And>m. P m \<Longrightarrow> Q m) \<Longrightarrow> throughout Q h h'"
  by (auto simp: throughout_def)

lemma throughout_one [simp]: "throughout P h (h @ [e]) \<longleftrightarrow> P h \<and> P (h @ [e])"
  by (auto dest: throughout_ends intro: throughout_step)

lemma throughout_two [simp]:
  "throughout P h (h @ [e, e']) \<longleftrightarrow> P h \<and> P (h @ [e]) \<and> P (h @ [e, e'])" (is "?l \<longleftrightarrow> ?r")
proof
  show "?l \<Longrightarrow> ?r" by (auto simp: throughout_def extends_def)
next
  assume ?r
  then have "throughout P h (h @ [e])" "throughout P (h @ [e]) ((h @ [e]) @ [e'])"
    by (simp_all del: append_assoc) simp
  from throughout_trans [OF this] show ?l by simp
qed

lemma throughout_same [simp]: "throughout P h h \<longleftrightarrow> P h"
  by (auto dest: throughout_ends intro: throughout_refl)

section \<open>Interrupted calls\<close>

text \<open>How often the last call of a history has been interrupted in a row, and the kernels that
  let a call through after at most \<open>b\<close> interruptions in a row. This is what the termination of
  the retry loops needs; \<^verbatim>\<open>EINTR\<close> happens only when a signal arrives.\<close>

definition is_interrupt :: "call \<Rightarrow> event \<Rightarrow> bool" where
  "is_interrupt c e \<longleftrightarrow> e \<in> {(c, Count (Inl EINTR)), (c, Buf (Inl EINTR)), (c, Done (Some EINTR)),
     (c, Child (Inl EINTR)), (c, Events (Inl EINTR))}"

definition interrupts :: "call \<Rightarrow> hist \<Rightarrow> nat" where
  "interrupts c h = length (takeWhile (is_interrupt c) (rev h))"

definition patient :: "nat \<Rightarrow> kernel \<Rightarrow> bool" where
  "patient b K \<longleftrightarrow> (\<forall>c h. b \<le> interrupts c h \<longrightarrow>
     k_count K h c \<noteq> Inl EINTR \<and> k_buf K h c \<noteq> Inl EINTR \<and> k_done K h c \<noteq> Some EINTR \<and>
     k_child K h c \<noteq> Inl EINTR \<and> k_events K h c \<noteq> Inl EINTR)"

lemma interrupts_snoc [simp]:
  "interrupts c (h @ [e]) = (if is_interrupt c e then Suc (interrupts c h) else 0)"
  by (simp add: interrupts_def)

lemma is_interrupt_simps [simp]:
  "is_interrupt c (c, Count (Inl EINTR))" "is_interrupt c (c, Buf (Inl EINTR))"
  "is_interrupt c (c, Done (Some EINTR))" "is_interrupt c (c, Child (Inl EINTR))"
  "is_interrupt c (c, Events (Inl EINTR))"
  by (simp_all add: is_interrupt_def)

text \<open>Induction over the interruptions of one call: a retry loop may assume that the next attempt,
  after one more interruption, does what is to be shown.\<close>

lemma patient_induct [consumes 1, case_names attempt]:
  assumes "patient b K"
    and "\<And>h. (\<And>e. is_interrupt c e \<Longrightarrow> interrupts c h < b \<Longrightarrow> P (h @ [e])) \<Longrightarrow> P h"
  shows "P h"
proof (induction "b - interrupts c h" arbitrary: h rule: less_induct)
  case less
  show ?case
  proof (rule assms(2))
    fix e assume "is_interrupt c e" "interrupts c h < b"
    then have "b - interrupts c (h @ [e]) < b - interrupts c h" by simp
    then show "P (h @ [e])" by (rule less)
  qed
qed

lemma patient_buf: "patient b K \<Longrightarrow> k_buf K h c = Inl EINTR \<Longrightarrow> interrupts c h < b"
  unfolding patient_def by (meson not_less)

end
