(* ===== verification/Paths.thy ===== *)
theory Paths
  imports Kernel
begin

text \<open>
  The names of things in a workspace: \<^verbatim>\<open>absolute_path\<close>, \<^verbatim>\<open>split_last\<close>,
  \<^verbatim>\<open>resolve_workspace\<close>, \<^verbatim>\<open>job_directory\<close> and \<^verbatim>\<open>control_fifo_path\<close> of
  \<^verbatim>\<open>store.cpp\<close>, and the facts that keep the files of different jobs apart.
\<close>

definition absolute_path :: "kernel \<Rightarrow> string \<Rightarrow> hist \<Rightarrow> string \<times> hist" where
  "absolute_path K path h =
     (if path \<noteq> [] \<and> hd path = CHR ''/'' then (path, h)
      else case sys_str K (Env Getcwd) h of
        (Inl _, h') \<Rightarrow> (path, h')
      | (Inr cwd, h') \<Rightarrow>
          if path = [] \<or> path = ''.'' then (cwd, h') else (cwd @ ''/'' @ path, h'))"

definition split_last :: "string \<Rightarrow> string \<times> string" where
  "split_last path =
     (case split_first (CHR ''/'') (rev path) of
        None \<Rightarrow> (''.'', path)
      | Some (n, d) \<Rightarrow> (if d = [] then ''/'' else rev d, rev n))"

definition resolve_workspace :: "kernel \<Rightarrow> string \<Rightarrow> hist \<Rightarrow> string \<times> hist" where
  "resolve_workspace K flag h =
     (if flag = []
      then case sys_str K (Env (Getenv ''FORGE_WORKSPACE'')) h of
             (Inr env, h') \<Rightarrow> absolute_path K env h'
           | (Inl _, h') \<Rightarrow> absolute_path K ''forge-workspace'' h'
      else absolute_path K flag h)"

definition job_directory :: "string \<Rightarrow> u64 \<Rightarrow> string" where
  "job_directory root jid = root @ ''/jobs/'' @ dec_u64 jid"

definition control_fifo_path :: "string \<Rightarrow> string" where
  "control_fifo_path root = root @ ''/control.fifo''"

lemma split_last_append:
  assumes "CHR ''/'' \<notin> set name"
  shows "split_last (dir @ CHR ''/'' # name) = (if dir = [] then ''/'' else dir, name)"
proof -
  have "split_first (CHR ''/'') (rev name @ CHR ''/'' # rev dir) = Some (rev name, rev dir)"
    using assms by (intro split_first_append) simp
  then show ?thesis by (simp add: split_last_def)
qed

lemma slash_free_dec: "CHR ''/'' \<notin> set (dec_u64 n)"
  by (simp add: dec_u64_def dec_nat_not_in is_digit_of_char)

end
