(* ===== verification/Store.thy ===== *)
theory Store
  imports Paths Meta
begin

text \<open>
  The operations of \<^verbatim>\<open>store.cpp\<close> on the kernel, and the file operations of
  \<^verbatim>\<open>os/linux/platform.cpp\<close> they use. Each one is the sequence of system calls the code makes, in
  its order, with the descriptors closed where the \<^verbatim>\<open>UniqueFd\<close> destructors close them. A
  function with \<^verbatim>\<open>std::string& err\<close> returns \<open>Inl err\<close> on failure; one that retries on
  \<^verbatim>\<open>EINTR\<close> returns an option, \<open>None\<close> when it would retry forever.
\<close>

section \<open>Opening and writing\<close>

definition sys_open :: "kernel \<Rightarrow> string \<Rightarrow> oflag list \<Rightarrow> hist \<Rightarrow> (errno + fd) \<times> hist" where
  "sys_open K path flags h = sys_num K (Fs (Open (c_str path) flags)) h"

definition sys_close :: "kernel \<Rightarrow> fd \<Rightarrow> hist \<Rightarrow> hist" where
  "sys_close K fd h = sys_do K (Fs (Close fd)) h"

partial_function (option) write_all ::
    "kernel \<Rightarrow> fd \<Rightarrow> bytes \<Rightarrow> hist \<Rightarrow> (errno option \<times> hist) option" where
  "write_all K fd p h =
     (if p = [] then Some (None, h)
      else case sys_count K (Fs (Write fd p)) h of
        (Inl e, h') \<Rightarrow> if e = EINTR then write_all K fd p h' else Some (Some e, h')
      | (Inr w, h') \<Rightarrow> if w = 0 then Some (Some EIO, h') else write_all K fd (drop w p) h')"

definition with_newline :: "string \<Rightarrow> string" where
  "with_newline line = (if line = [] \<or> last line \<noteq> NL then line @ [NL] else line)"

definition write_line :: "kernel \<Rightarrow> fd \<Rightarrow> string \<Rightarrow> hist \<Rightarrow> (errno option \<times> hist) option" where
  "write_line K fd line h = write_all K fd (text_bytes (with_newline line)) h"

section \<open>The workspace\<close>

definition is_kind :: "file_kind \<Rightarrow> errno + file_stat \<Rightarrow> bool" where
  "is_kind k r = (case r of Inl _ \<Rightarrow> False | Inr st \<Rightarrow> st_kind st = k)"

definition mkdir_one :: "kernel \<Rightarrow> string \<Rightarrow> hist \<Rightarrow> (string + unit) \<times> hist" where
  "mkdir_one K path h =
     (let (r, h) = sys_done K (Fs (Mkdir (c_str path))) h in
      case r of
        Some e \<Rightarrow>
          if e = EEXIST then
            (let (st, h) = sys_stat K (Fs (Stat (c_str path))) h in
             if is_kind Directory st then (Inr (), h)
             else (Inl (path @ '' exists but is not a directory''), h))
          else (Inl (''mkdir '' @ path @ '': '' @ errno_string K e), h)
      | None \<Rightarrow>
          (let (st, h) = sys_stat K (Fs (Stat (c_str path))) h in
           if is_kind Directory st then (Inr (), h)
           else (Inl (path @ '' exists but is not a directory''), h)))"

definition ensure_workspace :: "kernel \<Rightarrow> string \<Rightarrow> hist \<Rightarrow> (string + unit) \<times> hist" where
  "ensure_workspace K root h =
     (case mkdir_one K root h of
        (Inl err, h) \<Rightarrow> (Inl err, h)
      | (Inr _, h) \<Rightarrow>
     (case mkdir_one K (root @ ''/jobs'') h of
        (Inl err, h) \<Rightarrow> (Inl err, h)
      | (Inr _, h) \<Rightarrow>
     (let fifo = control_fifo_path root;
          (r, h) = sys_done K (Fs (Mkfifo (c_str fifo))) h in
      case r of
        Some e \<Rightarrow>
          if e \<noteq> EEXIST then (Inl (''mkfifo '' @ fifo @ '': '' @ errno_string K e), h)
          else
            (let (st, h) = sys_stat K (Fs (Stat (c_str fifo))) h in
             if is_kind Fifo st then (Inr (), h)
             else (Inl (fifo @ '' is not a FIFO. Remove it and start the controller again.''), h))
      | None \<Rightarrow>
          (let (st, h) = sys_stat K (Fs (Stat (c_str fifo))) h in
           if is_kind Fifo st then (Inr (), h)
           else (Inl (fifo @ '' is not a FIFO. Remove it and start the controller again.''), h)))))"

definition acquire_controller_lock :: "kernel \<Rightarrow> string \<Rightarrow> hist \<Rightarrow> (string + fd) \<times> hist" where
  "acquire_controller_lock K root h =
     (let path = root @ ''/controller.lock'';
          (o1, h) = sys_open K path [O_RDWR, O_CREAT, O_CLOEXEC] h in
      case o1 of
        Inl e \<Rightarrow> (Inl (''open '' @ path @ '': '' @ errno_string K e), h)
      | Inr fd \<Rightarrow>
         (let (r, h) = sys_done K (Fs (Flock fd)) h in
          case r of
            None \<Rightarrow> (Inr fd, h)
          | Some e \<Rightarrow>
              (Inl (if e = EWOULDBLOCK \<or> e = EAGAIN
                    then ''a controller is already running for '' @ root
                    else ''flock '' @ path @ '': '' @ errno_string K e), sys_close K fd h)))"

section \<open>Job ids\<close>

partial_function (option) lock_record ::
    "kernel \<Rightarrow> fd \<Rightarrow> hist \<Rightarrow> (errno option \<times> hist) option" where
  "lock_record K fd h =
     (case sys_done K (Fs (RecordLock fd True)) h of
        (None, h') \<Rightarrow> Some (None, h')
      | (Some e, h') \<Rightarrow> if e = EINTR then lock_record K fd h' else Some (Some e, h'))"

text \<open>The text of \<^verbatim>\<open>next_id\<close> and the id it gives. Trailing newlines and NULs are removed; a
  file that is then empty gives 1, and so does a read that fails or is empty.\<close>

definition next_id_of :: "string \<Rightarrow> string + u64" where
  "next_id_of buf =
     (let txt = strip_back (\<lambda>c. c = NL \<or> c = NUL) buf in
      if txt = [] then Inr 1
      else case parse_u64 txt of
        None \<Rightarrow> Inl (''next_id is corrupt: '' @ txt)
      | Some current \<Rightarrow> Inr (current + 1))"

definition update_next_id :: "kernel \<Rightarrow> fd \<Rightarrow> bytes \<Rightarrow> hist \<Rightarrow> errno option \<times> hist" where
  "update_next_id K fd body h =
     (let (r, h) = sys_done K (Fs (Ftruncate fd 0)) h in
      case r of
        Some e \<Rightarrow> (Some e, h)
      | None \<Rightarrow>
         (let (w, h) = sys_count K (Fs (Pwrite fd body 0)) h in
          case w of
            Inl e \<Rightarrow> (Some e, h)
          | Inr _ \<Rightarrow> sys_done K (Fs (Fsync fd)) h))"

definition allocate_job_id :: "kernel \<Rightarrow> string \<Rightarrow> hist \<Rightarrow> ((string + u64) \<times> hist) option" where
  "allocate_job_id K root h =
     (let (o1, h) = sys_open K (root @ ''/next_id'') [O_RDWR, O_CREAT, O_CLOEXEC] h in
      case o1 of
        Inl e \<Rightarrow> Some (Inl (''open next_id: '' @ errno_string K e), h)
      | Inr fd \<Rightarrow>
         do { (l, h) \<leftarrow> lock_record K fd h;
              case l of
                Some e \<Rightarrow> Some (Inl (''lock next_id: '' @ errno_string K e), sys_close K fd h)
              | None \<Rightarrow>
                 (let (p, h) = sys_buf K (Fs (Pread fd 63 0)) h in
                  case (case p of Inl _ \<Rightarrow> Inr 1
                        | Inr b \<Rightarrow> if b = [] then Inr 1 else next_id_of (bytes_text b)) of
                    Inl err \<Rightarrow> Some (Inl err, sys_close K fd h)
                  | Inr next_id \<Rightarrow>
                     (let (u, h) = update_next_id K fd (text_bytes (dec_u64 next_id @ [NL])) h in
                      case u of
                        Some e \<Rightarrow>
                          Some (Inl (''update next_id: '' @ errno_string K e), sys_close K fd h)
                      | None \<Rightarrow>
                          (let h = sys_do K (Fs (RecordLock fd False)) h in
                           Some (Inr next_id, sys_close K fd h)))) })"

section \<open>Reading and replacing a file\<close>

text \<open>\<^verbatim>\<open>4u << 20\<close>\<close>

definition text_limit :: nat where "text_limit = 4194304"

partial_function (option) read_text_loop ::
    "kernel \<Rightarrow> string \<Rightarrow> fd \<Rightarrow> string \<Rightarrow> hist \<Rightarrow> ((string + string) \<times> hist) option" where
  "read_text_loop K path fd out h =
     (case sys_buf K (Fs (Read fd 8192)) h of
        (Inl e, h') \<Rightarrow>
          if e = EINTR then read_text_loop K path fd out h'
          else Some (Inl (''read '' @ path @ '': '' @ errno_string K e), h')
      | (Inr b, h') \<Rightarrow>
          if b = [] then Some (Inr out, h')
          else if length out + length b > text_limit
          then Some (Inl (path @ '' is larger than 4MB; refusing to load it as text''), h')
          else read_text_loop K path fd (out @ bytes_text b) h')"

definition read_text_file :: "kernel \<Rightarrow> string \<Rightarrow> hist \<Rightarrow> ((string + string) \<times> hist) option" where
  "read_text_file K path h =
     (let (o1, h) = sys_open K path [O_RDONLY, O_CLOEXEC] h in
      case o1 of
        Inl e \<Rightarrow> Some (Inl (''open '' @ path @ '': '' @ errno_string K e), h)
      | Inr fd \<Rightarrow>
         do { (r, h) \<leftarrow> read_text_loop K path fd [] h;
              Some (r, sys_close K fd h) })"

definition replace_at ::
    "kernel \<Rightarrow> fd \<Rightarrow> string \<Rightarrow> string \<Rightarrow> hist \<Rightarrow> (string + unit) \<times> hist" where
  "replace_at K dirfd tmp name h =
     (let (r, h) = sys_done K (Fs (Renameat2 dirfd (c_str tmp) (c_str name))) h in
      case r of
        None \<Rightarrow> (Inr (), h)
      | Some e \<Rightarrow>
          if e = ENOSYS then
            (let (r2, h) = sys_done K (Fs (Renameat dirfd (c_str tmp) (c_str name))) h in
             case r2 of
               None \<Rightarrow> (Inr (), h)
             | Some e2 \<Rightarrow> (Inl (''renameat2 '' @ c_str name @ '': '' @ errno_string K e2), h))
          else (Inl (''renameat2 '' @ c_str name @ '': '' @ errno_string K e), h))"

text \<open>Writing the bytes and making them durable, the condition of the second \<^verbatim>\<open>if\<close> of
  \<^verbatim>\<open>atomic_write_file\<close>.\<close>

definition write_and_sync ::
    "kernel \<Rightarrow> fd \<Rightarrow> bytes \<Rightarrow> hist \<Rightarrow> (errno option \<times> hist) option" where
  "write_and_sync K fd data h =
     do { (w, h) \<leftarrow> write_all K fd data h;
          case w of
            Some e \<Rightarrow> Some (Some e, h)
          | None \<Rightarrow> Some (sys_done K (Fs (Fsync fd)) h) }"

text \<open>The end of \<^verbatim>\<open>atomic_write_file\<close>: move the closed temp file to its name and make the name
  durable.\<close>

definition move_into_place ::
    "kernel \<Rightarrow> fd \<Rightarrow> string \<Rightarrow> string \<Rightarrow> string \<Rightarrow> hist \<Rightarrow> (string + unit) \<times> hist" where
  "move_into_place K dirfd dir tmp name h =
     (case replace_at K dirfd tmp name h of
        (Inl err, h) \<Rightarrow>
          (let h = sys_do K (Fs (Unlinkat dirfd (c_str tmp))) h in (Inl err, sys_close K dirfd h))
      | (Inr _, h) \<Rightarrow>
         (let (s, h) = sys_done K (Fs (Fsync dirfd)) h in
          (case s of
             Some e \<Rightarrow> Inl (''fsync directory '' @ dir @ '': '' @ errno_string K e)
           | None \<Rightarrow> Inr (), sys_close K dirfd h)))"

text \<open>Its middle: fill the temp file, then move it.\<close>

definition fill_and_move ::
    "kernel \<Rightarrow> fd \<Rightarrow> fd \<Rightarrow> string \<Rightarrow> string \<Rightarrow> string \<Rightarrow> bytes \<Rightarrow> hist \<Rightarrow>
     ((string + unit) \<times> hist) option" where
  "fill_and_move K dirfd fd dir tmp name data h =
     do { (w, h) \<leftarrow> write_and_sync K fd data h;
          case w of
            Some e \<Rightarrow>
              (let h = sys_do K (Fs (Unlinkat dirfd (c_str tmp))) h in
               Some (Inl (''write '' @ tmp @ '': '' @ errno_string K e),
                     sys_close K dirfd (sys_close K fd h)))
          | None \<Rightarrow> Some (move_into_place K dirfd dir tmp name (sys_close K fd h)) }"

definition atomic_write_file ::
    "kernel \<Rightarrow> string \<Rightarrow> string \<Rightarrow> hist \<Rightarrow> ((string + unit) \<times> hist) option" where
  "atomic_write_file K path data h =
     (let (dir, name) = split_last path;
          (o1, h) = sys_open K dir [O_RDONLY, O_DIRECTORY, O_CLOEXEC] h in
      case o1 of
        Inl e \<Rightarrow> Some (Inl (''open directory '' @ dir @ '': '' @ errno_string K e), h)
      | Inr dirfd \<Rightarrow>
         (let (pid, h) = sys_value K (Env Getpid) h;
              tmp = name @ ''.tmp.'' @ dec_int pid;
              (o2, h) = sys_num K (Fs (Openat dirfd (c_str tmp)
                                         [O_WRONLY, O_CREAT, O_TRUNC, O_CLOEXEC])) h in
          case o2 of
            Inl e \<Rightarrow> Some (Inl (''open '' @ tmp @ '': '' @ errno_string K e), sys_close K dirfd h)
          | Inr fd \<Rightarrow> fill_and_move K dirfd fd dir tmp name (text_bytes data) h))"

definition publish_file ::
    "kernel \<Rightarrow> fd \<Rightarrow> fd \<Rightarrow> string \<Rightarrow> string \<Rightarrow> hist \<Rightarrow> (string + unit) \<times> hist" where
  "publish_file K dirfd filefd tmp_name final_name h =
     (let (s, h) = sys_done K (Fs (Fsync filefd)) h in
      case s of
        Some e \<Rightarrow> (Inl (''fsync '' @ tmp_name @ '': '' @ errno_string K e), h)
      | None \<Rightarrow>
         (case replace_at K dirfd tmp_name final_name h of
            (Inl err, h) \<Rightarrow> (Inl err, h)
          | (Inr _, h) \<Rightarrow>
             (let (d, h) = sys_done K (Fs (Fsync dirfd)) h in
              (case d of
                 Some e \<Rightarrow> Inl (''fsync job directory: '' @ errno_string K e)
               | None \<Rightarrow> Inr (), h))))"

section \<open>The controller's pid file\<close>

definition write_pid_file :: "kernel \<Rightarrow> string \<Rightarrow> int \<Rightarrow> hist \<Rightarrow> ((string + unit) \<times> hist) option" where
  "write_pid_file K root pid h =
     atomic_write_file K (root @ ''/controller.pid'') (dec_int pid @ [NL]) h"

definition pid_of_text :: "string \<Rightarrow> string + int" where
  "pid_of_text txt =
     (case parse_u64 (strip_back (\<lambda>c. c = NL \<or> c = CR) txt) of
        None \<Rightarrow> Inl ''controller.pid does not contain a pid''
      | Some v \<Rightarrow> if 0x7fffffff < v then Inl ''controller.pid does not contain a pid''
                  else Inr (uint v))"

definition read_pid_file :: "kernel \<Rightarrow> string \<Rightarrow> hist \<Rightarrow> ((string + int) \<times> hist) option" where
  "read_pid_file K root h =
     do { (r, h) \<leftarrow> read_text_file K (root @ ''/controller.pid'') h;
          Some (case r of Inl err \<Rightarrow> Inl err | Inr txt \<Rightarrow> pid_of_text txt, h) }"

definition remove_pid_file :: "kernel \<Rightarrow> string \<Rightarrow> hist \<Rightarrow> hist" where
  "remove_pid_file K root h = sys_do K (Fs (Unlink (c_str (root @ ''/controller.pid'')))) h"

section \<open>Records and logs\<close>

definition save_meta :: "kernel \<Rightarrow> string \<Rightarrow> meta \<Rightarrow> hist \<Rightarrow> ((string + unit) \<times> hist) option" where
  "save_meta K root meta h =
     (let dir = job_directory root (m_id meta);
          (r, h) = sys_done K (Fs (Mkdir (c_str dir))) h in
      case r of
        Some e \<Rightarrow>
          if e \<noteq> EEXIST then Some (Inl (''mkdir '' @ dir @ '': '' @ errno_string K e), h)
          else atomic_write_file K (dir @ ''/meta'') (meta_to_text meta) h
      | None \<Rightarrow> atomic_write_file K (dir @ ''/meta'') (meta_to_text meta) h)"

definition load_meta :: "kernel \<Rightarrow> string \<Rightarrow> u64 \<Rightarrow> hist \<Rightarrow> ((string + meta) \<times> hist) option" where
  "load_meta K root jid h =
     do { (r, h) \<leftarrow> read_text_file K (job_directory root jid @ ''/meta'') h;
          Some (case r of Inl err \<Rightarrow> Inl err | Inr txt \<Rightarrow> text_to_meta txt, h) }"

definition append_job_log ::
    "kernel \<Rightarrow> string \<Rightarrow> u64 \<Rightarrow> string \<Rightarrow> hist \<Rightarrow> ((string + unit) \<times> hist) option" where
  "append_job_log K root jid line h =
     (let (o1, h) = sys_open K (job_directory root jid @ ''/log'')
                      [O_WRONLY, O_CREAT, O_APPEND, O_CLOEXEC] h in
      case o1 of
        Inl e \<Rightarrow> Some (Inl (''open log: '' @ errno_string K e), h)
      | Inr fd \<Rightarrow>
         do { (w, h) \<leftarrow> write_line K fd line h;
              Some (case w of Some e \<Rightarrow> Inl (''write log: '' @ errno_string K e) | None \<Rightarrow> Inr (),
                    sys_close K fd h) })"

definition open_job_log :: "kernel \<Rightarrow> string \<Rightarrow> u64 \<Rightarrow> hist \<Rightarrow> (string + fd) \<times> hist" where
  "open_job_log K root jid h =
     (case sys_open K (job_directory root jid @ ''/log'')
             [O_WRONLY, O_CREAT, O_APPEND, O_CLOEXEC] h of
        (Inl e, h) \<Rightarrow> (Inl (''open log: '' @ errno_string K e), h)
      | (Inr fd, h) \<Rightarrow> (Inr fd, h))"

text \<open>The ids among the names of a directory, without those that start with a dot.\<close>

definition ids_of_names :: "string list \<Rightarrow> u64 list" where
  "ids_of_names names =
     sort (List.map_filter (\<lambda>n. if n \<noteq> [] \<and> hd n = CHR ''.'' then None else parse_u64 n) names)"

definition list_job_ids :: "kernel \<Rightarrow> string \<Rightarrow> hist \<Rightarrow> u64 list \<times> hist" where
  "list_job_ids K root h =
     (case sys_names K (Fs (Readdir (c_str (root @ ''/jobs'')))) h of
        (Inl _, h) \<Rightarrow> ([], h)
      | (Inr names, h) \<Rightarrow> (ids_of_names names, h))"

section \<open>Facts about a file\<close>

record file_info =
  fi_size :: u64
  fi_regular :: bool
  fi_blocks_512 :: u64
  fi_have_btime :: bool
  fi_btime_sec :: int

definition info_of_stat :: "file_stat \<Rightarrow> bool \<Rightarrow> file_info" where
  "info_of_stat st with_btime =
     \<lparr>fi_size = st_size st, fi_regular = (st_kind st = Regular), fi_blocks_512 = st_blocks st,
      fi_have_btime = (with_btime \<and> st_btime st \<noteq> None),
      fi_btime_sec = (case st_btime st of Some t \<Rightarrow> if with_btime then cast_i64 t else 0 | None \<Rightarrow> 0)\<rparr>"

definition inspect_file :: "kernel \<Rightarrow> string \<Rightarrow> hist \<Rightarrow> (string + file_info) \<times> hist" where
  "inspect_file K path h =
     (let (r, h) = sys_stat K (Fs (Statx (c_str path))) h in
      case r of
        Inr st \<Rightarrow> (Inr (info_of_stat st True), h)
      | Inl e \<Rightarrow>
          if e \<noteq> ENOSYS \<and> e \<noteq> ENOTSUP then (Inl (''statx '' @ path @ '': '' @ errno_string K e), h)
          else
            (let (r2, h) = sys_stat K (Fs (Stat (c_str path))) h in
             case r2 of
               Inl e2 \<Rightarrow> (Inl (''stat '' @ path @ '': '' @ errno_string K e2), h)
             | Inr st \<Rightarrow> (Inr (info_of_stat st False), h)))"

section \<open>Retry loops end\<close>

text \<open>On a patient kernel every loop that retries on \<^verbatim>\<open>EINTR\<close> ends, so every operation of the
  store returns.\<close>

declare write_all.simps [code] lock_record.simps [code] read_text_loop.simps [code]

lemma write_all_returns:
  assumes "patient b K"
  shows "returns (write_all K f p h)"
proof (induction "length p" arbitrary: p h rule: less_induct)
  case less
  note shorter = less
  let ?c = "Fs (Write f p)"
  show ?case
  proof (induction "b - interrupts ?c h" arbitrary: h rule: less_induct)
    case less
    show ?case
    proof (cases "p = []")
      case True
      then show ?thesis by (simp add: write_all.simps)
    next
      case False
      show ?thesis
      proof (cases "k_count K h ?c")
        case (Inr n)
        show ?thesis
        proof (cases "n = 0")
          case True
          then show ?thesis using False Inr by (subst write_all.simps) (simp add: sys_defs)
        next
          case n: False
          then have "length (drop n p) < length p" using False by simp
          from shorter [OF this] show ?thesis
            using False n Inr by (subst write_all.simps) (simp add: sys_defs)
        qed
      next
        case (Inl x)
        show ?thesis
        proof (cases "x = EINTR")
          case True
          then have "interrupts ?c h < b"
            using assms Inl unfolding patient_def by (meson not_less)
          then have "b - interrupts ?c (h @ [(?c, Count (Inl EINTR))]) < b - interrupts ?c h" by simp
          from less [OF this] show ?thesis
            using False Inl True by (subst write_all.simps) (simp add: sys_defs)
        next
          case x: False
          then show ?thesis using False Inl by (subst write_all.simps) (simp add: sys_defs)
        qed
      qed
    qed
  qed
qed

lemma lock_record_returns:
  assumes "patient b K"
  shows "returns (lock_record K f h)"
proof (induction "b - interrupts (Fs (RecordLock f True)) h" arbitrary: h rule: less_induct)
  case less
  let ?c = "Fs (RecordLock f True)"
  show ?case
  proof (cases "k_done K h ?c = Some EINTR")
    case True
    then have "interrupts ?c h < b"
      using assms unfolding patient_def by (meson not_less)
    then have "b - interrupts ?c (h @ [(?c, Done (Some EINTR))]) < b - interrupts ?c h" by simp
    from less [OF this] show ?thesis
      using True by (subst lock_record.simps) (simp add: sys_defs)
  next
    case False
    then show ?thesis
      by (subst lock_record.simps) (simp add: sys_defs split: option.split)
  qed
qed

lemma read_text_loop_returns:
  assumes "patient b K" and "length out \<le> text_limit"
  shows "returns (read_text_loop K path f out h)"
  using assms(2)
proof (induction "text_limit - length out" arbitrary: out h rule: less_induct)
  case less
  note longer = less
  let ?c = "Fs (Read f 8192)"
  show ?case
  proof (induction "b - interrupts ?c h" arbitrary: h rule: less_induct)
    case less
    show ?case
    proof (cases "k_buf K h ?c")
      case (Inr d)
      show ?thesis
      proof (cases "d = [] \<or> text_limit < length out + length d")
        case True
        then show ?thesis using Inr by (subst read_text_loop.simps) (auto simp: sys_defs)
      next
        case False
        then have "text_limit - length (out @ bytes_text d) < text_limit - length out"
          "length (out @ bytes_text d) \<le> text_limit"
          using longer(2) by (cases d; simp)+
        from longer(1) [OF this] show ?thesis
          using False Inr by (subst read_text_loop.simps) (auto simp: sys_defs)
      qed
    next
      case (Inl x)
      show ?thesis
      proof (cases "x = EINTR")
        case True
        then have "interrupts ?c h < b"
          using assms Inl unfolding patient_def by (meson not_less)
        then have "b - interrupts ?c (h @ [(?c, Buf (Inl EINTR))]) < b - interrupts ?c h" by simp
        from less [OF this] show ?thesis
          using Inl True by (subst read_text_loop.simps) (simp add: sys_defs)
      next
        case x: False
        then show ?thesis using Inl by (subst read_text_loop.simps) (simp add: sys_defs)
      qed
    qed
  qed
qed

lemma read_text_file_returns: "patient b K \<Longrightarrow> returns (read_text_file K path h)"
proof -
  assume "patient b K"
  then have "returns (read_text_loop K path f [] h)" for f h
    using read_text_loop_returns [of b K "[]" path f h] by auto
  then show ?thesis
    by (auto simp: read_text_file_def split_beta split: sum.split)
qed

lemma write_and_sync_returns: "patient b K \<Longrightarrow> returns (write_and_sync K f p h)"
  using write_all_returns [of b K f p h]
  by (auto simp: write_and_sync_def split: option.split)

lemma fill_and_move_returns: "patient b K \<Longrightarrow> returns (fill_and_move K d f dir tmp name w h)"
  using write_and_sync_returns [of b K f w h]
  by (auto simp: fill_and_move_def Let_def split: option.split)

lemma atomic_write_returns: "patient b K \<Longrightarrow> returns (atomic_write_file K path data h)"
  using fill_and_move_returns [of b K]
  by (simp add: atomic_write_file_def split_beta Let_def split: sum.split)

lemma save_meta_returns: "patient b K \<Longrightarrow> returns (save_meta K root m h)"
  using atomic_write_returns [of b K]
  by (simp add: save_meta_def split_beta Let_def split: option.split)

lemma load_meta_returns: "patient b K \<Longrightarrow> returns (load_meta K root jid h)"
  using read_text_file_returns [of b K "job_directory root jid @ ''/meta''" h]
  by (auto simp: load_meta_def)

lemma append_job_log_returns: "patient b K \<Longrightarrow> returns (append_job_log K root jid line h)"
proof -
  assume "patient b K"
  then have "returns (write_all K f p h)" for f p h
    using write_all_returns [of b K f p h] by auto
  then show ?thesis
    by (auto simp: append_job_log_def write_line_def split_beta split: sum.split)
qed

lemma allocate_job_id_returns: "patient b K \<Longrightarrow> returns (allocate_job_id K root h)"
proof -
  assume "patient b K"
  then have "returns (lock_record K f h)" for f h
    using lock_record_returns [of b K f h] by auto
  then show ?thesis
    by (auto simp: allocate_job_id_def split_beta Let_def 
        intro!: returns_bind split: sum.split option.split)
qed

section \<open>Properties\<close>

text \<open>C21. No operation of the store hangs: on a kernel that interrupts a call at most \<open>b\<close> times in
  a row, saving and loading a record, allocating an id, appending to a log, and writing and reading
  the pid file all return, whatever the calls answer.\<close>

theorem store_operations_return:
  assumes "patient b K"
  shows "returns (save_meta K root m h) \<and> returns (load_meta K root jid h) \<and>
     returns (allocate_job_id K root h) \<and> returns (append_job_log K root jid line h) \<and>
     returns (write_pid_file K root pid h) \<and> returns (read_pid_file K root h)"
  using assms save_meta_returns load_meta_returns allocate_job_id_returns append_job_log_returns
    atomic_write_returns read_text_file_returns
  by (auto simp: write_pid_file_def read_pid_file_def)

definition interrupting_kernel :: kernel where
  "interrupting_kernel = \<lparr>k_done = (\<lambda>h c. if interrupts c h < 2 then Some EINTR else None),
     k_num = (\<lambda>_ _. Inr 0), k_count = (\<lambda>h c. if interrupts c h < 2 then Inl EINTR else Inr 1),
     k_buf = (\<lambda>h c. if interrupts c h < 2 then Inl EINTR else Inr [65]), k_str = (\<lambda>_ _. Inr []),
     k_names = (\<lambda>_ _. Inr []), k_stat = (\<lambda>_ _. Inl EIO), k_child = (\<lambda>_ _. Inl ECHILD),
     k_events = (\<lambda>_ _. Inr []), k_region = (\<lambda>_ _. zero_region), k_strerror = (\<lambda>_. []),
     k_errno = (\<lambda>_. 4)\<rparr>"

theorem store_operations_return_witness:
  "returns (save_meta interrupting_kernel ''/w'' empty_meta []) \<and>
   returns (load_meta interrupting_kernel ''/w'' 1 [])"
  using store_operations_return [of 2 interrupting_kernel "''/w''" empty_meta "[]" 1]
  by (simp add: patient_def interrupting_kernel_def)

end
