(* ===== verification/Unique_Fd.thy ===== *)
theory Unique_Fd
  imports Store "HOL-Library.Multiset"
begin

text \<open>
  The owner of a file descriptor, \<^verbatim>\<open>UniqueFd\<close> of \<^verbatim>\<open>forge.hpp\<close>. An owner is the number it holds, and
  \<open>-1\<close> is empty. The other theories write out what an owner does at the end of its scope; here its own
  operations are modelled, and the books of a program that uses them are shown to balance: no
  descriptor leaks and none is closed twice.
\<close>

section \<open>The operations\<close>

definition uf_valid :: "fd \<Rightarrow> bool" where
  "uf_valid own \<longleftrightarrow> 0 \<le> own"

definition uf_reset :: "kernel \<Rightarrow> fd \<Rightarrow> fd \<Rightarrow> hist \<Rightarrow> fd \<times> hist" where
  "uf_reset K own f h = (f, if 0 \<le> own then sys_close K own h else h)"

definition uf_destroy :: "kernel \<Rightarrow> fd \<Rightarrow> hist \<Rightarrow> hist" where
  "uf_destroy K own h = snd (uf_reset K own (-1) h)"

text \<open>The number that is handed out or over, and what is left in its owner.\<close>

definition uf_release :: "fd \<Rightarrow> fd \<times> fd" where
  "uf_release own = (own, -1)"

definition uf_move :: "fd \<Rightarrow> fd \<times> fd" where
  "uf_move other = (other, -1)"

definition uf_move_assign :: "kernel \<Rightarrow> fd \<Rightarrow> fd \<Rightarrow> hist \<Rightarrow> (fd \<times> fd) \<times> hist" where
  "uf_move_assign K own other h = (case uf_reset K own (-1) h of (_, h) \<Rightarrow> ((other, -1), h))"

text \<open>A move into a new owner is an assignment to an empty one.\<close>

lemma uf_move_assign_empty: "uf_move_assign K (-1) other h = (uf_move other, h)"
  by (simp add: uf_move_assign_def uf_reset_def uf_move_def)

section \<open>Programs over owners\<close>

text \<open>A list of owners, what is done to them by number, and the released numbers. Assignment of an owner
  to itself does nothing (\<^verbatim>\<open>this != &other\<close>).\<close>

datatype uf_call = Adopt nat fd | Assign nat nat | Drop nat | Release nat

type_synonym uf_state = "fd list \<times> fd list \<times> hist"

fun uf_step :: "kernel \<Rightarrow> uf_call \<Rightarrow> uf_state \<Rightarrow> uf_state" where
  "uf_step K (Adopt i f) (owners, out, h) =
     (case uf_reset K (owners ! i) f h of (own, h) \<Rightarrow> (owners[i := own], out, h))"
| "uf_step K (Assign i j) (owners, out, h) =
     (if i = j then (owners, out, h)
      else case uf_move_assign K (owners ! i) (owners ! j) h of
        ((a, b), h) \<Rightarrow> (owners[i := a, j := b], out, h))"
| "uf_step K (Drop i) (owners, out, h) = (owners[i := -1], out, uf_destroy K (owners ! i) h)"
| "uf_step K (Release i) (owners, out, h) =
     (case uf_release (owners ! i) of (f, own) \<Rightarrow> (owners[i := own], f # out, h))"

definition uf_run :: "kernel \<Rightarrow> uf_call list \<Rightarrow> uf_state \<Rightarrow> uf_state" where
  "uf_run K cs s = fold (uf_step K) cs s"

fun in_range :: "nat \<Rightarrow> uf_call \<Rightarrow> bool" where
  "in_range n (Adopt i f) \<longleftrightarrow> i < n"
| "in_range n (Assign i j) \<longleftrightarrow> i < n \<and> j < n"
| "in_range n (Drop i) \<longleftrightarrow> i < n"
| "in_range n (Release i) \<longleftrightarrow> i < n"

section \<open>The books\<close>

definition valid_fds :: "fd list \<Rightarrow> fd multiset" where
  "valid_fds fs = filter_mset uf_valid (mset fs)"

definition closed_fd :: "event \<Rightarrow> fd option" where
  "closed_fd e = (case fst e of Fs (Close f) \<Rightarrow> Some f | _ \<Rightarrow> None)"

definition closed_fds :: "hist \<Rightarrow> fd multiset" where
  "closed_fds h = mset (List.map_filter closed_fd h)"

fun adopted :: "uf_call \<Rightarrow> fd list" where
  "adopted (Adopt i f) = [f]"
| "adopted _ = []"

text \<open>Everything a state accounts for: what is owned, released, and closed.\<close>

definition books :: "uf_state \<Rightarrow> fd multiset" where
  "books s = (case s of (owners, out, h) \<Rightarrow> valid_fds owners + valid_fds out + closed_fds h)"

lemma valid_fds_simps [simp]:
  "valid_fds [] = {#}" "valid_fds (f # fs) = (if uf_valid f then {#f#} else {#}) + valid_fds fs"
  "valid_fds (fs @ gs) = valid_fds fs + valid_fds gs"
  by (simp_all add: valid_fds_def)

lemma valid_fds_update:
  assumes "i < length fs"
  shows "valid_fds (fs[i := f]) + valid_fds [fs ! i] = valid_fds fs + valid_fds [f]"
proof -
  have "valid_fds fs = valid_fds (take i fs @ fs ! i # drop (Suc i) fs)"
    using id_take_nth_drop [OF assms] by simp
  then show ?thesis unfolding upd_conv_take_nth_drop [OF assms] by (simp add: ac_simps)
qed

lemma closed_fds_close [simp]: "closed_fds (sys_close K f h) = add_mset f (closed_fds h)"
  by (simp add: closed_fds_def closed_fd_def sys_close_def kernel_simps List.map_filter_def)

lemma uf_reset_closes:
  "uf_reset K own f h = (g, h') \<Longrightarrow> g = f \<and> closed_fds h' = closed_fds h + valid_fds [own]"
  by (auto simp: uf_reset_def uf_valid_def split: if_splits)

lemma move_books: "A + y = B \<Longrightarrow> B + x = C + y \<Longrightarrow> A + x = (C :: fd multiset)"
  by (metis add.assoc add.commute add_right_cancel)

lemma uf_step_books:
  assumes "in_range (length owners) c" and "uf_step K c (owners, out, h) = (owners', out', h')"
  shows "length owners' = length owners \<and>
     books (owners', out', h') = books (owners, out, h) + valid_fds (adopted c)"
proof (cases c)
  case (Adopt i f)
  obtain g h1 where r: "uf_reset K (owners ! i) f h = (g, h1)" by fastforce
  from uf_reset_closes [OF r] valid_fds_update [of i owners f] assms Adopt r show ?thesis
    by (auto simp: books_def ac_simps)
next
  case (Assign i j)
  show ?thesis
  proof (cases "i = j")
    case False
    let ?os = "owners[i := owners ! j]"
    obtain g h1 where r: "uf_reset K (owners ! i) (-1) h = (g, h1)" by fastforce
    have "valid_fds (?os[j := -1]) + valid_fds [owners ! j] = valid_fds ?os"
      using valid_fds_update [of j ?os "-1"] assms(1) Assign False by (simp add: uf_valid_def)
    moreover have "valid_fds ?os + valid_fds [owners ! i] = valid_fds owners + valid_fds [owners ! j]"
      using valid_fds_update [of i owners] assms(1) Assign by simp
    ultimately have "valid_fds (?os[j := -1]) + valid_fds [owners ! i] = valid_fds owners"
      by (rule move_books)
    with uf_reset_closes [OF r] assms(2) Assign False r show ?thesis
      by (auto simp: books_def uf_move_assign_def ac_simps)
  qed (use assms Assign in simp)
next
  case (Drop i)
  obtain g h1 where r: "uf_reset K (owners ! i) (-1) h = (g, h1)" by fastforce
  from uf_reset_closes [OF r] valid_fds_update [of i owners "-1"] assms Drop r show ?thesis
    by (auto simp: books_def uf_destroy_def uf_valid_def ac_simps)
next
  case (Release i)
  from valid_fds_update [of i owners "-1"] assms Release show ?thesis
    by (auto simp: books_def uf_release_def uf_valid_def ac_simps)
qed

lemma uf_run_books:
  assumes "list_all (in_range (length (fst s))) cs"
  shows "length (fst (uf_run K cs s)) = length (fst s) \<and>
     books (uf_run K cs s) = books s + valid_fds (concat (map adopted cs))"
  using assms
proof (induction cs arbitrary: s)
  case (Cons c cs)
  obtain owners out h where s: "s = (owners, out, h)" by (metis prod.exhaust)
  obtain owners' out' h' where c: "uf_step K c s = (owners', out', h')" by (metis prod.exhaust)
  from Cons uf_step_books [of owners c K out h owners' out' h'] s c show ?case
    by (auto simp: uf_run_def ac_simps)
qed (simp add: uf_run_def)

section \<open>Properties\<close>

text \<open>C24. Whatever a program does with its owners (adopt a new descriptor, assign one owner to another,
  release, destroy), once all owners are empty every valid descriptor that was adopted has been closed or
  released exactly as often as it was adopted: none leaks, and none is closed twice.\<close>

theorem owners_balance:
  assumes "uf_run K cs (replicate n (-1), [], []) = (owners, out, h)"
    and "list_all (in_range n) cs" and "valid_fds owners = {#}"
  shows "closed_fds h + valid_fds out = valid_fds (concat (map adopted cs))"
proof -
  have "valid_fds (replicate n (-1)) = {#}" by (induction n) (simp_all add: uf_valid_def)
  moreover have "closed_fds [] = {#}" by (simp add: closed_fds_def)
  ultimately show ?thesis
    using uf_run_books [of "(replicate n (-1), [], [])" cs K] assms
    by (simp add: books_def add.commute)
qed

text \<open>An owner adopts 5, then 6 (5 is closed), 6 moves to the other owner, which adopts 7 and releases it.\<close>

theorem owners_balance_witness:
  "closed_fds (snd (snd (uf_run interrupting_kernel
      [Adopt 0 5, Adopt 0 6, Assign 1 0, Adopt 1 7, Release 1, Drop 0] (replicate 2 (-1), [], [])))) +
    valid_fds [7] = {#5, 6, 7#}"
proof -
  let ?cs = "[Adopt 0 5, Adopt 0 6, Assign 1 0, Adopt 1 7, Release 1, Drop 0]"
  obtain h where run: "uf_run interrupting_kernel ?cs (replicate 2 (-1), [], []) = ([-1, -1], [7], h)"
    by (simp add: uf_run_def uf_reset_def uf_move_assign_def uf_release_def uf_destroy_def numeral_2_eq_2)
  have "closed_fds h + valid_fds [7] = valid_fds (concat (map adopted ?cs))"
    by (rule owners_balance [OF run]) (simp_all add: uf_valid_def)
  then show ?thesis unfolding run by (simp add: uf_valid_def)
qed

end
