(* ===== verification/Filesystem.thy ===== *)
theory Filesystem
  imports Paths
begin

text \<open>
  An abstract specification of what the calls of a history do to files: the disk a history leaves,
  including what a power loss could leave of it. A directory is the text of its path, a name is a
  pair of a directory and an entry, and an inode is a number. The entries of a directory that are
  still on disk since its last \<^verbatim>\<open>fsync\<close> are kept beside the current one, and an inode is
  durable from an \<^verbatim>\<open>fsync\<close> until its next change. \<open>crash_contents\<close> is what a name can hold after
  a crash: the data of any entry still on disk, any data at all when that inode is not durable.

  The specification has no links and no other process; \<open>faithful\<close> says that a kernel's answers
  agree with the disk of the history, and \<open>ext_kernel\<close> is a concrete kernel that does.
\<close>

type_synonym location = "string \<times> string"

record disk =
  d_dirs :: "fd \<Rightarrow> string option"
  d_files :: "fd \<Rightarrow> nat option"
  d_append :: "fd \<Rightarrow> bool"
  d_pos :: "fd \<Rightarrow> nat"
  d_names :: "location \<Rightarrow> nat option"
  d_older :: "location \<Rightarrow> nat option list"
  d_data :: "nat \<Rightarrow> bytes"
  d_synced :: "nat \<Rightarrow> bool"
  d_next :: nat

definition empty_disk :: disk where
  "empty_disk = \<lparr>d_dirs = (\<lambda>_. None), d_files = (\<lambda>_. None), d_append = (\<lambda>_. False), d_pos = (\<lambda>_. 0),
     d_names = (\<lambda>_. None), d_older = (\<lambda>_. []), d_data = (\<lambda>_. []), d_synced = (\<lambda>_. True), d_next = 0\<rparr>"

section \<open>What each call does\<close>

definition set_data :: "nat \<Rightarrow> bytes \<Rightarrow> disk \<Rightarrow> disk" where
  "set_data i b D = D\<lparr>d_data := (d_data D)(i := b), d_synced := (d_synced D)(i := False)\<rparr>"

definition set_name :: "location \<Rightarrow> nat option \<Rightarrow> disk \<Rightarrow> disk" where
  "set_name l e D = D\<lparr>d_names := (d_names D)(l := e),
     d_older := (d_older D)(l := d_names D l # d_older D l)\<rparr>"

definition bind_fd :: "fd \<Rightarrow> nat \<Rightarrow> bool \<Rightarrow> disk \<Rightarrow> disk" where
  "bind_fd f i app D = D\<lparr>d_dirs := (d_dirs D)(f := None), d_files := (d_files D)(f := Some i), 
     d_append := (d_append D)(f := app), d_pos := (d_pos D)(f := 0)\<rparr>"

definition bind_dir :: "fd \<Rightarrow> string \<Rightarrow> disk \<Rightarrow> disk" where
  "bind_dir f p D = D\<lparr>d_dirs := (d_dirs D)(f := Some p), d_files := (d_files D)(f := None)\<rparr>"

definition open_file :: "fd \<Rightarrow> location \<Rightarrow> oflag list \<Rightarrow> disk \<Rightarrow> disk" where
  "open_file f l fl D =
     (case d_names D l of
        Some i \<Rightarrow> bind_fd f i (O_APPEND \<in> set fl) (if O_TRUNC \<in> set fl then set_data i [] D else D)
      | None \<Rightarrow> bind_fd f (d_next D) (O_APPEND \<in> set fl)
          (set_name l (Some (d_next D)) (set_data (d_next D) [] (D\<lparr>d_next := Suc (d_next D)\<rparr>))))"

definition write_at :: "nat \<Rightarrow> bytes \<Rightarrow> bytes \<Rightarrow> bytes" where
  "write_at pos b data = take pos data @ replicate (pos - length data) 0 @ b @ drop (pos + length b) data"

definition write_fd :: "fd \<Rightarrow> bytes \<Rightarrow> disk \<Rightarrow> disk" where
  "write_fd f b D =
     (case d_files D f of
        None \<Rightarrow> D
      | Some i \<Rightarrow>
          let pos = (if d_append D f then length (d_data D i) else d_pos D f) in
          (set_data i (write_at pos b (d_data D i)) D)\<lparr>d_pos := (d_pos D)(f := pos + length b)\<rparr>)"

definition sync_fd :: "fd \<Rightarrow> disk \<Rightarrow> disk" where
  "sync_fd f D =
     (case d_files D f of
        Some i \<Rightarrow> D\<lparr>d_synced := (d_synced D)(i := True)\<rparr>
      | None \<Rightarrow>
          (case d_dirs D f of
             None \<Rightarrow> D
           | Some d \<Rightarrow> D\<lparr>d_older := (\<lambda>l. if fst l = d then [] else d_older D l)\<rparr>))"

definition rename_in :: "fd \<Rightarrow> string \<Rightarrow> string \<Rightarrow> disk \<Rightarrow> disk" where
  "rename_in f a b D =
     (case d_dirs D f of
        None \<Rightarrow> D
      | Some d \<Rightarrow> if a = b then D else set_name (d, a) None (set_name (d, b) (d_names D (d, a)) D))"

definition close_fd :: "fd \<Rightarrow> disk \<Rightarrow> disk" where
  "close_fd f D = D\<lparr>d_files := (d_files D)(f := None), d_dirs := (d_dirs D)(f := None)\<rparr>"

definition fs_step :: "fs_call \<Rightarrow> answer \<Rightarrow> disk \<Rightarrow> disk" where
  "fs_step c a D =
     (case c of
        Open p fl \<Rightarrow>
          (case a of
             Num (Inr f) \<Rightarrow>
               if O_DIRECTORY \<in> set fl then bind_dir f p D
               else open_file f (split_last p) fl D
           | _ \<Rightarrow> D)
      | Openat d n fl \<Rightarrow>
          (case a of
             Num (Inr f) \<Rightarrow> (case d_dirs D d of None \<Rightarrow> D | Some dir \<Rightarrow> open_file f (dir, n) fl D)
           | _ \<Rightarrow> D)
      | Close f \<Rightarrow> close_fd f D
      | Write f b \<Rightarrow> (case a of Count (Inr n) \<Rightarrow> write_fd f (take n b) D | _ \<Rightarrow> D)
      | Pwrite f b off \<Rightarrow>
          (case (a, d_files D f) of
             (Count (Inr n), Some i) \<Rightarrow> set_data i (write_at off (take n b) (d_data D i)) D
           | _ \<Rightarrow> D)
      | Read f n \<Rightarrow>
          (case a of
             Buf (Inr b) \<Rightarrow> D\<lparr>d_pos := (d_pos D)(f := d_pos D f + length b)\<rparr>
           | _ \<Rightarrow> D)
      | Ftruncate f n \<Rightarrow>
          (case (a, d_files D f) of
             (Done None, Some i) \<Rightarrow>
               set_data i (take n (d_data D i) @ replicate (n - length (d_data D i)) 0) D
           | _ \<Rightarrow> D)
      | Fsync f \<Rightarrow> if a = Done None then sync_fd f D else D
      | Renameat2 f x y \<Rightarrow> if a = Done None then rename_in f x y D else D
      | Renameat f x y \<Rightarrow> if a = Done None then rename_in f x y D else D
      | Unlinkat f x \<Rightarrow>
          (case (a, d_dirs D f) of (Done None, Some d) \<Rightarrow> set_name (d, x) None D | _ \<Rightarrow> D)
      | Unlink p \<Rightarrow> if a = Done None then set_name (split_last p) None D else D
      | _ \<Rightarrow> D)"

definition disk_step :: "event \<Rightarrow> disk \<Rightarrow> disk" where
  "disk_step e D = (case fst e of Fs c \<Rightarrow> fs_step c (snd e) D | _ \<Rightarrow> D)"

definition disk_of :: "disk \<Rightarrow> hist \<Rightarrow> disk" where
  "disk_of D h = fold disk_step h D"

lemma disk_of_Nil [simp]: "disk_of D [] = D"
  by (simp add: disk_of_def)

lemma disk_of_append [simp]: "disk_of D (h @ es) = disk_of (disk_of D h) es"
  by (simp add: disk_of_def)

lemma disk_of_Cons [simp]: "disk_of D (e # es) = disk_of (disk_step e D) es"
  by (simp add: disk_of_def)

section \<open>Reading a name, now and after a crash\<close>

definition contents :: "disk \<Rightarrow> location \<Rightarrow> bytes option" where
  "contents D l = map_option (d_data D) (d_names D l)"

definition crash_entry :: "disk \<Rightarrow> nat option \<Rightarrow> bytes option set" where
  "crash_entry D e =
     (case e of
        None \<Rightarrow> {None}
      | Some i \<Rightarrow> if d_synced D i then {Some (d_data D i)} else {c. c \<noteq> None})"

definition crash_contents :: "disk \<Rightarrow> location \<Rightarrow> bytes option set" where
  "crash_contents D l = (\<Union>e \<in> set (d_names D l # d_older D l). crash_entry D e)"

text \<open>A name is settled when a crash cannot change it.\<close>

definition settled :: "disk \<Rightarrow> location \<Rightarrow> bool" where
  "settled D l \<longleftrightarrow> d_older D l = [] \<and> (case d_names D l of None \<Rightarrow> True | Some i \<Rightarrow> d_synced D i)"

lemma settled_crash_contents: "settled D l \<Longrightarrow> crash_contents D l = {contents D l}"
  by (auto simp: settled_def crash_contents_def crash_entry_def contents_def split: option.splits)

section \<open>Well-formed disks\<close>

text \<open>Two names never share an inode, inodes in use are below the next one, and a descriptor is a
  file or a directory but not both.\<close>

definition disk_ok :: "disk \<Rightarrow> bool" where
  "disk_ok D \<longleftrightarrow>
     (\<forall>l i. d_names D l = Some i \<longrightarrow> i < d_next D) \<and>
     (\<forall>l i. Some i \<in> set (d_older D l) \<longrightarrow> i < d_next D) \<and>
     (\<forall>f i. d_files D f = Some i \<longrightarrow> i < d_next D) \<and>
     (\<forall>l l' i. d_names D l = Some i \<longrightarrow> d_names D l' = Some i \<longrightarrow> l = l') \<and>
     (\<forall>f. d_files D f = None \<or> d_dirs D f = None)"

lemma disk_ok_bind_fd: "disk_ok D \<Longrightarrow> i < d_next D \<Longrightarrow> disk_ok (bind_fd f i app D)"
  by (simp add: disk_ok_def bind_fd_def)

lemma d_next_set_data [simp]: "d_next (set_data i b D) = d_next D"
  by (simp add: set_data_def)

lemma disk_ok_bind_dir: "disk_ok D \<Longrightarrow> disk_ok (bind_dir f p D)"
  by (simp add: disk_ok_def bind_dir_def)

lemma disk_ok_set_data: "disk_ok D \<Longrightarrow> disk_ok (set_data i b D)"
  by (simp add: disk_ok_def set_data_def)

lemma disk_ok_close: "disk_ok D \<Longrightarrow> disk_ok (close_fd f D)"
  by (simp add: disk_ok_def close_fd_def)

lemma disk_ok_unlink: "disk_ok D \<Longrightarrow> disk_ok (set_name l None D)"
  unfolding disk_ok_def set_name_def by auto

lemma disk_ok_create:
  assumes "disk_ok D" and "d_names D l = None"
  shows "disk_ok (set_name l (Some (d_next D)) (set_data (d_next D) [] (D\<lparr>d_next := Suc (d_next D)\<rparr>)))"
  using assms unfolding disk_ok_def set_name_def set_data_def by (auto simp: less_Suc_eq)

lemma disk_ok_open_file: "disk_ok D \<Longrightarrow> disk_ok (open_file f l fl D)"
proof (cases "d_names D l")
  case None
  assume "disk_ok D"
  from disk_ok_bind_fd [OF disk_ok_create [OF this None]] None show ?thesis
    by (simp add: open_file_def) (simp add: set_name_def set_data_def)
next
  case (Some i)
  assume ok: "disk_ok D"
  then have "i < d_next D" using Some unfolding disk_ok_def by blast
  with ok Some show ?thesis
    by (simp add: open_file_def disk_ok_bind_fd)
      (auto intro!: disk_ok_bind_fd disk_ok_set_data)
qed

lemma disk_ok_write_fd: "disk_ok D \<Longrightarrow> disk_ok (write_fd f b D)"
  by (auto simp: disk_ok_def write_fd_def set_data_def Let_def split: option.splits)

lemma disk_ok_sync_fd: "disk_ok D \<Longrightarrow> disk_ok (sync_fd f D)"
  by (auto simp: disk_ok_def sync_fd_def split: option.splits)

lemma disk_ok_rename_in: "disk_ok D \<Longrightarrow> disk_ok (rename_in f a b D)"
proof (cases "d_dirs D f")
  case (Some d)
  assume ok: "disk_ok D"
  show ?thesis
  proof (cases "a = b")
    case False
    with ok Some show ?thesis
      unfolding disk_ok_def rename_in_def set_name_def by (auto split: if_splits)
  qed (use ok Some in \<open>simp add: rename_in_def\<close>)
qed (simp add: rename_in_def)

lemma disk_ok_step: "disk_ok D \<Longrightarrow> disk_ok (disk_step e D)"
  unfolding disk_step_def fs_step_def
  by (auto split: call.splits fs_call.splits answer.splits option.splits sum.splits
      simp: disk_ok_bind_dir disk_ok_open_file disk_ok_close disk_ok_write_fd disk_ok_sync_fd
        disk_ok_rename_in disk_ok_unlink disk_ok_set_data)
     (auto simp: disk_ok_def)

lemma disk_ok_of: "disk_ok D \<Longrightarrow> disk_ok (disk_of D h)"
  by (induction h arbitrary: D) (simp_all add: disk_ok_step)

definition is_open :: "disk \<Rightarrow> fd \<Rightarrow> bool" where
  "is_open D f \<longleftrightarrow> d_files D f \<noteq> None \<or> d_dirs D f \<noteq> None"

section \<open>Faithful kernels\<close>

text \<open>The documented behaviour the properties rely on: \<^verbatim>\<open>open\<close> returns a descriptor that is not in
  use and fails without \<^verbatim>\<open>O_CREAT\<close> on a name that does not exist, \<^verbatim>\<open>write\<close> does not accept more
  than it was given, a read returns the next bytes of the file and is empty only at its end, and a
  positioned read returns the bytes there.\<close>

definition fresh_fds :: "disk \<Rightarrow> kernel \<Rightarrow> bool" where
  "fresh_fds D0 K \<longleftrightarrow>
     (\<forall>h p fl f. k_num K h (Fs (Open p fl)) = Inr f \<longrightarrow> \<not> is_open (disk_of D0 h) f) \<and>
     (\<forall>h d n fl f. k_num K h (Fs (Openat d n fl)) = Inr f \<longrightarrow> \<not> is_open (disk_of D0 h) f)"

definition opens_existing :: "disk \<Rightarrow> kernel \<Rightarrow> bool" where
  "opens_existing D0 K \<longleftrightarrow>
     (\<forall>h p fl f. k_num K h (Fs (Open p fl)) = Inr f \<longrightarrow>
        O_CREAT \<in> set fl \<or> O_DIRECTORY \<in> set fl \<or> d_names (disk_of D0 h) (split_last p) \<noteq> None)"

definition bounded_writes :: "kernel \<Rightarrow> bool" where
  "bounded_writes K \<longleftrightarrow>
     (\<forall>h f b n. k_count K h (Fs (Write f b)) = Inr n \<longrightarrow> n \<le> length b) \<and>
     (\<forall>h f b off n. k_count K h (Fs (Pwrite f b off)) = Inr n \<longrightarrow> n \<le> length b)"

definition true_reads :: "disk \<Rightarrow> kernel \<Rightarrow> bool" where
  "true_reads D0 K \<longleftrightarrow>
     (\<forall>h f n b i. k_buf K h (Fs (Read f n)) = Inr b \<longrightarrow> d_files (disk_of D0 h) f = Some i \<longrightarrow>
        (\<exists>m \<le> n. b = take m (drop (d_pos (disk_of D0 h) f) (d_data (disk_of D0 h) i))) \<and>
        (b = [] \<longrightarrow> n = 0 \<or> length (d_data (disk_of D0 h) i) \<le> d_pos (disk_of D0 h) f))"

definition true_preads :: "disk \<Rightarrow> kernel \<Rightarrow> bool" where
  "true_preads D0 K \<longleftrightarrow>
     (\<forall>h f n off b i. k_buf K h (Fs (Pread f n off)) = Inr b \<longrightarrow>
        d_files (disk_of D0 h) f = Some i \<longrightarrow> b = take n (drop off (d_data (disk_of D0 h) i)))"

definition faithful :: "disk \<Rightarrow> kernel \<Rightarrow> bool" where
  "faithful D0 K \<longleftrightarrow> disk_ok D0 \<and> fresh_fds D0 K \<and> opens_existing D0 K \<and> bounded_writes K \<and>
     true_reads D0 K \<and> true_preads D0 K"

lemma faithful_parts:
  assumes "faithful D0 K"
  shows "disk_ok (disk_of D0 h)" "fresh_fds D0 K" "opens_existing D0 K" "bounded_writes K"
    "true_reads D0 K" "true_preads D0 K"
  using assms by (simp_all add: faithful_def disk_ok_of)

section \<open>A concrete faithful kernel\<close>

text \<open>A kernel that answers from the disk of its history and never fails a call it can serve: the
  kernel of the witnesses, and the proof that \<open>faithful\<close> asks for nothing impossible.\<close>

definition next_fd :: "hist \<Rightarrow> fd" where
  "next_fd h = foldr (\<lambda>e m. case snd e of Num (Inr f) \<Rightarrow> max m (f + 1) | _ \<Rightarrow> m) h 3"

definition ext_num :: "disk \<Rightarrow> hist \<Rightarrow> call \<Rightarrow> errno + int" where
  "ext_num D0 h c =
     (case c of
        Fs (Open p fl) \<Rightarrow>
          if O_CREAT \<in> set fl \<or> O_DIRECTORY \<in> set fl \<or> d_names (disk_of D0 h) (split_last p) \<noteq> None
          then Inr (next_fd h) else Inl (EOTHER 2)
      | Fs (Openat d n fl) \<Rightarrow>
          if O_CREAT \<in> set fl then Inr (next_fd h) else Inl (EOTHER 2)
      | Env Getpid \<Rightarrow> Inr 42
      | _ \<Rightarrow> Inr 0)"

definition ext_count :: "call \<Rightarrow> errno + nat" where
  "ext_count c =
     (case c of Fs (Write f b) \<Rightarrow> Inr (length b) | Fs (Pwrite f b off) \<Rightarrow> Inr (length b) | _ \<Rightarrow> Inr 0)"

definition ext_buf :: "disk \<Rightarrow> hist \<Rightarrow> call \<Rightarrow> errno + bytes" where
  "ext_buf D0 h c =
     (let D = disk_of D0 h in
      case c of
        Fs (Read f n) \<Rightarrow>
          (case d_files D f of None \<Rightarrow> Inl EIO | Some i \<Rightarrow> Inr (take n (drop (d_pos D f) (d_data D i))))
      | Fs (Pread f n off) \<Rightarrow>
          (case d_files D f of None \<Rightarrow> Inr [] | Some i \<Rightarrow> Inr (take n (drop off (d_data D i))))
      | _ \<Rightarrow> Inr [])"

definition ext_kernel :: "disk \<Rightarrow> kernel" where
  "ext_kernel D0 = \<lparr>k_done = (\<lambda>_ _. None), k_num = ext_num D0, k_count = (\<lambda>_. ext_count),
     k_buf = ext_buf D0, k_str = (\<lambda>_ _. Inl EIO), k_names = (\<lambda>_ _. Inr []), k_stat = (\<lambda>_ _. Inl EIO),
     k_child = (\<lambda>_ _. Inl ECHILD), k_events = (\<lambda>_ _. Inr []), k_region = (\<lambda>_ _. zero_region),
     k_strerror = (\<lambda>_. ''error''), k_errno = (\<lambda>_. 5)\<rparr>"

lemma next_fd_greater: "(c, Num (Inr f)) \<in> set h \<Longrightarrow> f < next_fd h"
  unfolding next_fd_def
proof (induction h)
  case (Cons e h)
  let ?g = "foldr (\<lambda>e m. case snd e of Num (Inr f) \<Rightarrow> max m (f + 1) | _ \<Rightarrow> m) h 3"
  have "?g \<le> (case snd e of Num (Inr f) \<Rightarrow> max ?g (f + 1) | _ \<Rightarrow> ?g)"
    by (auto split: answer.splits sum.splits)
  with Cons show ?case by auto
qed simp

lemma is_open_step:
  "is_open (disk_step e D) f \<Longrightarrow> is_open D f \<or> snd e = Num (Inr f)"
  unfolding is_open_def disk_step_def fs_step_def
  by (auto split: call.splits fs_call.splits answer.splits option.splits sum.splits if_splits
      simp: bind_dir_def open_file_def bind_fd_def set_data_def set_name_def close_fd_def Let_def
        write_fd_def sync_fd_def rename_in_def)

lemma is_open_of:
  "is_open (disk_of D h) f \<Longrightarrow> is_open D f \<or> (\<exists>c. (c, Num (Inr f)) \<in> set h)"
proof (induction h arbitrary: D)
  case (Cons e h)
  then have "is_open (disk_step e D) f \<or> (\<exists>c. (c, Num (Inr f)) \<in> set h)" by simp
  then show ?case using is_open_step [of e D f] by (cases e) auto
qed simp

lemma next_fd_fresh: "(\<And>f. \<not> is_open D0 f) \<Longrightarrow> \<not> is_open (disk_of D0 h) (next_fd h)"
  using is_open_of [of D0 h "next_fd h"] next_fd_greater by fastforce

lemma ext_kernel_reads: "true_reads D0 (ext_kernel D0)" "true_preads D0 (ext_kernel D0)"
  by (auto simp: true_reads_def true_preads_def ext_kernel_def ext_buf_def Let_def)

lemma ext_kernel_opens:
  "(\<And>f. \<not> is_open D0 f) \<Longrightarrow> fresh_fds D0 (ext_kernel D0)"
  "opens_existing D0 (ext_kernel D0)" "bounded_writes (ext_kernel D0)"
  by (auto simp: fresh_fds_def opens_existing_def bounded_writes_def
      ext_kernel_def ext_num_def ext_count_def next_fd_fresh split: if_splits)

lemma ext_kernel_faithful:
  "disk_ok D0 \<Longrightarrow> (\<And>f. \<not> is_open D0 f) \<Longrightarrow> faithful D0 (ext_kernel D0)"
  by (simp add: faithful_def ext_kernel_reads ext_kernel_opens)

lemma ext_kernel_patient: "patient b (ext_kernel D0)"
  by (auto simp: patient_def ext_kernel_def ext_count_def ext_buf_def Let_def
      split: call.splits fs_call.splits option.splits)

lemma empty_disk_ok [simp]: "disk_ok empty_disk" "\<not> is_open empty_disk f"
  by (simp_all add: disk_ok_def is_open_def empty_disk_def)

end
