(* ===== verification/Durability.thy ===== *)
theory Durability
  imports Store Filesystem
begin

text \<open>
  What \<^verbatim>\<open>atomic_write_file\<close> promises, proved on the disk of its history: at every moment of a run
  a crash leaves the name with the old or the new contents, after a success only with the new, and
  so a record that was saved is the record that is loaded, also after a power loss. The lemmas
  follow the code: what each call keeps, the write loop, the sequence.
\<close>

lemma contents_crash_contents: "contents D l \<in> crash_contents D l"
  by (auto simp: contents_def crash_contents_def crash_entry_def split: option.split)

section \<open>The write loop\<close>

text \<open>The situation between \<^verbatim>\<open>openat\<close> and the rename: the final name \<open>l\<close> still has its settled
  entry \<open>e\<close> with data \<open>b\<close>, the directory is open as \<open>d\<close>, and the temp file \<open>f\<close> is another inode
  \<open>t\<close> that holds the bytes \<open>w\<close> written so far.\<close>

definition untouched :: "disk \<Rightarrow> location \<Rightarrow> nat option \<Rightarrow> bytes \<Rightarrow> bool" where
  "untouched D l e b \<longleftrightarrow> d_names D l = e \<and> d_older D l = [] \<and>
     (\<forall>i. e = Some i \<longrightarrow> d_synced D i \<and> d_data D i = b)"

definition drafting ::
    "location \<Rightarrow> nat option \<Rightarrow> bytes \<Rightarrow> fd \<Rightarrow> fd \<Rightarrow> string \<Rightarrow> nat \<Rightarrow> bytes \<Rightarrow> disk \<Rightarrow> bool" where
  "drafting l e b d f tmp t w D \<longleftrightarrow> untouched D l e b \<and> e \<noteq> Some t \<and> snd l \<noteq> tmp \<and>
     d_dirs D d = Some (fst l) \<and> d_files D d = None \<and> f \<noteq> d \<and>
     d_names D (fst l, tmp) = Some t \<and>
     d_files D f = Some t \<and> \<not> d_append D f \<and> d_pos D f = length w \<and> d_data D t = w"

lemma write_at_end: "write_at (length w) b w = w @ b"
  by (simp add: write_at_def)

lemma drafting_write:
  assumes "drafting l e b d f tmp t w D" and "n \<le> length p"
  shows "drafting l e b d f tmp t (w @ take n p) (disk_step (Fs (Write f p), Count (Inr n)) D)"
  using assms by (auto simp: drafting_def untouched_def disk_step_def fs_step_def write_fd_def
      set_data_def write_at_end)

lemma drafting_write_failed:
  "drafting l e b d f tmp t w D \<Longrightarrow>
   drafting l e b d f tmp t w (disk_step (Fs (Write f p), Count (Inl x)) D)"
  by (simp add: disk_step_def fs_step_def)

lemma untouched_if_drafting: "drafting l e b d f tmp t w D \<Longrightarrow> untouched D l e b"
  by (simp add: drafting_def)

lemma faithful_write: "faithful D0 K \<Longrightarrow> k_count K h (Fs (Write f p)) = Inr n \<Longrightarrow> n \<le> length p"
  by (simp add: faithful_def bounded_writes_def)

lemma write_step_drafting:
  assumes K: "faithful D0 K" and dr: "drafting l e b d f tmp t w (disk_of D0 h)"
    and r: "k_count K h (Fs (Write f p)) = r" and h': "h' = h @ [(Fs (Write f p), Count r)]"
  shows "drafting l e b d f tmp t (w @ (case r of Inl _ \<Rightarrow> [] | Inr n \<Rightarrow> take n p)) (disk_of D0 h')"
    and "throughout (\<lambda>m. untouched (disk_of D0 m) l e b) h h'"
proof -
  show dr': "drafting l e b d f tmp t (w @ (case r of Inl _ \<Rightarrow> [] | Inr n \<Rightarrow> take n p)) (disk_of D0 h')"
    using drafting_write_failed [OF dr] drafting_write [OF dr] faithful_write [OF K] r
    unfolding h' by (cases r) simp_all
  show "throughout (\<lambda>m. untouched (disk_of D0 m) l e b) h h'"
    using dr dr' unfolding h' by (intro throughout_step) (rule untouched_if_drafting, assumption)+
qed

lemma write_all_drafting:
  assumes "write_all K f p h = Some y" and "faithful D0 K"
    and "drafting l e b d f tmp t w (disk_of D0 h)"
  shows "\<exists>w'. drafting l e b d f tmp t w' (disk_of D0 (snd y)) \<and> (fst y = None \<longrightarrow> w' = w @ p) \<and>
     throughout (\<lambda>m. untouched (disk_of D0 m) l e b) h (snd y)"
  using assms
proof (induction arbitrary: w rule: write_all.raw_induct [rotated, consumes 1, case_names step])
  case (step rec K f p h y)
  show ?case
  proof (cases "p = []")
    case True
    with step show ?thesis
      by (auto intro!: throughout_refl exI [of _ w] untouched_if_drafting)
  next
    case p: False
    define r where "r = k_count K h (Fs (Write f p))"
    define h1 where "h1 = h @ [(Fs (Write f p), Count r)]"
    note written = write_step_drafting [OF step.prems r_def [symmetric] h1_def]
    have again: "?thesis" if rest: "rec K f q h1 = Some y"
        and dr: "drafting l e b d f tmp t v (disk_of D0 h1)" and v: "v @ q = w @ p" for v q
      using step.IH [OF rest step.prems(1) dr] v by (auto elim!: throughout_trans [OF written(2)])
    show ?thesis
    proof (cases r)
      case (Inl x)
      with written again [of p w] step.hyps p show ?thesis
        by (cases "x = EINTR") (auto simp: sys_defs r_def h1_def)
    next
      case (Inr n)
      with written again [of "drop n p" "w @ take n p"] step.hyps p show ?thesis
        by (cases "n = 0") (auto simp: sys_defs r_def h1_def)
    qed
  qed
qed

section \<open>The steps around the loop\<close>

text \<open>The temp file is complete and durable; then the name has moved and the directory is not yet
  synced.\<close>

definition drafted ::
    "location \<Rightarrow> nat option \<Rightarrow> bytes \<Rightarrow> fd \<Rightarrow> string \<Rightarrow> nat \<Rightarrow> bytes \<Rightarrow> disk \<Rightarrow> bool" where
  "drafted l e b d tmp t w D \<longleftrightarrow> untouched D l e b \<and> snd l \<noteq> tmp \<and>
     d_dirs D d = Some (fst l) \<and> d_files D d = None \<and> d_names D (fst l, tmp) = Some t \<and>
     d_synced D t \<and> d_data D t = w"

definition renamed ::
    "location \<Rightarrow> nat option \<Rightarrow> bytes \<Rightarrow> fd \<Rightarrow> nat \<Rightarrow> bytes \<Rightarrow> disk \<Rightarrow> bool" where
  "renamed l e b d t w D \<longleftrightarrow> d_names D l = Some t \<and> d_older D l = [e] \<and>
     (\<forall>i. e = Some i \<longrightarrow> d_synced D i \<and> d_data D i = b) \<and>
     d_dirs D d = Some (fst l) \<and> d_files D d = None \<and> d_synced D t \<and> d_data D t = w"

definition old_or_new :: "location \<Rightarrow> nat option \<Rightarrow> bytes \<Rightarrow> bytes \<Rightarrow> disk \<Rightarrow> bool" where
  "old_or_new l e b w D \<longleftrightarrow> crash_contents D l \<subseteq> {map_option (\<lambda>_. b) e, Some w}"

lemma old_or_new_untouched: "untouched D l e b \<Longrightarrow> old_or_new l e b w D"
  by (auto simp: untouched_def old_or_new_def crash_contents_def crash_entry_def split: option.splits)

lemma old_or_new_drafted: "drafted l e b d tmp t w D \<Longrightarrow> old_or_new l e b w D"
  by (simp add: drafted_def old_or_new_untouched)

lemma old_or_new_renamed: "renamed l e b d t w D \<Longrightarrow> old_or_new l e b w D"
  by (auto simp: renamed_def old_or_new_def crash_contents_def crash_entry_def split: option.splits)

lemma old_or_new_settled:
  "untouched D l (Some t) w \<Longrightarrow> old_or_new l e b w D"
  by (auto simp: untouched_def old_or_new_def crash_contents_def crash_entry_def)

lemma crash_contents_close [simp]: "crash_contents (close_fd f D) l = crash_contents D l"
proof -
  have "crash_entry (close_fd f D) = crash_entry D"
    by (rule ext) (simp add: crash_entry_def close_fd_def split: option.split)
  then show ?thesis by (simp add: crash_contents_def) (simp add: close_fd_def)
qed

lemma old_or_new_close [simp]: "old_or_new l e b w (close_fd f D) = old_or_new l e b w D"
  by (simp add: old_or_new_def)

text \<open>A failed call changes nothing, and neither does a call outside the file system.\<close>

lemma disk_step_failed [simp]:
  "disk_step (Fs (Open p fl), Num (Inl x)) D = D"
  "disk_step (Fs (Openat d n fl), Num (Inl x)) D = D"
  "disk_step (Fs (Fsync f), Done (Some x)) D = D"
  "disk_step (Fs (Renameat2 f n m), Done (Some x)) D = D"
  "disk_step (Fs (Renameat f n m), Done (Some x)) D = D"
  "disk_step (Fs (Unlinkat f n), Done (Some x)) D = D"
  "disk_step (Fs (Mkdir n), a) D = D"
  "disk_step (Env c, a) D = D"
  by (simp_all add: disk_step_def fs_step_def)

lemma disk_step_dir [simp]:
  "disk_step (Fs (Open p [O_RDONLY, O_DIRECTORY, O_CLOEXEC]), Num (Inr f)) D = bind_dir f p D"
  by (simp add: disk_step_def fs_step_def)

lemma disk_step_close [simp]: "disk_step (Fs (Close f), a) D = close_fd f D"
  by (simp add: disk_step_def fs_step_def)

lemma untouched_frame [simp]:
  "untouched (bind_dir f p D) l e b = untouched D l e b"
  "untouched (close_fd f D) l e b = untouched D l e b"
  by (simp_all add: untouched_def bind_dir_def close_fd_def)

lemma untouched_unlinkat:
  "untouched D l e b \<Longrightarrow> snd l \<noteq> tmp \<Longrightarrow>
   untouched (disk_step (Fs (Unlinkat d tmp), a) D) l e b"
  by (cases l) (auto simp: untouched_def disk_step_def fs_step_def set_name_def
      split: answer.splits option.splits)

lemma untouched_sys_close:
  "untouched (disk_of D0 h) l e b \<Longrightarrow> throughout (\<lambda>m. untouched (disk_of D0 m) l e b) h (sys_close K f h)"
  by (simp add: sys_close_def sys_defs)

lemma start_drafting:
  assumes ok: "disk_ok D" and un: "untouched D l e b" and dir: "d_dirs D d = Some (fst l)"
    and fresh: "\<not> is_open D f" and tmp: "snd l \<noteq> tmp"
  shows "\<exists>t. drafting l e b d f tmp t []
     (disk_step (Fs (Openat d tmp [O_WRONLY, O_CREAT, O_TRUNC, O_CLOEXEC]), Num (Inr f)) D)"
proof -
  have fd: "f \<noteq> d" "d_files D d = None"
    using fresh dir ok by (auto simp: is_open_def disk_ok_def)
  have ne: "l \<noteq> (fst l, tmp)" using tmp by (cases l) auto
  show ?thesis
  proof (cases "d_names D (fst l, tmp)")
    case None
    have "e \<noteq> Some (d_next D)"
      using ok un unfolding disk_ok_def untouched_def by blast
    then show ?thesis
      using None fd dir tmp un ne
      by (intro exI [of _ "d_next D"])
        (auto simp: drafting_def untouched_def disk_step_def fs_step_def open_file_def bind_fd_def
          set_name_def set_data_def)
  next
    case (Some j)
    have "e \<noteq> Some j"
      using ok un Some ne unfolding disk_ok_def untouched_def by blast
    then show ?thesis
      using Some fd dir tmp un ne
      by (intro exI [of _ j])
        (auto simp: drafting_def untouched_def disk_step_def fs_step_def open_file_def bind_fd_def
          set_name_def set_data_def)
  qed
qed

lemma drafted_fsync:
  "drafting l e b d f tmp t w D \<Longrightarrow> drafted l e b d tmp t w (disk_step (Fs (Fsync f), Done None) D)"
  by (auto simp: drafting_def drafted_def untouched_def disk_step_def fs_step_def sync_fd_def)

lemma drafted_close: "drafted l e b d tmp t w D \<Longrightarrow> f \<noteq> d \<Longrightarrow> drafted l e b d tmp t w (close_fd f D)"
  by (simp add: drafted_def) (simp add: close_fd_def)

lemma rename_in_renames:
  "drafted l e b d tmp t w D \<Longrightarrow> renamed l e b d t w (rename_in d tmp (snd l) D)"
  by (cases l) (auto simp: drafted_def renamed_def untouched_def rename_in_def set_name_def)

lemma settled_fsync_dir:
  "renamed l e b d t w D \<Longrightarrow> untouched (disk_step (Fs (Fsync d), Done None) D) l (Some t) w"
  by (auto simp: renamed_def untouched_def disk_step_def fs_step_def sync_fd_def)

lemma replace_at_renames:
  assumes "replace_at K d tmp (snd l) h = (r, h')" and dr: "drafted l e b d tmp t w (disk_of D0 h)"
    and "NUL \<notin> set tmp" "NUL \<notin> set (snd l)"
  shows "throughout (\<lambda>m. old_or_new l e b w (disk_of D0 m)) h h' \<and>
     (case r of Inr _ \<Rightarrow> renamed l e b d t w (disk_of D0 h')
      | Inl _ \<Rightarrow> drafted l e b d tmp t w (disk_of D0 h'))"
proof -
  have step: "disk_step (Fs (Renameat2 d tmp (snd l)), Done None) D = rename_in d tmp (snd l) D"
    "disk_step (Fs (Renameat d tmp (snd l)), Done None) D = rename_in d tmp (snd l) D" for D
    by (simp_all add: disk_step_def fs_step_def)
  note rn = rename_in_renames [OF dr]
  show ?thesis
    using assms(1)
    by (auto simp: replace_at_def sys_defs assms(3,4) step dr rn
        old_or_new_drafted [OF dr] old_or_new_renamed [OF rn]
        split: option.splits if_splits)
qed

lemma write_and_sync_drafts:
  assumes "write_and_sync K f p h = Some (r, h')" and "faithful D0 K"
    and dr: "drafting l e b d f tmp t [] (disk_of D0 h)"
  shows "throughout (\<lambda>m. untouched (disk_of D0 m) l e b) h h' \<and>
     (r = None \<longrightarrow> drafted l e b d tmp t p (disk_of D0 h')) \<and>
     d_dirs (disk_of D0 h') d = Some (fst l)"
proof -
  obtain y where y: "write_all K f p h = Some y"
    using assms(1) by (auto simp: write_and_sync_def bind_Some_conv)
  from write_all_drafting [OF y assms(2,3)] obtain w' where
    w: "drafting l e b d f tmp t w' (disk_of D0 (snd y))" "fst y = None \<Longrightarrow> w' = p"
    and th: "throughout (\<lambda>m. untouched (disk_of D0 m) l e b) h (snd y)" by auto
  show ?thesis
  proof (cases "fst y")
    case (Some x)
    then have "r = Some x" "h' = snd y"
      using assms(1) y by (cases y; simp add: write_and_sync_def)+
    with w th show ?thesis by (simp add: drafting_def)
  next
    case None
    then have e: "r = k_done K (snd y) (Fs (Fsync f))" "h' = snd y @ [(Fs (Fsync f), Done r)]"
      using assms(1) y by (cases y; simp add: write_and_sync_def sys_defs)+
    then have D: "disk_of D0 h' = disk_step (Fs (Fsync f), Done r) (disk_of D0 (snd y))" by simp
    have un: "untouched (disk_of D0 h') l e b \<and> d_dirs (disk_of D0 h') d = Some (fst l) \<and>
        (r = None \<longrightarrow> drafted l e b d tmp t p (disk_of D0 h'))"
      unfolding D using w None drafted_fsync [OF w(1)]
      by (cases r) (auto simp: drafting_def drafted_def)
    moreover have "throughout (\<lambda>m. untouched (disk_of D0 m) l e b) (snd y) h'"
      using un w e(2) by (simp add: drafting_def)
    ultimately show ?thesis using throughout_trans [OF th] by blast
  qed
qed

section \<open>The whole operation\<close>

lemma sys_value_eq [kernel_simps]:
  "sys_value K c h = (case k_num K h c of Inl _ \<Rightarrow> 0 | Inr n \<Rightarrow> n, h @ [(c, Num (k_num K h c))])"
  by (simp add: sys_value_def sys_defs split: sum.split)

lemma split_last_NUL:
  "NUL \<notin> set path \<Longrightarrow> split_last path = (dir, name) \<Longrightarrow> NUL \<notin> set dir \<and> NUL \<notin> set name"
proof -
  assume a: "NUL \<notin> set path" "split_last path = (dir, name)"
  show ?thesis
  proof (cases "split_first (CHR ''/'') (rev path)")
    case (Some ab)
    obtain n d where ab: "ab = (n, d)" by fastforce
    with Some have "path = rev d @ CHR ''/'' # rev n"
      by (simp add: split_first_Some rev_swap)
    with a(1) have "NUL \<notin> set d" "NUL \<notin> set n" by auto
    with a(2) Some ab show ?thesis by (auto simp: split_last_def split: if_splits)
  qed (use a in \<open>auto simp: split_last_def\<close>)
qed

lemma dec_int_NUL [simp]: "NUL \<notin> set (dec_int n)"
  using dec_int_chars [of NUL n] by (auto simp: is_digit_of_char)

lemma faithful_openat:
  "faithful D0 K \<Longrightarrow> k_num K h (Fs (Openat d n fl)) = Inr f \<Longrightarrow> \<not> is_open (disk_of D0 h) f"
  by (simp add: faithful_def fresh_fds_def)

definition finished ::
    "location \<Rightarrow> nat option \<Rightarrow> bytes \<Rightarrow> bytes \<Rightarrow> disk \<Rightarrow> hist \<Rightarrow> (string + unit) \<times> hist \<Rightarrow> bool" where
  "finished l e b w D0 h y \<longleftrightarrow>
     throughout (\<lambda>m. old_or_new l e b w (disk_of D0 m)) h (snd y) \<and>
     (\<forall>u. fst y = Inr u \<longrightarrow> (\<exists>t. untouched (disk_of D0 (snd y)) l (Some t) w))"

lemma finished_trans:
  "throughout (\<lambda>m. old_or_new l e b w (disk_of D0 m)) h h1 \<Longrightarrow> finished l e b w D0 h1 y \<Longrightarrow>
   finished l e b w D0 h y"
  by (auto simp: finished_def intro: throughout_trans)

lemma old_or_new_throughout:
  "throughout (\<lambda>m. untouched (disk_of D0 m) l e b) h h' \<Longrightarrow>
   throughout (\<lambda>m. old_or_new l e b w (disk_of D0 m)) h h'"
  by (erule throughout_mono) (rule old_or_new_untouched)

text \<open>An error exit that has left the name alone.\<close>

lemma finishedI:
  assumes "y = (fst y, h')" and "isl (fst y)"
    and "throughout (\<lambda>m. untouched (disk_of D0 m) l e b) h h1"
    and "throughout (\<lambda>m. untouched (disk_of D0 m) l e b) h1 h'"
  shows "finished l e b w D0 h y"
proof -
  have "snd y = h'" using assms(1) by (metis snd_conv)
  moreover have "throughout (\<lambda>m. old_or_new l e b w (disk_of D0 m)) h h'"
    using throughout_trans [OF assms(3,4)] by (rule old_or_new_throughout)
  ultimately show ?thesis
    using assms(2) by (auto simp: finished_def)
qed

text \<open>From the closed and durable temp file to the end.\<close>

lemma move_into_place_finishes:
  assumes dr: "drafted l e b d tmp t w (disk_of D0 h)" and nul: "NUL \<notin> set tmp" "NUL \<notin> set (snd l)"
    and y: "move_into_place K d dir tmp (snd l) h = y"
  shows "finished l e b w D0 h y"
proof -
  obtain r h1 where r: "replace_at K d tmp (snd l) h = (r, h1)" by fastforce
  note ra = replace_at_renames [OF r dr nul]
  show ?thesis
  proof (cases r)
    case (Inl err)
    with ra have dr1: "drafted l e b d tmp t w (disk_of D0 h1)" by simp
    then have un: "untouched (disk_of D0 h1) l e b" and ne: "snd l \<noteq> tmp"
      by (simp_all add: drafted_def)
    have "finished l e b w D0 h1 y"
      using y r Inl old_or_new_untouched [OF un, of w]
        old_or_new_untouched [OF untouched_unlinkat [OF un ne], of w]
      by (auto simp: move_into_place_def sys_defs sys_close_def finished_def nul)
    with ra show ?thesis by (blast intro: finished_trans)
  next
    case (Inr u)
    with ra have rn: "renamed l e b d t w (disk_of D0 h1)" by simp
    note st = settled_fsync_dir [OF rn]
    have "finished l e b w D0 h1 y"
      using y r Inr old_or_new_renamed [OF rn] old_or_new_settled [OF st, of e b] st
      by (cases "k_done K h1 (Fs (Fsync d))") (auto simp: move_into_place_def sys_defs sys_close_def finished_def nul)
    with ra Inr show ?thesis by (auto intro: finished_trans)
  qed
qed

lemma fill_and_move_finishes:
  assumes K: "faithful D0 K" and dr: "drafting l e b d f tmp t [] (disk_of D0 h)"
    and nul: "NUL \<notin> set tmp" "NUL \<notin> set (snd l)"
    and run: "fill_and_move K d f dir tmp (snd l) w h = Some y"
  shows "finished l e b w D0 h y"
proof -
  obtain r h1 where ws: "write_and_sync K f w h = Some (r, h1)"
    using run by (auto simp: fill_and_move_def bind_Some_conv)
  note wd = write_and_sync_drafts [OF ws K dr]
  have ne: "snd l \<noteq> tmp" "f \<noteq> d" using dr by (simp_all add: drafting_def)
  show ?thesis
  proof (cases r)
    case (Some x)
    let ?h2 = "h1 @ [(Fs (Unlinkat d tmp), Done (k_done K h1 (Fs (Unlinkat d tmp))))]"
    have un1: "untouched (disk_of D0 h1) l e b"
      using wd throughout_ends by blast
    then have un2: "untouched (disk_of D0 ?h2) l e b"
      using untouched_unlinkat [OF un1 ne(1)] by simp
    have "y = (fst y, sys_close K d (sys_close K f ?h2))" "isl (fst y)"
      using run ws Some by (auto simp: fill_and_move_def sys_defs nul)
    moreover have "throughout (\<lambda>m. untouched (disk_of D0 m) l e b) h1 ?h2" using un1 un2 by simp
    moreover have "throughout (\<lambda>m. untouched (disk_of D0 m) l e b) ?h2 (sys_close K d (sys_close K f ?h2))"
      using untouched_sys_close [OF un2] by (blast intro: throughout_trans untouched_sys_close dest: throughout_ends)
    ultimately have "finished l e b w D0 h1 y"
      using finishedI by blast
    then show ?thesis using wd by (blast intro: finished_trans old_or_new_throughout)
  next
    case None
    let ?h2 = "sys_close K f h1"
    have dr2: "drafted l e b d tmp t w (disk_of D0 ?h2)"
      using wd None ne by (simp add: sys_close_def sys_defs drafted_close)
    have "throughout (\<lambda>m. untouched (disk_of D0 m) l e b) h1 ?h2"
      using wd None by (simp add: sys_close_def sys_defs drafted_def)
    then have "throughout (\<lambda>m. untouched (disk_of D0 m) l e b) h ?h2"
      using wd by (blast intro: throughout_trans)
    moreover have "move_into_place K d dir tmp (snd l) ?h2 = y"
      using run ws None by (simp add: fill_and_move_def)
    then have "finished l e b w D0 ?h2 y"
      by (rule move_into_place_finishes [OF dr2 nul])
    ultimately show ?thesis by (blast intro: finished_trans old_or_new_throughout)
  qed
qed

text \<open>From the open directory on: the temp file is created, or its creation fails.\<close>

lemma create_and_fill:
  assumes K: "faithful D0 K" and un: "untouched (disk_of D0 h) (dir, name) e b"
    and d: "d_dirs (disk_of D0 h) d = Some dir" and nuls: "NUL \<notin> set dir" "NUL \<notin> set name"
    and tmp: "NUL \<notin> set tmp" "name \<noteq> tmp"
    and c: "c = Fs (Openat d tmp [O_WRONLY, O_CREAT, O_TRUNC, O_CLOEXEC])"
    and h1: "h1 = h @ [(c, Num (k_num K h c))]"
    and failed: "\<And>x. k_num K h c = Inl x \<Longrightarrow> isl (fst y) \<and> snd y = sys_close K d h1"
    and created: "\<And>f. k_num K h c = Inr f \<Longrightarrow> fill_and_move K d f dir tmp name w h1 = Some y"
  shows "finished (dir, name) e b w D0 h y"
proof (cases "k_num K h c")
  case (Inl x)
  then have "throughout (\<lambda>m. untouched (disk_of D0 m) (dir, name) e b) h (sys_close K d h1)"
    using un by (simp add: c h1 sys_close_def sys_defs)
  with failed [OF Inl] show ?thesis by (auto simp: finished_def intro: old_or_new_throughout)
next
  case (Inr f)
  note a = Inr [unfolded c]
  obtain t where dr: "drafting (dir, name) e b d f tmp t [] (disk_of D0 h1)"
    using start_drafting [OF faithful_parts(1) [OF K] un _ faithful_openat [OF K a], where d = d and tmp = tmp]
      d tmp a by (auto simp: c h1)
  then have "finished (dir, name) e b w D0 h1 y"
    using fill_and_move_finishes [OF K dr, of dir w y] created [OF Inr] tmp nuls by simp
  moreover have "throughout (\<lambda>m. untouched (disk_of D0 m) (dir, name) e b) h h1"
    using un dr unfolding h1 by (auto simp: drafting_def)
  ultimately show ?thesis by (auto intro: finished_trans old_or_new_throughout)
qed

lemma atomic_write_finishes:
  assumes K: "faithful D0 K" and nul: "NUL \<notin> set path"
    and un: "untouched (disk_of D0 h) (split_last path) e b"
    and run: "atomic_write_file K path data h = Some y"
  shows "finished (split_last path) e b (text_bytes data) D0 h y"
proof -
  obtain dir name where l: "split_last path = (dir, name)" by fastforce
  note nuls = split_last_NUL [OF nul l]
  have un: "untouched (disk_of D0 h) (dir, name) e b" using un l by simp
  let ?c1 = "Fs (Open dir [O_RDONLY, O_DIRECTORY, O_CLOEXEC])"
  let ?a1 = "k_num K h ?c1"
  let ?h1 = "h @ [(?c1, Num ?a1)]"
  have un1: "untouched (disk_of D0 ?h1) (dir, name) e b" using un by (cases ?a1) auto
  show ?thesis
  proof (cases ?a1)
    case (Inl x)
    then show ?thesis
      using run un l nuls by (auto simp: atomic_write_file_def sys_open_def sys_defs finished_def
          intro: old_or_new_untouched)
  next
    case (Inr d)
    define tmp where "tmp = name @ ''.tmp.'' @ dec_int (fst (sys_value K (Env Getpid) ?h1))"
    let ?h2 = "snd (sys_value K (Env Getpid) ?h1)"
    have tmp: "NUL \<notin> set tmp" "name \<noteq> tmp"
      using nuls dec_int_NUL by (auto simp: tmp_def)
    have D2: "disk_of D0 ?h2 = disk_of D0 ?h1" by (simp add: kernel_simps)
    have dir: "d_dirs (disk_of D0 ?h2) d = Some dir"
      unfolding D2 using Inr by (simp add: bind_dir_def)
    let ?c3 = "Fs (Openat d tmp [O_WRONLY, O_CREAT, O_TRUNC, O_CLOEXEC])"
    let ?h3 = "?h2 @ [(?c3, Num (k_num K ?h2 ?c3))]"
    note code = atomic_write_file_def sys_open_def sys_num_def tmp_def split_beta Let_def
    have "isl (fst y) \<and> snd y = sys_close K d ?h3" if "k_num K ?h2 ?c3 = Inl x" for x
      using that run l nuls Inr tmp by (auto simp: code)
    moreover have "fill_and_move K d f dir tmp name (text_bytes data) ?h3 = Some y"
      if "k_num K ?h2 ?c3 = Inr f" for f
      using that run l nuls Inr tmp by (simp add: code)
    ultimately have "finished (dir, name) e b (text_bytes data) D0 ?h2 y"
      using un1 by (intro create_and_fill [OF K _ dir conjunct1 [OF nuls] conjunct2 [OF nuls] tmp refl refl])
        (simp_all only: D2)
    moreover have "throughout (\<lambda>m. untouched (disk_of D0 m) (dir, name) e b) h ?h2"
      using un un1 by (simp add: kernel_simps)
    ultimately show ?thesis using l by (auto intro: finished_trans old_or_new_throughout)
  qed
qed

section \<open>Reading a file back\<close>

definition failed :: "event \<Rightarrow> bool" where
  "failed e = (case snd e of
     Done (Some _) \<Rightarrow> True | Num (Inl _) \<Rightarrow> True | Count (Inl _) \<Rightarrow> True | Buf (Inl _) \<Rightarrow> True | _ \<Rightarrow> False)"

definition reading :: "disk \<Rightarrow> fd \<Rightarrow> nat \<Rightarrow> bytes \<Rightarrow> string \<Rightarrow> bool" where
  "reading D f i data out \<longleftrightarrow> d_files D f = Some i \<and> d_data D i = data \<and>
     out = bytes_text (take (d_pos D f) data) \<and> d_pos D f \<le> length data"

lemma reading_step:
  assumes "true_reads D0 K" and "k_buf K h (Fs (Read f n)) = Inr b" and "n \<noteq> 0"
    and rd: "reading (disk_of D0 h) f i data out"
  shows "reading (disk_of D0 (h @ [(Fs (Read f n), Buf (Inr b))])) f i data (out @ bytes_text b)"
    and "b = [] \<Longrightarrow> out = bytes_text data"
    and "length out + length b \<le> length data"
proof -
  let ?D = "disk_of D0 h"
  obtain m where b: "b = take m (drop (d_pos ?D f) data)"
    and e: "b = [] \<Longrightarrow> length data \<le> d_pos ?D f"
    using assms unfolding true_reads_def reading_def by blast
  have take: "take (d_pos ?D f + length b) data = take (d_pos ?D f) data @ b"
    by (simp add: b take_add [symmetric] min_def add.commute)
  show "reading (disk_of D0 (h @ [(Fs (Read f n), Buf (Inr b))])) f i data (out @ bytes_text b)"
    using rd take b by (auto simp: reading_def disk_step_def fs_step_def)
  show "out = bytes_text data" if "b = []"
    using rd e that by (simp add: reading_def)
  show "length out + length b \<le> length data"
    using rd b by (auto simp: reading_def)
qed

lemma reading_interrupted:
  "reading D f i data out \<Longrightarrow> reading (disk_step (Fs (Read f n), Buf (Inl x)) D) f i data out"
  by (simp add: disk_step_def fs_step_def)

lemma read_text_loop_reads:
  assumes "read_text_loop K path f out h = Some y" and "true_reads D0 K"
    and "reading (disk_of D0 h) f i data out" and "length data \<le> text_limit"
  shows "fst y = Inr (bytes_text data) \<or> (\<exists>e \<in> set (drop (length h) (snd y)). failed e)"
  using assms
proof (induction rule: read_text_loop.raw_induct [rotated, consumes 1, case_names step])
  case (step rec K path f out h y)
  let ?c = "Fs (Read f 8192)"
  let ?h = "h @ [(?c, Buf (k_buf K h ?c))]"
  note rd = step.prems(2)
  have later: "set (drop (length ?h) (snd y)) \<subseteq> set (drop (length h) (snd y))"
    by (rule set_drop_subset_set_drop) simp
  show ?case
  proof (cases "k_buf K h ?c")
    case (Inl x)
    show ?thesis
    proof (cases "x = EINTR")
      case True
      then have "rec K path f out ?h = Some y" using step.hyps Inl by (simp add: sys_defs)
      from step.IH [OF this step.prems(1) _ step.prems(3)] rd Inl reading_interrupted [OF rd] later
      show ?thesis by auto
    next
      case False
      then have "snd y = ?h" using step.hyps Inl by (auto simp: sys_defs)
      then show ?thesis using Inl by (simp add: failed_def)
    qed
  next
    case (Inr b)
    note rs = reading_step [OF step.prems(1) Inr _ rd]
    show ?thesis
    proof (cases "b = []")
      case True
      then show ?thesis using step.hyps Inr rs(2) by (auto simp: sys_defs)
    next
      case False
      then have "rec K path f (out @ bytes_text b) ?h = Some y"
        using step.hyps Inr rs(3) step.prems(3) by (simp add: sys_defs)
      from step.IH [OF this step.prems(1) _ step.prems(3)] rs(1) Inr later
      show ?thesis by auto
    qed
  qed
qed

lemma extends_read_text_loop:
  "read_text_loop K path f out h = Some y \<Longrightarrow> extends h (snd y)"
proof (induction rule: read_text_loop.raw_induct [rotated, consumes 1, case_names step])
  case (step rec K path f out h y)
  from step.hyps show ?case
    by (auto simp: sys_defs split: sum.splits if_splits dest!: step.IH dest: extends_appendD)
qed

lemma extends_sys_close [simp]: "extends h (sys_close K f h)"
  by (simp add: sys_close_def sys_defs)

lemma extends_read_text_file:
  assumes "read_text_file K path h = Some y"
  shows "extends h (snd y)"
proof (cases "fst (sys_open K path [O_RDONLY, O_CLOEXEC] h)")
  case (Inl x)
  then show ?thesis
    using assms by (auto simp: read_text_file_def sys_open_def sys_defs)
next
  case (Inr f)
  let ?h = "snd (sys_open K path [O_RDONLY, O_CLOEXEC] h)"
  obtain z where z: "read_text_loop K path f [] ?h = Some z" "snd y = sys_close K f (snd z)"
    using assms Inr by (auto simp: read_text_file_def split_beta bind_Some_conv)
  have "extends h ?h" by (simp add: sys_open_def sys_defs)
  also have "extends ?h (snd z)" using extends_read_text_loop [OF z(1)] .
  also have "extends (snd z) (snd y)" by (simp add: z(2))
  finally show ?thesis .
qed

lemma extends_load_meta: "load_meta K root jid h = Some y \<Longrightarrow> extends h (snd y)"
  by (auto simp: load_meta_def bind_Some_conv dest!: extends_read_text_file)

lemma read_text_file_reads:
  assumes run: "read_text_file K path h = Some (r, h @ es)" and K: "faithful D0 K"
    and nul: "NUL \<notin> set path" and c: "contents (disk_of D0 h) (split_last path) = Some data"
    and small: "length data \<le> text_limit"
  shows "r = Inr (bytes_text data) \<or> (\<exists>e \<in> set es. failed e)"
proof -
  let ?c = "Fs (Open path [O_RDONLY, O_CLOEXEC])"
  let ?h = "h @ [(?c, Num (k_num K h ?c))]"
  show ?thesis
  proof (cases "k_num K h ?c")
    case (Inl x)
    then have "es = [(?c, Num (Inl x))]"
      using run nul by (simp add: read_text_file_def sys_open_def sys_defs)
    then show ?thesis by (simp add: failed_def)
  next
    case (Inr f)
    obtain i where i: "d_names (disk_of D0 h) (split_last path) = Some i" "d_data (disk_of D0 h) i = data"
      using c by (auto simp: contents_def)
    have rd: "reading (disk_of D0 ?h) f i data []"
      using i Inr by (simp add: reading_def disk_step_def fs_step_def open_file_def bind_fd_def)
    obtain y where y: "read_text_loop K path f [] ?h = Some y" "r = fst y" "h @ es = sys_close K f (snd y)"
      using run nul Inr by (auto simp: read_text_file_def sys_open_def sys_num_def bind_Some_conv)
    obtain fs where fs: "snd y = ?h @ fs"
      using extends_read_text_loop [OF y(1)] by (auto simp: extends_def)
    have "set (drop (length ?h) (snd y)) \<subseteq> set es"
      using y(3) fs by (auto simp: sys_close_def sys_defs)
    with read_text_loop_reads [OF y(1) faithful_parts(5) [OF K] rd small] y(2)
    show ?thesis by auto
  qed
qed

section \<open>Records\<close>

definition meta_location :: "string \<Rightarrow> u64 \<Rightarrow> location" where
  "meta_location root jid = (job_directory root jid, ''meta'')"

lemma split_meta_path:
  "split_last (job_directory root jid @ ''/meta'') = meta_location root jid"
  using split_last_append [of "''meta''" "job_directory root jid"]
  by (simp add: meta_location_def) (simp add: job_directory_def)

lemma job_directory_NUL: "NUL \<notin> set root \<Longrightarrow> NUL \<notin> set (job_directory root jid)"
  by (simp add: job_directory_def dec_u64_def dec_nat_not_in is_digit_of_char)

lemma job_directory_inj: "job_directory root a = job_directory root b \<longleftrightarrow> a = b"
  by (simp add: job_directory_def u64_text.enc_inj)

lemma settled_untouched:
  "settled D l \<Longrightarrow> untouched D l (d_names D l) (case contents D l of Some b \<Rightarrow> b | None \<Rightarrow> [])"
  by (auto simp: settled_def untouched_def contents_def split: option.splits)

lemma untouched_settled:
  "untouched D l (Some t) w \<Longrightarrow> settled D l \<and> contents D l = Some w"
  by (auto simp: settled_def untouched_def contents_def)

lemma save_meta_finishes:
  assumes K: "faithful D0 K" and nul: "NUL \<notin> set root"
    and st: "settled (disk_of D0 h) (meta_location root (m_id m))"
    and run: "save_meta K root m h = Some (Inr (), h')"
  shows "settled (disk_of D0 h') (meta_location root (m_id m)) \<and>
     contents (disk_of D0 h') (meta_location root (m_id m)) = Some (text_bytes (meta_to_text m))"
proof -
  let ?dir = "job_directory root (m_id m)"
  let ?h = "snd (sys_done K (Fs (Mkdir (c_str ?dir))) h)"
  have D: "disk_of D0 ?h = disk_of D0 h" by (simp add: sys_defs)
  have aw: "atomic_write_file K (?dir @ ''/meta'') (meta_to_text m) ?h = Some (Inr (), h')"
    using run by (auto simp: save_meta_def split_beta Let_def split: option.splits if_splits)
  have nul': "NUL \<notin> set (?dir @ ''/meta'')" using job_directory_NUL [OF nul] by simp
  from atomic_write_finishes [OF K nul' _ aw, unfolded split_meta_path, OF settled_untouched] st D
  show ?thesis by (auto simp: finished_def dest: untouched_settled)
qed

section \<open>The contract of a stored text\<close>

text \<open>A value kept as one small text file, written by \<^verbatim>\<open>atomic_write_file\<close> and read by
  \<^verbatim>\<open>read_text_file\<close>: the format of the text and the file of each key. Once a write has
  returned, every later reader gets the value, also one that starts after a crash.\<close>

locale stored_text = text_codec enc dec ok
  for enc :: "'a \<Rightarrow> string" and dec :: "string \<Rightarrow> 'a option" and ok :: "'a \<Rightarrow> bool" +
  fixes path :: "'k \<Rightarrow> string"
begin

lemma read_after_write:
  assumes ok: "ok x" and nul: "NUL \<notin> set (path k)"
    and stored: "settled (disk_of D0 h) (split_last (path k)) \<and>
      contents (disk_of D0 h) (split_last (path k)) = Some (text_bytes (enc x))"
    and K': "faithful D1 K1"
    and crash: "contents (disk_of D1 h1) (split_last (path k))
      \<in> crash_contents (disk_of D0 h) (split_last (path k))"
    and run: "read_text_file K1 (path k) h1 = Some (r, h1 @ es)"
    and small: "length (enc x) \<le> text_limit"
  shows "(\<exists>txt. r = Inr txt \<and> dec txt = Some x) \<or> (\<exists>e \<in> set es. failed e)"
proof -
  have "contents (disk_of D1 h1) (split_last (path k)) = Some (text_bytes (enc x))"
    using settled_crash_contents stored crash by auto
  from read_text_file_reads [OF run K' nul this] small ok
  show ?thesis by (auto simp: dec_enc)
qed

end

text \<open>The two stored texts of a workspace: a job's record and the controller's pid.\<close>

definition pid_file_path :: "string \<Rightarrow> string" where
  "pid_file_path root = root @ ''/controller.pid''"

definition meta_path :: "string \<Rightarrow> u64 \<Rightarrow> string" where
  "meta_path root jid = job_directory root jid @ ''/meta''"

interpretation meta_file: stored_text meta_to_text "\<lambda>txt. ok_value (text_to_meta txt)" meta_ok
  "meta_path root" for root
  by unfold_locales

lemma pid_of_text_dec:
  assumes "0 \<le> n" and "n < 2 ^ 31"
  shows "pid_of_text (dec_int n @ [NL]) = Inr n"
proof -
  obtain k where n: "n = int k" and k: "k < 2 ^ 31" "k < 2 ^ 64"
    using assms nonneg_int_cases [of n] by force
  have "dec_int n = dec_nat k" by (simp add: n dec_int_def)
  moreover have "is_digit (last (dec_nat k))"
    using dec_nat_digits [of k] by simp
  then have "\<not> (last (dec_nat k) = NL \<or> last (dec_nat k) = CR)"
    by (auto simp: is_digit_of_char)
  then have "strip_back (\<lambda>c. c = NL \<or> c = CR) (dec_nat k) = dec_nat k"
    by (intro strip_back_id) simp
  moreover have "\<not> 0x7fffffff < (word_of_nat k :: u64)" "uint (word_of_nat k :: u64) = n"
    using k n unat_of_nat_u64 [OF k(2)] uint_of_nat_u64 [OF k(2)] by (simp_all add: word_less_nat_alt)
  ultimately show ?thesis
    using strip_back_snoc [of "\<lambda>c. c = NL \<or> c = CR" NL "dec_nat k"] k
    by (simp add: pid_of_text_def parse_u64_dec_nat)
qed

interpretation pid_file: stored_text "\<lambda>n. dec_int n @ [NL]" "\<lambda>txt. ok_value (pid_of_text txt)"
  "\<lambda>n. 0 \<le> n \<and> n < 2 ^ 31" pid_file_path
  by unfold_locales (simp add: pid_of_text_dec)

section \<open>Properties\<close>

text \<open>C2. \<^verbatim>\<open>atomic_write_file\<close> is atomic under a crash at any moment: whichever system calls
  fail or are interrupted, a crash after any prefix of the run leaves the name with its old contents
  or the whole new data, and once the call has returned success a crash leaves the new data and
  nothing else.\<close>

theorem atomic_write_crash_safe:
  assumes "faithful D0 K" and "NUL \<notin> set path"
    and "settled (disk_of D0 h) (split_last path)"
    and "atomic_write_file K path data h = Some (r, h')"
  shows "throughout (\<lambda>m. crash_contents (disk_of D0 m) (split_last path)
           \<subseteq> {contents (disk_of D0 h) (split_last path), Some (text_bytes data)}) h h' \<and>
         (r = Inr () \<longrightarrow> crash_contents (disk_of D0 h') (split_last path) = {Some (text_bytes data)})"
proof -
  let ?l = "split_last path"
  have old: "map_option (\<lambda>_. case contents (disk_of D0 h) ?l of Some b \<Rightarrow> b | None \<Rightarrow> [])
      (d_names (disk_of D0 h) ?l) = contents (disk_of D0 h) ?l"
    by (cases "d_names (disk_of D0 h) ?l") (simp_all add: contents_def)
  note atomic_write_finishes [OF assms(1,2) settled_untouched [OF assms(3)] assms(4)]
  then show ?thesis
    by (auto simp: finished_def old_or_new_def old settled_crash_contents dest!: untouched_settled)
qed

theorem atomic_write_crash_safe_witness:
  "\<exists>h'. atomic_write_file (ext_kernel empty_disk) ''/w/f'' ''hi'' [] = Some (Inr (), h') \<and>
     crash_contents (disk_of empty_disk h') (''/w'', ''f'') = {Some (text_bytes ''hi'')}"
proof -
  have "case atomic_write_file (ext_kernel empty_disk) ''/w/f'' ''hi'' [] of
      Some (Inr (), h) \<Rightarrow> True | _ \<Rightarrow> False"
    by code_simp
  then obtain h' where
    run: "atomic_write_file (ext_kernel empty_disk) ''/w/f'' ''hi'' [] = Some (Inr (), h')"
    by (auto split: option.splits sum.splits)
  have "split_last ''/w/f'' = (''/w'', ''f'')" by code_simp
  then show ?thesis
    using atomic_write_crash_safe [OF ext_kernel_faithful _ _ run] run
    by (auto simp: settled_def empty_disk_def) (simp_all flip: empty_disk_def)
qed


definition small_meta :: meta where
  "small_meta = empty_meta\<lparr>m_id := 1, m_op := ''count''\<rparr>"

lemma small_meta_ok: "meta_ok small_meta" "m_id small_meta = 1"
  by (simp_all add: small_meta_def meta_ok_def empty_meta_def line_ok_def i32_range_def i64_range_def)

lemma small_meta_short: "length (meta_to_text small_meta) \<le> text_limit"
proof -
  have "length (meta_to_text small_meta) < 300" by code_simp
  then show ?thesis by (simp add: text_limit_def)
qed


end
