(* ===== verification/Job_Ids.thy ===== *)
theory Job_Ids
  imports Durability
begin

text \<open>
  \<^verbatim>\<open>allocate_job_id\<close> hands out the ids of \<^verbatim>\<open>next_id\<close> one after the other. The lemmas follow
  one allocation on the disk of its history; the properties say that successive allocations
  give successive ids, and where the code falls short of that.
\<close>

definition next_id_location :: "string \<Rightarrow> location" where
  "next_id_location root = (if root = [] then ''/'' else root, ''next_id'')"

lemma split_next_id: "split_last (root @ ''/next_id'') = next_id_location root"
  using split_last_append [of "''next_id''" root] by (simp add: next_id_location_def)

text \<open>The last id handed out: 0 when there is no file yet.\<close>

definition last_id :: "disk \<Rightarrow> string \<Rightarrow> u64 \<Rightarrow> bool" where
  "last_id D root n \<longleftrightarrow>
     (n = 0 \<and> contents D (next_id_location root) = None) \<or>
     contents D (next_id_location root) = Some (text_bytes (dec_u64 n @ [NL]))"

lemma length_dec_nat: "n < 10 ^ k \<Longrightarrow> 0 < k \<Longrightarrow> length (dec_nat n) \<le> k"
proof (induction k arbitrary: n)
  case (Suc k)
  show ?case
  proof (cases "n < 10")
    case True
    then show ?thesis by (simp add: dec_nat.simps)
  next
    case False
    have "k \<noteq> 0" using Suc.prems False by (cases k) auto
    moreover have "n div 10 < 10 ^ k" using Suc.prems(1) by (simp add: less_mult_imp_div_less mult.commute)
    ultimately have "length (dec_nat (n div 10)) \<le> k" using Suc.IH by simp
    then show ?thesis using False by (subst dec_nat.simps) simp
  qed
qed simp

lemma length_dec_u64: "length (dec_u64 n) \<le> 20"
proof -
  have "unat n < 10 ^ 20" by (rule less_le_trans [OF unat_u64_less]) simp
  then show ?thesis unfolding dec_u64_def by (rule length_dec_nat) simp
qed

lemma next_id_of_dec: "next_id_of (dec_u64 n @ [NL]) = Inr (n + 1)"
proof -
  have "is_digit (last (dec_u64 n))"
    using dec_nat_digits [of "unat n"] by (simp add: dec_u64_def)
  then have "\<not> (last (dec_u64 n) = NL \<or> last (dec_u64 n) = NUL)"
    by (auto simp: is_digit_of_char)
  then have "strip_back (\<lambda>c. c = NL \<or> c = NUL) (dec_u64 n) = dec_u64 n"
    by (intro strip_back_id) simp
  then show ?thesis
    using strip_back_snoc [of "\<lambda>c. c = NL \<or> c = NUL" NL "dec_u64 n"] by (simp add: next_id_of_def)
qed

lemma lock_record_disk:
  "lock_record K f h = Some y \<Longrightarrow> disk_of D0 (snd y) = disk_of D0 h"
proof (induction rule: lock_record.raw_induct [rotated, consumes 1, case_names step])
  case (step rec K f h y)
  have lock: "disk_step (Fs (RecordLock f b), a) D = D" for a b D
    by (simp add: disk_step_def fs_step_def)
  from step.hyps show ?case
    by (auto simp: sys_defs lock split: option.splits if_splits dest!: step.IH)
qed

text \<open>The file after the update.\<close>

definition full_pwrites :: "kernel \<Rightarrow> bool" where
  "full_pwrites K \<longleftrightarrow> (\<forall>h f b off n. k_count K h (Fs (Pwrite f b off)) = Inr n \<longrightarrow> n = length b)"

definition holding :: "disk \<Rightarrow> fd \<Rightarrow> location \<Rightarrow> bytes \<Rightarrow> bool" where
  "holding D f l b \<longleftrightarrow> (\<exists>i. d_files D f = Some i \<and> d_names D l = Some i \<and> d_data D i = b)"

lemma holding_contents: "holding D f l b \<Longrightarrow> contents D l = Some b"
  by (auto simp: holding_def contents_def)

lemma update_next_id_holds:
  assumes "update_next_id K f body h = (None, h')" and "full_pwrites K"
    and "holding (disk_of D0 h) f l b"
  shows "holding (disk_of D0 h') f l body"
  using assms
  by (auto simp: update_next_id_def sys_defs holding_def full_pwrites_def disk_step_def fs_step_def
      set_data_def sync_fd_def write_at_def split: option.splits sum.splits)

definition preads_succeed :: "kernel \<Rightarrow> bool" where
  "preads_succeed K \<longleftrightarrow> (\<forall>h f n off e. k_buf K h (Fs (Pread f n off)) \<noteq> Inl e)"

definition id_text :: "u64 \<Rightarrow> bytes" where
  "id_text n = text_bytes (dec_u64 n @ [NL])"

lemma id_text_nonempty [simp]: "id_text n \<noteq> []"
  by (simp add: id_text_def text_bytes_def)

lemma open_next_id_holds:
  assumes "last_id D root n"
  shows "\<exists>b. (b = [] \<and> n = 0 \<or> b = id_text n) \<and>
     holding (disk_step (Fs (Open (root @ ''/next_id'') [O_RDWR, O_CREAT, O_CLOEXEC]), Num (Inr f)) D)
       f (next_id_location root) b"
  using assms
  by (cases "d_names D (next_id_location root)")
    (auto simp: last_id_def holding_def disk_step_def fs_step_def split_next_id open_file_def
      bind_fd_def set_data_def set_name_def contents_def id_text_def)

lemma pread_next_id:
  assumes K: "faithful D0 K" "preads_succeed K" and hold: "holding (disk_of D0 h) f l b"
    and b: "b = [] \<and> n = 0 \<or> b = id_text n"
  shows "(case k_buf K h (Fs (Pread f 63 0)) of Inl _ \<Rightarrow> Inr 1
     | Inr b \<Rightarrow> if b = [] then Inr 1 else next_id_of (bytes_text b)) = Inr (n + 1)"
proof -
  have "\<not> isl (k_buf K h (Fs (Pread f 63 0)))"
    using K(2) by (metis preads_succeed_def sum.collapse(1))
  then obtain d where d: "k_buf K h (Fs (Pread f 63 0)) = Inr d"
    by (metis sum.collapse(2))
  moreover obtain i where i: "d_files (disk_of D0 h) f = Some i" "d_data (disk_of D0 h) i = b"
    using hold by (auto simp: holding_def)
  ultimately have "d = take 63 (drop 0 (d_data (disk_of D0 h) i))"
    using faithful_parts(6) [OF K(1)] unfolding true_preads_def by blast
  then have "d = take 63 b" using i by simp
  moreover have "length (id_text n) \<le> 21" using length_dec_u64 [of n] by (simp add: id_text_def)
  ultimately have "d = b" using b by auto
  with d b id_text_nonempty [of n] show ?thesis
    by (auto simp: id_text_def next_id_of_dec simp del: id_text_nonempty)
qed

lemma allocate_one:
  assumes K: "faithful D0 K" "preads_succeed K" "full_pwrites K" and nul: "NUL \<notin> set root"
    and last: "last_id (disk_of D0 h) root n"
    and run: "allocate_job_id K root h = Some (Inr jid, h')"
  shows "jid = n + 1 \<and> last_id (disk_of D0 h') root (n + 1)"
proof -
  let ?c = "Fs (Open (root @ ''/next_id'') [O_RDWR, O_CREAT, O_CLOEXEC])"
  let ?l = "next_id_location root"
  obtain f where f: "k_num K h ?c = Inr f"
  proof (cases "k_num K h ?c")
    case (Inl x)
    then show ?thesis using run nul by (simp add: allocate_job_id_def sys_open_def sys_num_def)
  qed
  let ?h1 = "h @ [(?c, Num (Inr f))]"
  have "\<exists>b. (b = [] \<and> n = 0 \<or> b = id_text n) \<and> holding (disk_of D0 ?h1) f ?l b"
    using open_next_id_holds [OF last, of f] by simp
  then obtain b where b: "b = [] \<and> n = 0 \<or> b = id_text n" "holding (disk_of D0 ?h1) f ?l b"
    by blast
  obtain h2 where h2: "lock_record K f ?h1 = Some (None, h2)"
  proof (cases "lock_record K f ?h1")
    case None
    then show ?thesis using run nul f by (simp add: allocate_job_id_def sys_open_def sys_num_def)
  next
    case (Some y)
    then show ?thesis
      using run nul f that
      by (cases "fst y"; cases y) (simp_all add: allocate_job_id_def sys_open_def sys_num_def)
  qed
  have hold2: "holding (disk_of D0 h2) f ?l b"
    using lock_record_disk [OF h2, of D0] b(2) by simp
  let ?h3 = "h2 @ [(Fs (Pread f 63 0), Buf (k_buf K h2 (Fs (Pread f 63 0))))]"
  have pread: "disk_step (Fs (Pread f m off), a) D = D" for m off a D
    by (simp add: disk_step_def fs_step_def)
  have hold3: "holding (disk_of D0 ?h3) f ?l b" using hold2 by (simp add: pread)
  note id = pread_next_id [OF K(1,2) hold2 b(1)]
  obtain h4 where up: "update_next_id K f (id_text (n + 1)) ?h3 = (None, h4)"
    and res: "jid = n + 1" "h' = sys_close K f (sys_do K (Fs (RecordLock f False)) h4)"
    using run nul f h2 id
    by (auto simp: allocate_job_id_def sys_open_def sys_num_def sys_buf_def Let_def id_text_def
        split: option.splits prod.splits)
  have "holding (disk_of D0 h4) f ?l (id_text (n + 1))"
    by (rule update_next_id_holds [OF up K(3) hold3])
  from holding_contents [OF this] have "contents (disk_of D0 h') ?l = Some (id_text (n + 1))"
    by (simp add: res sys_close_def sys_defs disk_step_def fs_step_def contents_def close_fd_def)
  with res show ?thesis by (simp add: last_id_def id_text_def)
qed

text \<open>A run of \<open>k\<close> allocations that all succeed.\<close>

fun allocate_ids :: "kernel \<Rightarrow> string \<Rightarrow> nat \<Rightarrow> hist \<Rightarrow> (u64 list \<times> hist) option" where
  "allocate_ids K root 0 h = Some ([], h)"
| "allocate_ids K root (Suc k) h =
     (case allocate_job_id K root h of
        Some (Inr jid, h) \<Rightarrow>
          do { (ids, h) \<leftarrow> allocate_ids K root k h; Some (jid # ids, h) }
      | _ \<Rightarrow> None)"

lemma allocate_ids_count:
  assumes "faithful D0 K" "preads_succeed K" "full_pwrites K" and "NUL \<notin> set root"
    and "last_id (disk_of D0 h) root n" and "unat n + k < 2 ^ 64"
    and "allocate_ids K root k h = Some (ids, h')"
  shows "map unat ids = [Suc (unat n)..<Suc (unat n + k)]"
  using assms(5-7)
proof (induction k arbitrary: n h ids)
  case (Suc k)
  obtain jid h1 js where s: "allocate_job_id K root h = Some (Inr jid, h1)"
    "allocate_ids K root k h1 = Some (js, h')" "ids = jid # js"
    using Suc.prems(3) by (auto split: option.splits sum.splits simp: bind_Some_conv)
  note one = allocate_one [OF assms(1-4) Suc.prems(1) s(1)]
  have n: "unat (n + 1) = Suc (unat n)"
    using Suc.prems(2) by (subst unat_u64_add) simp_all
  have "map unat js = [Suc (unat (n + 1))..<Suc (unat (n + 1) + k)]"
    by (rule Suc.IH [OF _ _ s(2)]) (use one Suc.prems(2) n in simp_all)
  then show ?case
    using one s(3) n by (simp add: upt_conv_Cons del: upt_Suc)
qed simp

section \<open>Properties\<close>

text \<open>C20. Successive allocations give successive ids, so no id is handed out twice: from the last id
  \<open>n\<close> on disk, \<open>k\<close> allocations give \<open>n+1\<close> to \<open>n+k\<close>, as long as they stay below \<open>2^64\<close>, no
  read of \<^verbatim>\<open>next_id\<close> fails and its writes are complete.\<close>

theorem allocated_ids_distinct:
  assumes "faithful D0 K" and "preads_succeed K" and "full_pwrites K" and "NUL \<notin> set root"
    and "last_id (disk_of D0 h) root n" and "unat n + k < 2 ^ 64"
    and "allocate_ids K root k h = Some (ids, h')"
  shows "map unat ids = [Suc (unat n)..<Suc (unat n + k)] \<and> distinct ids"
proof -
  note count = allocate_ids_count [OF assms]
  then have "distinct (map unat ids)" by (simp only: distinct_upt)
  then show ?thesis using count unfolding distinct_map by blast
qed

theorem allocated_ids_distinct_witness:
  "\<exists>ids h'. allocate_ids (ext_kernel empty_disk) ''/w'' 3 [] = Some (ids, h') \<and>
     map unat ids = [1, 2, 3] \<and> distinct ids"
proof -
  let ?K = "ext_kernel empty_disk"
  have K: "faithful empty_disk ?K" by (rule ext_kernel_faithful) simp_all
  have io: "preads_succeed ?K" "full_pwrites ?K"
    by (simp_all add: full_pwrites_def preads_succeed_def ext_kernel_def ext_count_def ext_buf_def
        Let_def split: option.split)
  have "allocate_ids ?K ''/w'' 3 [] \<noteq> None"
    by code_simp
  then obtain ids h' where run: "allocate_ids ?K ''/w'' 3 [] = Some (ids, h')" by auto
  have "last_id (disk_of empty_disk []) ''/w'' 0"
    by (simp add: last_id_def contents_def empty_disk_def)
  from allocated_ids_distinct [OF K io _ this _ run] run show ?thesis
    by (auto simp: upt_rec)
qed

text \<open>C36. A read of \<^verbatim>\<open>next_id\<close> that fails is taken for an empty file: whatever id the file
  holds, the allocation then succeeds with id 1 and overwrites the file, so ids that are in use
  are handed out again.\<close>

theorem failed_read_restarts_ids:
  assumes "NUL \<notin> set root"
    and "k_num K h (Fs (Open (root @ ''/next_id'') [O_RDWR, O_CREAT, O_CLOEXEC])) = Inr f"
    and "\<And>h c. k_done K h c = None"
    and "\<And>h. k_count K h (Fs (Pwrite f (id_text 1) 0)) = Inr 2"
    and "\<And>h. k_buf K h (Fs (Pread f 63 0)) = Inl EIO"
  shows "\<exists>h'. allocate_job_id K root h = Some (Inr 1, h')"
  using assms
  by (simp add: allocate_job_id_def sys_open_def sys_defs lock_record.simps update_next_id_def id_text_def)

definition bad_sector_kernel :: kernel where
  "bad_sector_kernel = (ext_kernel empty_disk)\<lparr>k_buf := \<lambda>_ _. Inl EIO\<rparr>"

theorem failed_read_restarts_ids_witness:
  "\<exists>h'. allocate_job_id bad_sector_kernel ''/w'' [] = Some (Inr 1, h')"
proof (rule failed_read_restarts_ids)
  have "length (id_text 1) = 2" by code_simp
  then show "k_count bad_sector_kernel h (Fs (Pwrite 3 (id_text 1) 0)) = Inr 2" for h
    by (simp add: bad_sector_kernel_def ext_kernel_def ext_count_def)
  show "k_num bad_sector_kernel [] (Fs (Open (''/w'' @ ''/next_id'') [O_RDWR, O_CREAT, O_CLOEXEC])) = Inr 3"
    by (simp add: bad_sector_kernel_def ext_kernel_def ext_num_def next_fd_def)
qed (simp_all add: bad_sector_kernel_def ext_kernel_def)

end
