(* ===== verification/Platform_Contracts.thy ===== *)
theory Platform_Contracts
  imports Kernel
begin

text \<open>
  What the engine relies on at the platform line (\<^verbatim>\<open>os/platform.hpp\<close>), as interfaces that both
  implementations provide: the timers of the poller, and the notification channel between the workers
  and the controller. The consequences are proved once here; \<open>Platform\<close> (Linux) and \<open>Mac_Platform\<close>
  interpret them.
\<close>

section \<open>Timers\<close>

text \<open>A run of calls of \<^verbatim>\<open>watch_timer\<close> and \<^verbatim>\<open>unwatch_timer\<close>, with the ids it was given.\<close>

datatype timer_call = Arm u64 u64 u64 | Disarm int

type_synonym 'p watcher = "kernel \<Rightarrow> 'p \<Rightarrow> u64 \<Rightarrow> u64 \<Rightarrow> u64 \<Rightarrow> hist \<Rightarrow> ((string + int) \<times> 'p) \<times> hist"
type_synonym 'p unwatcher = "kernel \<Rightarrow> 'p \<Rightarrow> int \<Rightarrow> hist \<Rightarrow> 'p \<times> hist"

fun run_timers ::
    "'p watcher \<Rightarrow> 'p unwatcher \<Rightarrow> kernel \<Rightarrow> timer_call list \<Rightarrow> 'p \<Rightarrow> hist \<Rightarrow> int list \<times> 'p \<times> hist" where
  "run_timers W U K [] p h = ([], p, h)"
| "run_timers W U K (Arm token first_ms every_ms # cs) p h =
     (case W K p token first_ms every_ms h of
        ((Inl err, p), h) \<Rightarrow> run_timers W U K cs p h
      | ((Inr tid, p), h) \<Rightarrow> (case run_timers W U K cs p h of (ids, p, h) \<Rightarrow> (tid # ids, p, h)))"
| "run_timers W U K (Disarm tid # cs) p h = (case U K p tid h of (p, h) \<Rightarrow> run_timers W U K cs p h)"

locale timer_table =
  fixes ok :: "'p \<Rightarrow> bool" and live :: "'p \<Rightarrow> int \<Rightarrow> u64 option" and next_id :: "'p \<Rightarrow> int"
    and watch :: "'p watcher" and unwatch :: "'p unwatcher"
  assumes live_below: "ok p \<Longrightarrow> live p i = Some t \<Longrightarrow> i < next_id p"
    and watched: "watch K p t a b h = ((Inr i, p'), h') \<Longrightarrow> ok p \<Longrightarrow>
      ok p' \<and> i = next_id p \<and> next_id p' = next_id p + 1 \<and> live p' = (live p)(i \<mapsto> t)"
    and refused: "watch K p t a b h = ((Inl e, p'), h') \<Longrightarrow> ok p \<Longrightarrow>
      ok p' \<and> next_id p \<le> next_id p' \<and> live p' = live p"
    and unwatched: "unwatch K p i h = (p', h') \<Longrightarrow> ok p \<Longrightarrow>
      ok p' \<and> next_id p' = next_id p \<and> live p' = (live p)(i := None)"
begin

lemma run_ok: "run_timers watch unwatch K cs p h = (ids, p', h') \<Longrightarrow> ok p \<Longrightarrow>
   ok p' \<and> next_id p \<le> next_id p' \<and> sorted_wrt (<) ids \<and> (\<forall>i \<in> set ids. next_id p \<le> i \<and> i < next_id p')"
proof (induction cs arbitrary: ids p h)
  case (Cons c cs)
  show ?case
  proof (cases c)
    case (Arm t a b)
    obtain r p1 h1 where w: "watch K p t a b h = ((r, p1), h1)" by (metis prod.exhaust)
    show ?thesis
    proof (cases r)
      case (Inl e)
      then have "run_timers watch unwatch K cs p1 h1 = (ids, p', h')" using Cons.prems Arm w by simp
      with Cons.IH refused [OF w [unfolded Inl] Cons.prems(2)] show ?thesis by fastforce
    next
      case (Inr i)
      then obtain js where "run_timers watch unwatch K cs p1 h1 = (js, p', h')" "ids = i # js"
        using Cons.prems Arm w by (auto split: prod.splits)
      with Cons.IH watched [OF w [unfolded Inr] Cons.prems(2)] show ?thesis by fastforce
    qed
  next
    case (Disarm i)
    obtain p1 h1 where u: "unwatch K p i h = (p1, h1)" by fastforce
    with Cons unwatched [OF u] Disarm show ?thesis by fastforce
  qed
qed auto

lemma run_live: "run_timers watch unwatch K cs p h = (ids, p', h') \<Longrightarrow> ok p \<Longrightarrow>
   live p i = Some t \<Longrightarrow> Disarm i \<notin> set cs \<Longrightarrow> live p' i = Some t"
proof (induction cs arbitrary: ids p h)
  case (Cons c cs)
  note below = live_below [OF Cons.prems(2,3)]
  show ?case
  proof (cases c)
    case (Arm t' a b)
    obtain r p1 h1 where w: "watch K p t' a b h = ((r, p1), h1)" by (metis prod.exhaust)
    show ?thesis
    proof (cases r)
      case (Inl e)
      with Cons Arm w refused [OF w [unfolded Inl] Cons.prems(2)] show ?thesis by fastforce
    next
      case (Inr j)
      then obtain js where "run_timers watch unwatch K cs p1 h1 = (js, p', h')"
        using Cons.prems Arm w by (auto split: prod.splits)
      with Cons watched [OF w [unfolded Inr] Cons.prems(2)] below show ?thesis by fastforce
    qed
  next
    case (Disarm j)
    obtain p1 h1 where u: "unwatch K p j h = (p1, h1)" by fastforce
    with Cons unwatched [OF u] Disarm show ?thesis by fastforce
  qed
qed auto

end

section \<open>Notifications\<close>

fun notify_times :: "(kernel \<Rightarrow> fd \<Rightarrow> hist \<Rightarrow> bool \<times> hist) \<Rightarrow> kernel \<Rightarrow> fd \<Rightarrow> nat \<Rightarrow> hist \<Rightarrow> bool \<times> hist" where
  "notify_times send K w 0 h = (True, h)"
| "notify_times send K w (Suc n) h =
     (case send K w h of (ok, h) \<Rightarrow> case notify_times send K w n h of (oks, h) \<Rightarrow> (ok \<and> oks, h))"

text \<open>\<open>good K r w\<close> says that the kernel treats \<open>r\<close> and \<open>w\<close> as the two ends of one channel that
  holds at least \<open>room\<close> notifications; \<open>pending\<close> is what a history has left in it.\<close>

locale notify_channel =
  fixes good :: "kernel \<Rightarrow> fd \<Rightarrow> fd \<Rightarrow> bool" and pending :: "fd \<Rightarrow> fd \<Rightarrow> hist \<Rightarrow> nat" and room :: nat
    and send :: "kernel \<Rightarrow> fd \<Rightarrow> hist \<Rightarrow> bool \<times> hist"
    and recv :: "kernel \<Rightarrow> fd \<Rightarrow> hist \<Rightarrow> ((bool \<times> u64) \<times> hist) option"
  assumes write_adds: "good K r w \<Longrightarrow> pending r w h < room \<Longrightarrow> send K w h = (b, h') \<Longrightarrow>
      b \<and> pending r w h' = Suc (pending r w h)"
    and write_full: "good K r w \<Longrightarrow> send K w h = (b, h') \<Longrightarrow> b \<and> pending r w h \<le> pending r w h'"
    and read_takes: "good K r w \<Longrightarrow>
      \<exists>h'. recv K r h = Some ((True, word_of_nat (pending r w h)), h') \<and> pending r w h' = 0"
begin

lemma writes_add: "good K r w \<Longrightarrow> pending r w h + n \<le> room \<Longrightarrow>
   \<exists>h'. notify_times send K w n h = (True, h') \<and> pending r w h' = pending r w h + n"
proof (induction n arbitrary: h)
  case (Suc n)
  obtain b h1 where w: "send K w h = (b, h1)" by fastforce
  have "b" "pending r w h1 = Suc (pending r w h)" using write_adds [OF Suc.prems(1) _ w] Suc.prems(2) by auto
  with Suc.IH [of h1] Suc.prems w show ?case by auto
qed simp

lemma received: "good K r w \<Longrightarrow> pending r w h = 0 \<Longrightarrow> n \<le> room \<Longrightarrow>
   \<exists>h1 h2. notify_times send K w n h = (True, h1) \<and> recv K r h1 = Some ((True, word_of_nat n), h2) \<and>
     pending r w h2 = 0"
  using writes_add [of K r w h n] read_takes [of K r w] by (metis add_0)

end

end
