(* ===== verification/Platform.thy ===== *)
theory Platform
  imports Store Platform_Contracts "HOL-Library.AList"
begin

text \<open>
  The Linux side of the platform line (\<^verbatim>\<open>os/linux/platform.cpp\<close>): the poller over epoll, signalfd
  and timerfd, the shared mapping over a memfd, and the notification counter. A \<^verbatim>\<open>UniqueFd\<close> is
  the number it holds, \<open>-1\<close> when it is empty. An \<^verbatim>\<open>unordered_map\<close> is an association list; where the
  code iterates over one, the order of the list is the order of the iteration, and no property
  depends on it.
\<close>

section \<open>The poller\<close>

record timer_slot =
  ts_fd :: fd
  ts_token :: u64

record poller =
  p_ep :: fd
  p_sig :: fd
  p_signal_token :: u64
  p_signals_watched :: bool
  p_next_timer :: int
  p_timers :: "(int \<times> timer_slot) list"
  p_token_to_timer :: "(u64 \<times> int) list"

definition empty_poller :: poller where
  "empty_poller = \<lparr>p_ep = -1, p_sig = -1, p_signal_token = 0, p_signals_watched = False,
     p_next_timer = 1, p_timers = [], p_token_to_timer = []\<rparr>"

definition fd_or_none :: "errno + fd \<Rightarrow> fd" where
  "fd_or_none r = (case r of Inl _ \<Rightarrow> -1 | Inr f \<Rightarrow> f)"

definition poller_open :: "kernel \<Rightarrow> poller \<Rightarrow> hist \<Rightarrow> ((string + unit) \<times> poller) \<times> hist" where
  "poller_open K p h =
     (let (b, h) = sys_done K (Poll BlockSignals) h in
      case b of
        Some e \<Rightarrow> ((Inl (''sigprocmask: '' @ errno_string K e), p), h)
      | None \<Rightarrow>
         (let (s, h) = sys_num K (Poll SignalFd) h;
              (ep, h) = sys_num K (Poll EpollCreate) h;
              p = p\<lparr>p_sig := fd_or_none s, p_ep := fd_or_none ep\<rparr> in
          case ep of
            Inl e \<Rightarrow> ((Inl (''epoll/signalfd: '' @ errno_string K e), p), h)
          | Inr _ \<Rightarrow>
             (case s of
                Inl e \<Rightarrow> ((Inl (''epoll/signalfd: '' @ errno_string K e), p), h)
              | Inr _ \<Rightarrow> ((Inr (), p), h))))"

definition watch_fd ::
    "kernel \<Rightarrow> poller \<Rightarrow> fd \<Rightarrow> u64 \<Rightarrow> hist \<Rightarrow> ((string + unit) \<times> poller) \<times> hist" where
  "watch_fd K p f token h =
     (let (r, h) = sys_done K (Poll (EpollAdd (p_ep p) f token)) h in
      case r of
        Some e \<Rightarrow> ((Inl (''epoll_ctl: '' @ errno_string K e), p), h)
      | None \<Rightarrow>
          ((Inr (), if f = p_sig p then p\<lparr>p_signal_token := token, p_signals_watched := True\<rparr> else p), h))"

definition watch_signals ::
    "kernel \<Rightarrow> poller \<Rightarrow> u64 \<Rightarrow> hist \<Rightarrow> ((string + unit) \<times> poller) \<times> hist" where
  "watch_signals K p token h = watch_fd K p (p_sig p) token h"

definition unwatch_fd :: "kernel \<Rightarrow> poller \<Rightarrow> fd \<Rightarrow> hist \<Rightarrow> hist" where
  "unwatch_fd K p f h =
     (if f < 0 \<or> p_ep p < 0 then h else sys_do K (Poll (EpollDel (p_ep p) f)) h)"

text \<open>Milliseconds as the seconds and nanoseconds of an \<^verbatim>\<open>itimerspec\<close>. A first expiry of 0 would
  disarm the timer, so it becomes a nanosecond.\<close>

definition timer_value :: "u64 \<Rightarrow> u64 \<times> u64" where
  "timer_value first_ms =
     (let sec = first_ms div 1000; nsec = (first_ms mod 1000) * 1000000 in
      if sec = 0 \<and> nsec = 0 then (sec, 1) else (sec, nsec))"

definition timer_interval :: "u64 \<Rightarrow> u64 \<times> u64" where
  "timer_interval every_ms =
     (if 0 < every_ms then (every_ms div 1000, (every_ms mod 1000) * 1000000) else (0, 0))"

definition watch_timer ::
    "kernel \<Rightarrow> poller \<Rightarrow> u64 \<Rightarrow> u64 \<Rightarrow> u64 \<Rightarrow> hist \<Rightarrow> ((string + int) \<times> poller) \<times> hist" where
  "watch_timer K p token first_ms every_ms h =
     (let (t, h) = sys_num K (Poll TimerFdCreate) h in
      case t of
        Inl e \<Rightarrow> ((Inl (''timerfd_create: '' @ errno_string K e), p), h)
      | Inr tfd \<Rightarrow>
         (let (sec, nsec) = timer_value first_ms;
              (isec, insec) = timer_interval every_ms;
              (r, h) = sys_done K (Poll (TimerFdSet tfd sec nsec isec insec)) h in
          case r of
            Some e \<Rightarrow> ((Inl (''timerfd_settime: '' @ errno_string K e), p), sys_close K tfd h)
          | None \<Rightarrow>
             (case watch_fd K p tfd token h of
                ((Inl err, p), h) \<Rightarrow> ((Inl err, p), sys_close K tfd h)
              | ((Inr _, p), h) \<Rightarrow>
                 (let tid = p_next_timer p;
                      slot = \<lparr>ts_fd = tfd, ts_token = token\<rparr> in
                  ((Inr tid,
                    p\<lparr>p_next_timer := tid + 1,
                      p_token_to_timer := AList.update token tid (p_token_to_timer p),
                      p_timers := (if map_of (p_timers p) tid = None
                                   then (tid, slot) # p_timers p else p_timers p)\<rparr>), h)))))"

definition unwatch_timer :: "kernel \<Rightarrow> poller \<Rightarrow> int \<Rightarrow> hist \<Rightarrow> poller \<times> hist" where
  "unwatch_timer K p tid h =
     (case map_of (p_timers p) tid of
        None \<Rightarrow> (p, h)
      | Some slot \<Rightarrow>
         (let h = unwatch_fd K p (ts_fd slot) h;
              h = sys_close K (ts_fd slot) h in
          (p\<lparr>p_token_to_timer := AList.delete (ts_token slot) (p_token_to_timer p),
             p_timers := AList.delete tid (p_timers p)\<rparr>, h)))"

record wait_event =
  we_token :: u64
  we_signo :: int

text \<open>The loop over the descriptors \<^verbatim>\<open>epoll_wait\<close> reported: a signal is read, a timer is
  drained, and anything else is left to its owner.\<close>

fun wait_loop :: "kernel \<Rightarrow> poller \<Rightarrow> u64 list \<Rightarrow> hist \<Rightarrow> wait_event list \<times> hist" where
  "wait_loop K p [] h = ([], h)"
| "wait_loop K p (token # raw) h =
     (if p_signals_watched p \<and> token = p_signal_token p then
        (case sys_num K (Poll (ReadSignal (p_sig p))) h of
           (Inl _, h) \<Rightarrow> wait_loop K p raw h
         | (Inr signo, h) \<Rightarrow>
             (case wait_loop K p raw h of
                (evs, h) \<Rightarrow> (\<lparr>we_token = token, we_signo = cast_i32 signo\<rparr> # evs, h)))
      else
        (let h = (case map_of (p_token_to_timer p) token of
                    None \<Rightarrow> h
                  | Some tid \<Rightarrow>
                     (case map_of (p_timers p) tid of
                        None \<Rightarrow> h
                      | Some slot \<Rightarrow> sys_do K (Poll (ReadTimer (ts_fd slot))) h)) in
         case wait_loop K p raw h of
           (evs, h) \<Rightarrow> (\<lparr>we_token = token, we_signo = 0\<rparr> # evs, h)))"

definition poller_wait ::
    "kernel \<Rightarrow> poller \<Rightarrow> nat \<Rightarrow> hist \<Rightarrow> (string + wait_event list) \<times> hist" where
  "poller_wait K p cap h =
     (let ncap = (if cap < 16 then cap else 16);
          (r, h) = sys_events K (Poll (EpollWait (p_ep p) ncap)) h in
      case r of
        Inl e \<Rightarrow> if e = EINTR then (Inr [], h) else (Inl (''epoll_wait: '' @ errno_string K e), h)
      | Inr raw \<Rightarrow> (case wait_loop K p (take cap raw) h of (evs, h) \<Rightarrow> (Inr evs, h)))"

definition inherited_fds :: "poller \<Rightarrow> fd list" where
  "inherited_fds p =
     (if 0 \<le> p_ep p then [p_ep p] else []) @ (if 0 \<le> p_sig p then [p_sig p] else []) @
     filter (\<lambda>f. 0 \<le> f) (map (\<lambda>(_, slot). ts_fd slot) (p_timers p))"

section \<open>The shared mapping\<close>

record shared_map =
  sm_fd :: fd
  sm_mapped :: bool

definition no_map :: shared_map where
  "no_map = \<lparr>sm_fd = -1, sm_mapped = False\<rparr>"

text \<open>\<^verbatim>\<open>sizeof(SharedRegion)\<close>: three cache lines and the slots of \<^verbatim>\<open>kMaxWorkers\<close> chunks, each
  aligned to 64 bytes.\<close>

definition region_size :: nat where "region_size = 192 + 16 * 320"

definition create_shared_map :: "kernel \<Rightarrow> hist \<Rightarrow> ((string + unit) \<times> shared_map) \<times> hist" where
  "create_shared_map K h =
     (let (m, h) = sys_num K (Shm MemfdCreate) h in
      case m of
        Inl e \<Rightarrow> ((Inl (''memfd_create: '' @ errno_string K e), no_map), h)
      | Inr f \<Rightarrow>
         (let (t, h) = sys_done K (Fs (Ftruncate f region_size)) h in
          case t of
            Some e \<Rightarrow> ((Inl (''memfd_create: '' @ errno_string K e), no_map\<lparr>sm_fd := f\<rparr>), h)
          | None \<Rightarrow>
             (let (a, h) = sys_done K (Shm (MapShared f)) h in
              case a of
                Some e \<Rightarrow> ((Inl (''mmap memfd: '' @ errno_string K e), no_map\<lparr>sm_fd := f\<rparr>), h)
              | None \<Rightarrow>
                  ((Inr (), \<lparr>sm_fd = f, sm_mapped = True\<rparr>),
                   sys_do K (Shm (StoreRegion f zero_region)) h))))"

definition destroy_shared_map :: "kernel \<Rightarrow> shared_map \<Rightarrow> hist \<Rightarrow> hist" where
  "destroy_shared_map K m h =
     (let h = (if sm_mapped m then sys_do K (Shm (UnmapShared (sm_fd m))) h else h) in
      if 0 \<le> sm_fd m then sys_close K (sm_fd m) h else h)"

section \<open>The notification counter\<close>

record notify =
  n_held :: fd
  n_write_end :: fd
  n_child_write :: fd
  n_child_close :: fd

definition no_notify :: notify where
  "no_notify = \<lparr>n_held = -1, n_write_end = -1, n_child_write = -1, n_child_close = -1\<rparr>"

definition create_notify :: "kernel \<Rightarrow> hist \<Rightarrow> (string + notify) \<times> hist" where
  "create_notify K h =
     (let (r, h) = sys_num K (Shm EventFd) h in
      case r of
        Inl e \<Rightarrow> (Inl (''eventfd: '' @ errno_string K e), h)
      | Inr f \<Rightarrow> (Inr (no_notify\<lparr>n_held := f, n_child_write := f\<rparr>), h))"

text \<open>An empty counter (\<^verbatim>\<open>EAGAIN\<close>) is not an error and leaves the count at 0.\<close>

definition notify_read :: "kernel \<Rightarrow> fd \<Rightarrow> hist \<Rightarrow> (errno + u64) \<times> hist" where
  "notify_read K f h =
     (let (r, h) = sys_num K (Shm (NotifyRead f)) h in
      case r of
        Inl e \<Rightarrow> (if e = EAGAIN then Inr 0 else Inl e, h)
      | Inr n \<Rightarrow> (Inr (word_of_int n), h))"

definition notify_write :: "kernel \<Rightarrow> fd \<Rightarrow> hist \<Rightarrow> bool \<times> hist" where
  "notify_write K f h =
     (case sys_done K (Shm (NotifyWrite f)) h of (r, h) \<Rightarrow> (r = None \<or> r = Some EAGAIN, h))"

definition drop_notify :: "kernel \<Rightarrow> notify \<Rightarrow> hist \<Rightarrow> hist" where
  "drop_notify K n h =
     (let h = (if 0 \<le> n_write_end n then sys_close K (n_write_end n) h else h) in
      if 0 \<le> n_held n then sys_close K (n_held n) h else h)"

section \<open>Timers\<close>

text \<open>What the maps of the poller keep: timer ids are below the next one, and a token leads to a
  timer that carries it.\<close>

definition poller_ok :: "poller \<Rightarrow> bool" where
  "poller_ok p \<longleftrightarrow>
     (\<forall>tid slot. map_of (p_timers p) tid = Some slot \<longrightarrow> tid < p_next_timer p) \<and>
     (\<forall>t tid. map_of (p_token_to_timer p) t = Some tid \<longrightarrow>
        (\<exists>slot. map_of (p_timers p) tid = Some slot \<and> ts_token slot = t))"

lemma watch_fd_frame [frame_simps]:
  "watch_fd K p f token h = ((r, p'), h') \<Longrightarrow>
   p_timers p' = p_timers p \<and> p_token_to_timer p' = p_token_to_timer p \<and> p_next_timer p' = p_next_timer p"
  by (auto simp: watch_fd_def split_beta Let_def split: option.splits if_splits)

lemma poller_ok_watch_fd [keeps]:
  "watch_fd K p f token h = ((r, p'), h') \<Longrightarrow> poller_ok p \<Longrightarrow> poller_ok p'"
  using watch_fd_frame [of K p f token h r p' h'] by (simp add: poller_ok_def)

lemma poller_ok_timer: "poller_ok p \<Longrightarrow> map_of (p_timers p) tid = Some slot \<Longrightarrow> tid < p_next_timer p"
  unfolding poller_ok_def by blast

lemma poller_ok_token:
  "poller_ok p \<Longrightarrow> map_of (p_token_to_timer p) t = Some tid \<Longrightarrow>
   \<exists>slot. map_of (p_timers p) tid = Some slot \<and> ts_token slot = t"
  unfolding poller_ok_def by blast

lemma next_timer_unused: "poller_ok p \<Longrightarrow> map_of (p_timers p) (p_next_timer p) = None"
  using poller_ok_timer [of p "p_next_timer p"] by fastforce

lemma poller_ok_add:
  assumes ok: "poller_ok p"
  shows "poller_ok (p\<lparr>p_next_timer := p_next_timer p + 1,
     p_token_to_timer := AList.update token (p_next_timer p) (p_token_to_timer p),
     p_timers := (p_next_timer p, \<lparr>ts_fd = f, ts_token = token\<rparr>) # p_timers p\<rparr>)"
proof -
  have "tid < p_next_timer p + 1" if "map_of (p_timers p) tid = Some slot" for tid slot
    using poller_ok_timer [OF ok that] by simp
  moreover have "\<exists>slot. map_of (p_timers p) tid = Some slot \<and> ts_token slot = t" "tid \<noteq> p_next_timer p"
    if "map_of (p_token_to_timer p) t = Some tid" for t tid
    using poller_ok_token [OF ok that] next_timer_unused [OF ok] by auto
  ultimately show ?thesis
    by (auto simp: poller_ok_def update_conv')
qed

lemma poller_ok_watch_timer [keeps]:
  assumes "watch_timer K p token a b h = ((r, p'), h')" and "poller_ok p"
  shows "poller_ok p'"
proof -
  obtain t h1 where t: "sys_num K (Poll TimerFdCreate) h = (t, h1)" by fastforce
  show ?thesis
  proof (cases t)
    case (Inl e)
    with assms t show ?thesis by (simp add: watch_timer_def)
  next
    case (Inr tfd)
    let ?v = "timer_value a" and ?i = "timer_interval b"
    let ?c = "Poll (TimerFdSet tfd (fst ?v) (snd ?v) (fst ?i) (snd ?i))"
    obtain s h2 where s: "sys_done K ?c h1 = (s, h2)" by fastforce
    obtain w p1 h3 where w: "watch_fd K p tfd token h2 = ((w, p1), h3)" by (metis prod.exhaust)
    have p1: "poller_ok p1" by (rule poller_ok_watch_fd [OF w assms(2)])
    show ?thesis
    proof (cases s)
      case (Some e)
      with assms t Inr s show ?thesis by (simp add: watch_timer_def split_beta)
    next
      case None
      then show ?thesis
        using assms(1) t Inr s w p1 next_timer_unused [OF p1] poller_ok_add [OF p1, where token = token and f = tfd]
        by (cases w) (auto simp: watch_timer_def split_beta Let_def)
    qed
  qed
qed

lemma poller_ok_remove:
  assumes ok: "poller_ok p" and slot: "map_of (p_timers p) tid = Some slot"
  shows "poller_ok (p\<lparr>p_token_to_timer := AList.delete (ts_token slot) (p_token_to_timer p),
     p_timers := AList.delete tid (p_timers p)\<rparr>)"
proof -
  have "tid' \<noteq> tid" if "map_of (p_token_to_timer p) t = Some tid'" "t \<noteq> ts_token slot" for t tid'
    using poller_ok_token [OF ok that(1)] slot that(2) by auto
  then show ?thesis
    using poller_ok_timer [OF ok] poller_ok_token [OF ok]
    by (auto simp: poller_ok_def delete_conv')
qed

lemma poller_ok_unwatch_timer [keeps]:
  "unwatch_timer K p tid h = (p', h') \<Longrightarrow> poller_ok p \<Longrightarrow> poller_ok p'"
  by (auto simp: unwatch_timer_def Let_def poller_ok_remove split: option.splits)

lemma watch_timer_live:
  assumes "watch_timer K p token a b h = ((r, p'), h')" and ok: "poller_ok p"
  shows "case r of
      Inl _ \<Rightarrow> p_timers p' = p_timers p \<and> p_next_timer p' = p_next_timer p
    | Inr i \<Rightarrow> i = p_next_timer p \<and> p_next_timer p' = i + 1 \<and>
        (\<exists>f. p_timers p' = (i, \<lparr>ts_fd = f, ts_token = token\<rparr>) # p_timers p)"
  using assms(1) next_timer_unused [OF ok]
  by (auto simp: watch_timer_def Let_def split: prod.splits sum.splits option.splits if_splits
      dest!: watch_fd_frame)

definition linux_live :: "poller \<Rightarrow> int \<Rightarrow> u64 option" where
  "linux_live p i = map_option ts_token (map_of (p_timers p) i)"

interpretation linux_timers: timer_table poller_ok linux_live p_next_timer watch_timer unwatch_timer
proof (unfold_locales, goal_cases)
  case 1
  then show ?case using poller_ok_timer by (auto simp: linux_live_def)
next
  case 2
  then show ?case
    using watch_timer_live [OF 2] poller_ok_watch_timer [OF 2] by (auto simp: linux_live_def fun_eq_iff)
next
  case 3
  then show ?case
    using watch_timer_live [OF 3] poller_ok_watch_timer [OF 3] by (auto simp: linux_live_def fun_eq_iff)
next
  case 4
  then show ?case
    using poller_ok_unwatch_timer [OF 4]
    by (auto simp: unwatch_timer_def linux_live_def fun_eq_iff Let_def delete_conv' split: option.splits)
qed

section \<open>The notification channel\<close>

text \<open>The counter a history leaves in an \<^verbatim>\<open>eventfd\<close>, and the kernels that keep one.\<close>

definition counter_step :: "fd \<Rightarrow> nat \<Rightarrow> event \<Rightarrow> nat" where
  "counter_step f n e =
     (if e = (Shm (NotifyWrite f), Done None) then Suc n
      else case e of (Shm (NotifyRead g), Num (Inr _)) \<Rightarrow> if g = f then 0 else n | _ \<Rightarrow> n)"

definition counter :: "fd \<Rightarrow> hist \<Rightarrow> nat" where
  "counter f h = foldl (counter_step f) 0 h"

definition counter_room :: nat where "counter_room = 2 ^ 64 - 2"

definition eventfd_kernel :: "kernel \<Rightarrow> fd \<Rightarrow> fd \<Rightarrow> bool" where
  "eventfd_kernel K r w \<longleftrightarrow> r = w \<and> (\<forall>h.
     k_done K h (Shm (NotifyWrite w)) = (if counter w h < counter_room then None else Some EAGAIN) \<and>
     k_num K h (Shm (NotifyRead r)) = (if counter w h = 0 then Inl EAGAIN else Inr (int (counter w h))))"

definition counter_read :: "kernel \<Rightarrow> fd \<Rightarrow> hist \<Rightarrow> ((bool \<times> u64) \<times> hist) option" where
  "counter_read K f h =
     (case notify_read K f h of (r, h') \<Rightarrow> Some ((case r of Inl _ \<Rightarrow> (False, 0) | Inr c \<Rightarrow> (True, c)), h'))"

lemma counter_snoc [simp]: "counter f (h @ [e]) = counter_step f (counter f h) e"
  by (simp add: counter_def)

interpretation linux_notify: notify_channel eventfd_kernel "\<lambda>r w. counter w" counter_room
  notify_write counter_read
  by unfold_locales
    (auto simp: eventfd_kernel_def notify_write_def counter_read_def notify_read_def kernel_simps
      counter_step_def Let_def split: if_splits)

section \<open>Properties\<close>

text \<open>The tables of the poller stay consistent under every operation on timers: a token that
  is looked up leads to a live timer that carries this token, so a wake-up never drains the timer of
  another job.\<close>

theorem poller_tables_consistent:
  assumes "poller_ok p"
  shows "(watch_fd K p f token h = ((r, p'), h') \<longrightarrow> poller_ok p') \<and>
     (watch_timer K p token a b h = ((r', p'), h') \<longrightarrow> poller_ok p') \<and>
     (unwatch_timer K p tid h = (p', h') \<longrightarrow> poller_ok p')"
  using assms by (blast intro: keeps)

theorem poller_tables_consistent_witness:
  "case watch_timer interrupting_kernel empty_poller 7 200 200 [] of ((_, p'), _) \<Rightarrow> poller_ok p'"
proof -
  obtain r' p' h' where w: "watch_timer interrupting_kernel empty_poller 7 200 200 [] = ((r', p'), h')"
    by (metis prod.exhaust)
  have "poller_ok empty_poller" by (simp add: poller_ok_def empty_poller_def)
  from poller_tables_consistent [OF this] w have "poller_ok p'" by blast
  with w show ?thesis by simp
qed

text \<open>A timer is always armed with a valid value: never \<open>(0, 0)\<close>, which would disarm it,
  always less than a second of nanoseconds, and exactly the milliseconds asked for unless they
  are 0.\<close>

theorem timer_always_armed:
  "case timer_value ms of (sec, nsec) \<Rightarrow>
     (sec \<noteq> 0 \<or> nsec \<noteq> 0) \<and> unat nsec < 1000000000 \<and>
     (ms = 0 \<or> unat sec * 1000000000 + unat nsec = unat ms * 1000000)"
proof -
  let ?m = "unat ms"
  have sec: "unat (ms div 1000) = ?m div 1000" by (simp add: unat_div)
  have "unat (ms mod 1000) = ?m mod 1000" by (simp add: unat_mod)
  moreover have "?m mod 1000 * 1000000 < 1000000000" using mod_less_divisor [of 1000 ?m] by simp
  ultimately have nsec: "unat ((ms mod 1000) * 1000000) = ?m mod 1000 * 1000000"
    by (subst unat_u64_mult) simp_all
  show ?thesis
  proof (cases "?m = 0")
    case True
    then have "ms = 0" by (simp add: unat_eq_zero)
    then show ?thesis by (simp add: timer_value_def)
  next
    case False
    have "\<not> (ms div 1000 = 0 \<and> (ms mod 1000) * 1000000 = 0)"
    proof
      assume "ms div 1000 = 0 \<and> (ms mod 1000) * 1000000 = 0"
      then have "?m div 1000 = 0" "?m mod 1000 * 1000000 = 0"
        using sec nsec by (metis unsigned_0)+
      then show False using False div_mult_mod_eq [of ?m 1000] by simp
    qed
    then have tv: "timer_value ms = (ms div 1000, (ms mod 1000) * 1000000)"
      and ne: "ms div 1000 \<noteq> 0 \<or> (ms mod 1000) * 1000000 \<noteq> 0"
      unfolding timer_value_def Let_def by (meson)+
    have eq: "?m div 1000 * 1000000000 + ?m mod 1000 * 1000000 = ?m * 1000000"
      using div_mult_mod_eq [of ?m 1000] by linarith
    have lt: "?m mod 1000 * 1000000 < 1000000000"
      using mod_less_divisor [of 1000 ?m] by simp
    show ?thesis unfolding tv prod.case sec nsec using ne eq lt by blast
  qed
qed

end
