(* ===== verification/Controller_State.thy ===== *)
theory Controller_State
  imports Platform
begin

text \<open>
  The state of the controller (\<^verbatim>\<open>controller.cpp\<close>) and the operations on it that make no
  system call: wake-up tokens, process references and their text form, the choice of the next
  job. The maps \<^verbatim>\<open>live\<close> and \<^verbatim>\<open>pid_owner\<close> are association lists.
\<close>

section \<open>Wake-up tokens\<close>

datatype wake = Wake_Signal | Wake_Fifo | Wake_Tick | Wake_JobEvent | Wake_JobDeadline

definition wake_code :: "wake \<Rightarrow> u64" where
  "wake_code k = (case k of Wake_Signal \<Rightarrow> 1 | Wake_Fifo \<Rightarrow> 2 | Wake_Tick \<Rightarrow> 3
                   | Wake_JobEvent \<Rightarrow> 4 | Wake_JobDeadline \<Rightarrow> 5)"

definition pack_wake :: "wake \<Rightarrow> u64 \<Rightarrow> u64" where
  "pack_wake kind job = push_bit 56 (wake_code kind) OR (job AND 0x00ffffffffffffff)"

text \<open>A value that names no enumerator matches no case of the switch.\<close>

definition wake_kind :: "u64 \<Rightarrow> wake option" where
  "wake_kind packed =
     (let k = drop_bit 56 packed in
      if k = 1 then Some Wake_Signal else if k = 2 then Some Wake_Fifo
      else if k = 3 then Some Wake_Tick else if k = 4 then Some Wake_JobEvent
      else if k = 5 then Some Wake_JobDeadline else None)"

definition wake_job :: "u64 \<Rightarrow> u64" where
  "wake_job packed = packed AND 0x00ffffffffffffff"

section \<open>Processes of a job\<close>

record proc_ref =
  pr_pid :: int
  pr_start :: u64
  pr_reaped :: bool
  pr_grouped :: bool
  pr_how :: string

definition empty_proc :: proc_ref where
  "empty_proc = \<lparr>pr_pid = 0, pr_start = 0, pr_reaped = False, pr_grouped = False, pr_how = []\<rparr>"

text \<open>The lambda \<^verbatim>\<open>flush\<close>: a number that does not parse leaves its field at 0.\<close>

definition u64_or_zero :: "string \<Rightarrow> u64" where
  "u64_or_zero s = (case parse_u64 s of None \<Rightarrow> 0 | Some v \<Rightarrow> v)"

definition proc_of_text :: "string \<Rightarrow> proc_ref" where
  "proc_of_text cur =
     (case split_first (CHR ''@'') cur of
        None \<Rightarrow> empty_proc\<lparr>pr_pid := cast_i32 (uint (u64_or_zero cur))\<rparr>
      | Some (a, b) \<Rightarrow>
          empty_proc\<lparr>pr_pid := cast_i32 (uint (u64_or_zero a)), pr_start := u64_or_zero b\<rparr>)"

definition flush_proc :: "string \<Rightarrow> proc_ref list" where
  "flush_proc cur =
     (if cur = [] then []
      else let pr = proc_of_text cur in if 0 < pr_pid pr then [pr] else [])"

fun parse_procs_loop :: "string \<Rightarrow> string \<Rightarrow> proc_ref list" where
  "parse_procs_loop cur [] = flush_proc cur"
| "parse_procs_loop cur (ch # txt) =
     (if ch = CHR '','' then flush_proc cur @ parse_procs_loop [] txt
      else parse_procs_loop (cur @ [ch]) txt)"

definition parse_procs :: "string \<Rightarrow> proc_ref list" where
  "parse_procs txt = parse_procs_loop [] txt"

fun join_comma :: "string list \<Rightarrow> string" where
  "join_comma [] = []"
| "join_comma [s] = s"
| "join_comma (s # t # ss) = s @ '','' @ join_comma (t # ss)"

definition proc_text :: "proc_ref \<Rightarrow> string" where
  "proc_text pr = dec_int (pr_pid pr) @ ''@'' @ dec_u64 (pr_start pr)"

definition format_procs :: "proc_ref list \<Rightarrow> string" where
  "format_procs procs = join_comma (map proc_text procs)"

text \<open>\<^verbatim>\<open>siginfo_t\<close> as \<^verbatim>\<open>waitid\<close> fills it: \<^verbatim>\<open>si_code\<close> and \<^verbatim>\<open>si_status\<close>.\<close>

type_synonym wait_info = "int \<times> int"

definition describe_wait :: "wait_info \<Rightarrow> string" where
  "describe_wait info =
     (case info of (code, status) \<Rightarrow>
        if code = 1 then ''exited:'' @ dec_int status
        else if code = 2 then ''killed:'' @ dec_int status
        else if code = 3 then ''dumped:'' @ dec_int status
        else ''wait:'' @ dec_int code @ '':'' @ dec_int status)"

section \<open>Jobs and the controller\<close>

record live_job =
  lj_meta :: meta
  lj_procs :: "proc_ref list"
  lj_notify :: notify
  lj_shared :: shared_map
  lj_deadline_id :: int
  lj_log_fd :: fd
  lj_shm :: bool
  lj_uses_slot :: bool
  lj_finished :: bool
  lj_kill_escalated :: bool
  lj_stop_reason :: string
  lj_stop_sent_ms :: u64

definition new_job :: "meta \<Rightarrow> live_job" where
  "new_job m = \<lparr>lj_meta = m, lj_procs = [], lj_notify = no_notify, lj_shared = no_map,
     lj_deadline_id = -1, lj_log_fd = -1, lj_shm = False, lj_uses_slot = False, lj_finished = False,
     lj_kill_escalated = False, lj_stop_reason = [], lj_stop_sent_ms = 0\<rparr>"

record controller =
  c_root :: string
  c_slots_max :: int
  c_slots_used :: int
  c_shutting_down :: bool
  c_lock_fd :: fd
  c_poller :: poller
  c_tick_id :: int
  c_fifo_fd :: fd
  c_log_fd :: fd
  c_fifo_buf :: string
  c_live :: "(u64 \<times> live_job) list"
  c_queue :: "u64 list"
  c_pid_owner :: "(int \<times> u64) list"

definition new_controller :: "string \<Rightarrow> int \<Rightarrow> controller" where
  "new_controller root slots = \<lparr>c_root = root, c_slots_max = slots, c_slots_used = 0,
     c_shutting_down = False, c_lock_fd = -1, c_poller = empty_poller, c_tick_id = -1,
     c_fifo_fd = -1, c_log_fd = -1, c_fifo_buf = [], c_live = [], c_queue = [], c_pid_owner = []\<rparr>"

definition find_job :: "controller \<Rightarrow> u64 \<Rightarrow> live_job option" where
  "find_job c jid = map_of (c_live c) jid"

definition put_job :: "u64 \<Rightarrow> live_job \<Rightarrow> controller \<Rightarrow> controller" where
  "put_job jid job c = c\<lparr>c_live := AList.update jid job (c_live c)\<rparr>"

definition drop_job :: "u64 \<Rightarrow> controller \<Rightarrow> controller" where
  "drop_job jid c = c\<lparr>c_live := AList.delete jid (c_live c)\<rparr>"

text \<open>\<^verbatim>\<open>queue.erase(std::remove(...))\<close>\<close>

definition unqueue :: "u64 \<Rightarrow> controller \<Rightarrow> controller" where
  "unqueue jid c = c\<lparr>c_queue := filter (\<lambda>q. q \<noteq> jid) (c_queue c)\<rparr>"

definition job_state :: "live_job \<Rightarrow> string" where
  "job_state job = m_state (lj_meta job)"

definition join_exits :: "live_job \<Rightarrow> string" where
  "join_exits job = join_comma (map (\<lambda>pr. if pr_how pr = [] then ''?'' else pr_how pr) (lj_procs job))"

definition fds_to_close :: "controller \<Rightarrow> fd list" where
  "fds_to_close c = filter (\<lambda>f. 0 \<le> f)
     (inherited_fds (c_poller c) @ [c_fifo_fd c, c_log_fd c, c_lock_fd c] @
      concat (map (\<lambda>(_, job). [n_held (lj_notify job), n_write_end (lj_notify job),
                                sm_fd (lj_shared job), lj_log_fd job]) (c_live c)))"

definition idle :: "controller \<Rightarrow> bool" where
  "idle c \<longleftrightarrow> c_live c = [] \<and> c_queue c = []"

section \<open>The next job\<close>

text \<open>The loop of \<^verbatim>\<open>pick_next\<close>: the best candidate so far with its priority.\<close>

definition pick_step :: "controller \<Rightarrow> (u64 \<times> int) option \<Rightarrow> u64 \<Rightarrow> (u64 \<times> int) option" where
  "pick_step c best cand =
     (case find_job c cand of
        None \<Rightarrow> best
      | Some job \<Rightarrow>
          if job_state job \<noteq> ''queued'' then best
          else
            let pri = m_priority (lj_meta job) in
            (case best of
               None \<Rightarrow> Some (cand, pri)
             | Some (b, best_pri) \<Rightarrow>
                 if best_pri < pri \<or> pri = best_pri \<and> cand < b then Some (cand, pri) else best))"

definition pick_next :: "controller \<Rightarrow> (u64 \<times> controller) option" where
  "pick_next c =
     (case foldl (pick_step c) None (c_queue c) of
        None \<Rightarrow> None
      | Some (jid, _) \<Rightarrow> Some (jid, unqueue jid c))"

section \<open>Changes of a job and of its slot and pids\<close>

definition set_meta_state :: "string \<Rightarrow> live_job \<Rightarrow> live_job" where
  "set_meta_state st job = job\<lparr>lj_meta := (lj_meta job)\<lparr>m_state := st\<rparr>\<rparr>"

definition forget_pids :: "proc_ref list \<Rightarrow> controller \<Rightarrow> controller" where
  "forget_pids procs c =
     c\<lparr>c_pid_owner := fold (\<lambda>pr. AList.delete (pr_pid pr)) procs (c_pid_owner c)\<rparr>"

definition release_slot :: "controller \<Rightarrow> live_job \<Rightarrow> controller" where
  "release_slot c job = (if lj_uses_slot job then c\<lparr>c_slots_used := c_slots_used c - 1\<rparr> else c)"

definition own_pids :: "u64 \<Rightarrow> proc_ref list \<Rightarrow> controller \<Rightarrow> controller" where
  "own_pids jid procs c =
     c\<lparr>c_pid_owner := fold (\<lambda>pr. AList.update (pr_pid pr) jid) procs (c_pid_owner c)\<rparr>"

definition take_slot :: "controller \<Rightarrow> controller" where
  "take_slot c = c\<lparr>c_slots_used := c_slots_used c + 1\<rparr>"

definition note_exit :: "int \<Rightarrow> string \<Rightarrow> proc_ref \<Rightarrow> proc_ref" where
  "note_exit pid how pr = (if pr_pid pr = pid then pr\<lparr>pr_reaped := True, pr_how := how\<rparr> else pr)"

definition all_reaped :: "live_job \<Rightarrow> bool" where
  "all_reaped job = list_all pr_reaped (lj_procs job)"

definition any_bad :: "live_job \<Rightarrow> bool" where
  "any_bad job = list_ex (\<lambda>pr. pr_reaped pr \<and> pr_how pr \<noteq> ''exited:0'') (lj_procs job)"

section \<open>Lemmas: the maps\<close>

lemma find_put [simp]: "find_job (put_job i job c) j = (if j = i then Some job else find_job c j)"
  by (simp add: find_job_def put_job_def update_conv')

lemma find_drop [simp]: "find_job (drop_job i c) j = (if j = i then None else find_job c j)"
  by (simp add: find_job_def drop_job_def delete_conv')

lemma find_unqueue [simp]: "find_job (unqueue i c) j = find_job c j"
  by (simp add: find_job_def unqueue_def)

lemma queue_frame [simp]:
  "c_queue (put_job i job c) = c_queue c" "c_queue (drop_job i c) = c_queue c"
  "c_queue (unqueue i c) = filter (\<lambda>q. q \<noteq> i) (c_queue c)"
  by (simp_all add: put_job_def drop_job_def unqueue_def)

section \<open>Lemmas: tokens\<close>

lemma low_mask: "(0x00ffffffffffffff :: u64) = mask 56"
  by (simp add: mask_eq_exp_minus_1)

lemma wake_code_small: "wake_code k < 256"
  by (cases k) (simp_all add: wake_code_def)

lemma wake_high: "drop_bit 56 (pack_wake k job) = wake_code k"
proof (rule bit_word_eqI)
  fix n assume n: "n < LENGTH(64)"
  have "m < 8" if "bit (wake_code k) m" for m
  proof -
    have "wake_code k = take_bit 8 (wake_code k)"
      by (cases k) (simp_all add: wake_code_def take_bit_eq_mod)
    then show ?thesis using that by (metis bit_take_bit_iff)
  qed
  with n show "bit (drop_bit 56 (pack_wake k job)) n \<longleftrightarrow> bit (wake_code k) n"
    unfolding pack_wake_def low_mask by (auto simp: bit_simps)
qed

lemma wake_low: "wake_job (pack_wake k job) = job AND mask 56"
  unfolding wake_job_def pack_wake_def low_mask
  by (rule bit_word_eqI) (auto simp: bit_simps)

lemma small_job_mask: "job < 2 ^ 56 \<Longrightarrow> (job :: u64) AND mask 56 = job"
  by (simp add: less_mask_eq)

section \<open>Lemmas: the order of jobs\<close>

text \<open>The scheduling order as an order on ranks: a higher priority first, then the smaller id.\<close>

datatype job_rank = Rank (rank_pri: int) (rank_id: u64)

instantiation job_rank :: linorder
begin

definition less_eq_job_rank :: "job_rank \<Rightarrow> job_rank \<Rightarrow> bool" where
  "less_eq_job_rank a b \<longleftrightarrow> rank_pri b < rank_pri a \<or> rank_pri a = rank_pri b \<and> rank_id a \<le> rank_id b"

definition less_job_rank :: "job_rank \<Rightarrow> job_rank \<Rightarrow> bool" where
  "less_job_rank a b \<longleftrightarrow> rank_pri b < rank_pri a \<or> rank_pri a = rank_pri b \<and> rank_id a < rank_id b"

instance
  by standard (auto simp: less_eq_job_rank_def less_job_rank_def job_rank.expand)

end

definition queued_job :: "controller \<Rightarrow> u64 \<Rightarrow> bool" where
  "queued_job c jid \<longleftrightarrow>
     jid \<in> set (c_queue c) \<and> (\<exists>job. find_job c jid = Some job \<and> job_state job = ''queued'')"

definition job_priority :: "controller \<Rightarrow> u64 \<Rightarrow> int" where
  "job_priority c jid = (case find_job c jid of None \<Rightarrow> 0 | Some job \<Rightarrow> m_priority (lj_meta job))"

definition rank_of :: "controller \<Rightarrow> u64 \<Rightarrow> job_rank" where
  "rank_of c jid = Rank (job_priority c jid) jid"

definition candidate :: "controller \<Rightarrow> u64 \<Rightarrow> bool" where
  "candidate c jid \<longleftrightarrow> (\<exists>job. find_job c jid = Some job \<and> job_state job = ''queued'')"

text \<open>After a part of the queue the best so far is the candidate of least rank in it.\<close>

definition best_in :: "controller \<Rightarrow> u64 set \<Rightarrow> (u64 \<times> int) option \<Rightarrow> bool" where
  "best_in c Q best \<longleftrightarrow>
     (case best of
        None \<Rightarrow> \<forall>q \<in> Q. \<not> candidate c q
      | Some (b, pri) \<Rightarrow> b \<in> Q \<and> candidate c b \<and> pri = job_priority c b \<and>
          (\<forall>q \<in> Q. candidate c q \<longrightarrow> rank_of c b \<le> rank_of c q))"

lemma pick_step_best:
  assumes "best_in c Q best"
  shows "best_in c (insert q Q) (pick_step c best q)"
proof (cases "candidate c q")
  case False
  then have "pick_step c best q = best"
    by (auto simp: pick_step_def candidate_def split: option.split)
  then show ?thesis using assms False by (auto simp: best_in_def split: option.splits)
next
  case True
  then obtain job where job: "find_job c q = Some job" "job_state job = ''queued''"
    by (auto simp: candidate_def)
  show ?thesis
  proof (cases best)
    case None
    then show ?thesis
      using assms True job by (auto simp: best_in_def pick_step_def job_priority_def)
  next
    case (Some bp)
    obtain b pri where bp: "bp = (b, pri)" by fastforce
    have b: "b \<in> Q" "candidate c b" "pri = job_priority c b"
      "\<And>r. r \<in> Q \<Longrightarrow> candidate c r \<Longrightarrow> rank_of c b \<le> rank_of c r"
      using assms Some bp by (auto simp: best_in_def)
    have q: "job_priority c q = m_priority (lj_meta job)" by (simp add: job_priority_def job(1))
    have less: "pick_step c best q =
        (if rank_of c q < rank_of c b then Some (q, job_priority c q) else Some (b, pri))"
      using job b(3) q
      by (auto simp: pick_step_def Some bp rank_of_def less_job_rank_def)
    show ?thesis
    proof (cases "rank_of c q < rank_of c b")
      case True
      then have "rank_of c q \<le> rank_of c r" if "r \<in> insert q Q" "candidate c r" for r
        using b(4) [of r] that by (auto intro: order.trans less_imp_le)
      with True \<open>candidate c q\<close> show ?thesis by (simp add: best_in_def less)
    next
      case False
      then have "rank_of c b \<le> rank_of c q" by simp
      with False b show ?thesis by (auto simp: best_in_def less)
    qed
  qed
qed

lemma foldl_pick_best:
  "best_in c Q best \<Longrightarrow> best_in c (Q \<union> set qs) (foldl (pick_step c) best qs)"
proof (induction qs arbitrary: Q best)
  case (Cons q qs)
  from Cons.IH [OF pick_step_best [OF Cons.prems, of q]] show ?case by simp
qed simp

lemma pick_best: "best_in c (set (c_queue c)) (foldl (pick_step c) None (c_queue c))"
  using foldl_pick_best [of c "{}" None "c_queue c"] by (simp add: best_in_def)

lemma pick_next_Some:
  "pick_next c = Some (jid, c') \<Longrightarrow>
   c' = unqueue jid c \<and> jid \<in> set (c_queue c) \<and> candidate c jid \<and>
   (\<forall>q \<in> set (c_queue c). candidate c q \<longrightarrow> rank_of c jid \<le> rank_of c q)"
  using pick_best [of c] by (auto simp: pick_next_def best_in_def split: option.splits)

lemma pick_next_None:
  "pick_next c = None \<Longrightarrow> \<forall>q \<in> set (c_queue c). \<not> candidate c q"
  using pick_best [of c] by (auto simp: pick_next_def best_in_def split: option.splits)

section \<open>Lemmas: process lists\<close>

lemma parse_procs_loop_append:
  "CHR '','' \<notin> set s \<Longrightarrow> parse_procs_loop cur (s @ rest) = parse_procs_loop (cur @ s) rest"
  by (induction s arbitrary: cur) auto

lemma parse_procs_join:
  "\<forall>t \<in> set ts. CHR '','' \<notin> set t \<Longrightarrow> ts \<noteq> [] \<Longrightarrow>
   parse_procs (join_comma ts) = concat (map flush_proc ts)"
proof (induction ts rule: join_comma.induct)
  case (2 s)
  then show ?case
    using parse_procs_loop_append [of s "[]" "[]"] by (simp add: parse_procs_def)
next
  case (3 s t ts)
  then show ?case
    using parse_procs_loop_append [of s "[]" "CHR '','' # join_comma (t # ts)"]
    by (simp add: parse_procs_def)
qed simp

text \<open>The references a saved list can stand for: a pid and a start time, not yet reaped.\<close>

definition plain_proc :: "proc_ref \<Rightarrow> bool" where
  "plain_proc pr \<longleftrightarrow> 0 < pr_pid pr \<and> pr_pid pr < 2 ^ 31 \<and>
     pr = empty_proc\<lparr>pr_pid := pr_pid pr, pr_start := pr_start pr\<rparr>"

lemma proc_text_chars: "ch \<in> set (proc_text pr) \<Longrightarrow> is_digit ch \<or> ch \<in> {CHR ''-'', CHR ''@''}"
  using dec_int_chars [of ch "pr_pid pr"] dec_nat_digits [of "unat (pr_start pr)"]
  by (auto simp: proc_text_def dec_u64_def)

lemma proc_text_no_comma: "CHR '','' \<notin> set (proc_text pr)"
  using proc_text_chars [of "CHR '',''" pr] by (auto simp: is_digit_of_char)

lemma flush_proc_text:
  assumes "plain_proc pr"
  shows "flush_proc (proc_text pr) = [pr]"
proof -
  obtain k where k: "pr_pid pr = int k" "k < 2 ^ 31" "k < 2 ^ 64"
    using assms nonneg_int_cases [of "pr_pid pr"] by (force simp: plain_proc_def)
  have pid: "dec_int (pr_pid pr) = dec_nat k" by (simp add: k dec_int_def)
  have "CHR ''@'' \<notin> set (dec_nat k)"
    by (rule dec_nat_not_in) (simp add: is_digit_of_char)
  then have split: "split_first (CHR ''@'') (proc_text pr) = Some (dec_nat k, dec_u64 (pr_start pr))"
    using split_first_append [of "CHR ''@''" "dec_nat k" "dec_u64 (pr_start pr)"]
    by (simp add: proc_text_def pid)
  have "i32_range (int k)" using k by (simp add: i32_range_def)
  then have "proc_of_text (proc_text pr) = empty_proc\<lparr>pr_pid := int k, pr_start := pr_start pr\<rparr>"
    using k(3) uint_of_nat_u64 [OF k(3)]
    by (simp add: proc_of_text_def split u64_or_zero_def parse_u64_dec_nat)
  also have "\<dots> = pr" using assms k(1) by (simp add: plain_proc_def)
  finally have "proc_of_text (proc_text pr) = pr" .
  moreover have "proc_text pr \<noteq> []" by (simp add: proc_text_def)
  moreover have "0 < pr_pid pr" using assms by (simp add: plain_proc_def)
  ultimately show ?thesis by (simp add: flush_proc_def Let_def)
qed

lemma parse_format_procs:
  assumes "list_all plain_proc procs"
  shows "parse_procs (format_procs procs) = procs"
proof (cases "procs = []")
  case True
  then show ?thesis by (simp add: format_procs_def parse_procs_def flush_proc_def)
next
  case False
  have "concat (map flush_proc (map proc_text procs)) = procs"
    using assms by (induction procs) (simp_all add: flush_proc_text)
  then show ?thesis
    using parse_procs_join [of "map proc_text procs"] False proc_text_no_comma
    by (simp add: format_procs_def)
qed

interpretation procs_text: text_codec format_procs "\<lambda>txt. Some (parse_procs txt)" "list_all plain_proc"
  by unfold_locales (simp add: parse_format_procs)

lemma line_ok_procs: "line_ok (format_procs procs)"
proof -
  have "is_digit ch \<or> ch \<in> {CHR ''-'', CHR ''@'', CHR '',''}" if "ch \<in> set (format_procs procs)" for ch
  proof -
    have "ch \<in> set (join_comma ts) \<Longrightarrow> ch = CHR '','' \<or> (\<exists>t \<in> set ts. ch \<in> set t)" for ts
      by (induction ts rule: join_comma.induct) auto
    with that show ?thesis using proc_text_chars by (fastforce simp: format_procs_def)
  qed
  then have "NL \<notin> set (format_procs procs)" "CR \<notin> set (format_procs procs)"
    by (force simp: is_digit_of_char)+
  then show ?thesis unfolding line_ok_def by (metis last_in_set)
qed

section \<open>Properties\<close>

text \<open>C40. The token of a wake-up gives back its kind, and its job if the id is below \<open>2^56\<close>; an id
  of \<open>2^56\<close> or more is cut, so the wake-ups of two such jobs can be confused.\<close>

theorem wake_roundtrip:
  "wake_kind (pack_wake k job) = Some k \<and>
   (job < 2 ^ 56 \<longrightarrow> wake_job (pack_wake k job) = job) \<and>
   pack_wake k (job OR 2 ^ 56) = pack_wake k job"
proof (intro conjI impI)
  show "wake_kind (pack_wake k job) = Some k"
    by (cases k) (simp_all add: wake_kind_def wake_high wake_code_def)
  show "wake_job (pack_wake k job) = job" if "job < 2 ^ 56"
    using that by (simp only: wake_low small_job_mask)
  have "(2 ^ 56 :: u64) AND mask 56 = 0" by (simp add: mask_eq_exp_minus_1)
  then have "(job OR 2 ^ 56) AND mask 56 = job AND mask 56"
    by (simp only: bit.conj_disj_distrib2 or.right_neutral)
  then show "pack_wake k (job OR 2 ^ 56) = pack_wake k job"
    unfolding pack_wake_def low_mask by (simp only:)
qed

theorem wake_roundtrip_witness:
  "wake_job (pack_wake Wake_JobDeadline 12) = 12"
  by (rule wake_roundtrip [of Wake_JobDeadline 12, THEN conjunct2, THEN conjunct1, THEN mp]) simp

text \<open>C32. The scheduler picks by priority, then by age: the job \<^verbatim>\<open>pick_next\<close> returns is queued,
  no queued job has a higher priority, none of the same priority has a smaller id, and exactly it
  leaves the queue; when it returns nothing no job is queued.\<close>

theorem pick_next_best:
  "case pick_next c of
     None \<Rightarrow> \<forall>q. \<not> queued_job c q
   | Some (jid, c') \<Rightarrow> queued_job c jid \<and> c_queue c' = filter (\<lambda>q. q \<noteq> jid) (c_queue c) \<and>
       c_live c' = c_live c \<and>
       (\<forall>q. queued_job c q \<longrightarrow> job_priority c q < job_priority c jid \<or>
            job_priority c q = job_priority c jid \<and> jid \<le> q)"
proof (cases "pick_next c")
  case None
  then show ?thesis using pick_next_None [OF None] by (auto simp: queued_job_def candidate_def)
next
  case (Some y)
  obtain jid c' where y: "y = (jid, c')" by fastforce
  note p = pick_next_Some [OF Some [unfolded y]]
  have "job_priority c q < job_priority c jid \<or> job_priority c q = job_priority c jid \<and> jid \<le> q"
    if "queued_job c q" for q
  proof -
    have "rank_of c jid \<le> rank_of c q"
      using p that by (auto simp: queued_job_def candidate_def)
    then show ?thesis by (auto simp: rank_of_def less_eq_job_rank_def)
  qed
  with p Some y show ?thesis
    by (auto simp: queued_job_def candidate_def unqueue_def)
qed

definition two_queued :: controller where
  "two_queued = (let job = new_job (empty_meta\<lparr>m_state := ''queued'', m_priority := 1\<rparr>) in
     (new_controller [] 1)\<lparr>c_queue := [5, 3], c_live := [(5, job), (3, job)]\<rparr>)"

lemma two_queued_pick: "map_option fst (pick_next two_queued) = Some 3"
  by code_simp

theorem pick_next_best_witness:
  "\<exists>c'. pick_next two_queued = Some (3, c') \<and> queued_job two_queued 3 \<and> c_queue c' = [5]"
proof -
  obtain c' where pick: "pick_next two_queued = Some (3, c')" using two_queued_pick by auto
  have "c_queue two_queued = [5, 3]" by (simp add: two_queued_def Let_def)
  then show ?thesis using pick_next_best [of two_queued] by (simp add: pick)
qed



end
