(* ===== verification/Launch.thy ===== *)
theory Launch
  imports Controller_State
begin

text \<open>
  What the controller hands to a worker (\<^verbatim>\<open>WorkerLaunch\<close> of \<^verbatim>\<open>forge.hpp\<close>) and how it learns
  which process a pid names (\<^verbatim>\<open>proc_starttime\<close> of the Linux platform).
\<close>

record worker_launch =
  wl_meta :: meta
  wl_job_dir :: string
  wl_shm :: "fd option"
  wl_event_fd :: fd
  wl_log_fd :: fd
  wl_chunk_index :: int
  wl_offset :: u64
  wl_length :: u64
  wl_close_fds :: "fd list"

section \<open>The start time of a process\<close>

text \<open>Extraction from an \<^verbatim>\<open>istringstream\<close>: white space is skipped, a word is what follows up to
  the next white space, and a number is an optional sign and its digits. Without a digit the
  extraction fails and gives 0, above 64 bits it fails and gives the maximum.\<close>

definition is_space :: "char \<Rightarrow> bool" where
  "is_space c \<longleftrightarrow> c \<in> {CHR '' '', NL, CR, CHR 0x09, CHR 0x0B, CHR 0x0C}"

definition next_word :: "string \<Rightarrow> (string \<times> string) option" where
  "next_word s =
     (let s = dropWhile is_space s in
      if s = [] then None else Some (takeWhile (\<lambda>c. \<not> is_space c) s, dropWhile (\<lambda>c. \<not> is_space c) s))"

fun skip_words :: "nat \<Rightarrow> string \<Rightarrow> string option" where
  "skip_words 0 s = Some s"
| "skip_words (Suc n) s = (case next_word s of None \<Rightarrow> None | Some (_, rest) \<Rightarrow> skip_words n rest)"

definition extract_u64 :: "string \<Rightarrow> bool \<times> u64" where
  "extract_u64 s =
     (let s = dropWhile is_space s;
          neg = (s \<noteq> [] \<and> hd s = CHR ''-'');
          signed = (s \<noteq> [] \<and> (hd s = CHR ''-'' \<or> hd s = CHR ''+''));
          ds = takeWhile is_digit (if signed then tl s else s) in
      if ds = [] then (False, 0)
      else if 2 ^ 64 \<le> dec_value ds then (False, UINT64_MAX)
      else (True, if neg then - word_of_nat (dec_value ds) else word_of_nat (dec_value ds)))"

text \<open>The text after the last closing parenthesis, then the twentieth word.\<close>

definition after_last_paren :: "string \<Rightarrow> string option" where
  "after_last_paren s = map_option (\<lambda>(a, _). rev a) (split_first (CHR '')'') (rev s))"

definition starttime_of_stat :: "string \<Rightarrow> u64 \<Rightarrow> bool \<times> u64" where
  "starttime_of_stat txt ticks =
     (case after_last_paren txt of
        None \<Rightarrow> (False, ticks)
      | Some rest \<Rightarrow>
          (case skip_words 19 rest of None \<Rightarrow> (False, ticks) | Some s \<Rightarrow>
             if dropWhile is_space s = [] then (False, ticks) else extract_u64 s))"

definition proc_starttime ::
    "kernel \<Rightarrow> int \<Rightarrow> u64 \<Rightarrow> hist \<Rightarrow> ((bool \<times> u64) \<times> hist) option" where
  "proc_starttime K pid ticks h =
     do { (r, h) \<leftarrow> read_text_file K (''/proc/'' @ dec_int pid @ ''/stat'') h;
          Some (case r of Inl _ \<Rightarrow> (False, ticks) | Inr txt \<Rightarrow> starttime_of_stat txt ticks, h) }"

end
