(* ===== verification/Controller_Jobs.thy ===== *)
theory Controller_Jobs
  imports Launch
begin

text \<open>
  The life of a job in the controller (\<^verbatim>\<open>controller.cpp\<close>): saving its state, stopping it,
  judging its results, finishing it, and starting it. Functions that take \<^verbatim>\<open>Controller&\<close> and
  \<^verbatim>\<open>LiveJob&\<close> return what they change; a handler that looks its job up by id puts the changed job
  back into \<^verbatim>\<open>live\<close>. All of them return an option because every line of the log is written with
  \<^verbatim>\<open>write_all\<close>.
\<close>

section \<open>Logging and saving\<close>

definition say :: "kernel \<Rightarrow> controller \<Rightarrow> string \<Rightarrow> hist \<Rightarrow> hist option" where
  "say K c msg h =
     (let line = ''[forge] '' @ msg;
          h = sys_do K (Env (PrintOut (line @ [NL]))) h in
      if 0 \<le> c_log_fd c then do { (_, h) \<leftarrow> write_line K (c_log_fd c) line h; Some h } else Some h)"

definition job_label :: "u64 \<Rightarrow> string" where
  "job_label jid = ''job '' @ dec_u64 jid"

text \<open>\<^verbatim>\<open>save_meta\<close> where the code ignores its result.\<close>

definition try_save :: "kernel \<Rightarrow> controller \<Rightarrow> meta \<Rightarrow> hist \<Rightarrow> hist option" where
  "try_save K c m h = do { (_, h) \<leftarrow> save_meta K (c_root c) m h; Some h }"

definition set_meta_error :: "string \<Rightarrow> live_job \<Rightarrow> live_job" where
  "set_meta_error err job = job\<lparr>lj_meta := (lj_meta job)\<lparr>m_error := err\<rparr>\<rparr>"

definition set_finished_ms :: "int \<Rightarrow> live_job \<Rightarrow> live_job" where
  "set_finished_ms t job = job\<lparr>lj_meta := (lj_meta job)\<lparr>m_finished_ms := t\<rparr>\<rparr>"

definition set_state ::
    "kernel \<Rightarrow> controller \<Rightarrow> live_job \<Rightarrow> string \<Rightarrow> hist \<Rightarrow> ((bool \<times> live_job) \<times> hist) option" where
  "set_state K c job st h =
     (let job = set_meta_state st job in
      do { (r, h) \<leftarrow> save_meta K (c_root c) (lj_meta job) h;
           case r of
             Inr _ \<Rightarrow> Some ((True, job), h)
           | Inl err \<Rightarrow>
               do { h \<leftarrow> say K c (job_label (m_id (lj_meta job)) @ '' could not save meta: '' @ err) h;
                    Some ((False, job), h) } })"

section \<open>Releasing and stopping\<close>

definition close_if :: "kernel \<Rightarrow> fd \<Rightarrow> hist \<Rightarrow> hist" where
  "close_if K f h = (if 0 \<le> f then sys_close K f h else h)"

definition release_runtime ::
    "kernel \<Rightarrow> controller \<Rightarrow> live_job \<Rightarrow> hist \<Rightarrow> (controller \<times> live_job) \<times> hist" where
  "release_runtime K c job h =
     (let h = destroy_shared_map K (lj_shared job) h;
          h = (if 0 \<le> n_held (lj_notify job)
               then unwatch_fd K (c_poller c) (n_held (lj_notify job)) h else h);
          h = drop_notify K (lj_notify job) h;
          (p, h) = (if 0 \<le> lj_deadline_id job
                    then unwatch_timer K (c_poller c) (lj_deadline_id job) h else (c_poller c, h));
          h = close_if K (lj_log_fd job) h;
          c = release_slot (forget_pids (lj_procs job) (c\<lparr>c_poller := p\<rparr>)) job in
      ((c, job\<lparr>lj_shared := no_map, lj_shm := False, lj_notify := no_notify, lj_deadline_id := -1,
               lj_log_fd := -1, lj_uses_slot := False\<rparr>), h))"

abbreviation SIGINT :: int where "SIGINT \<equiv> 2"
abbreviation SIGKILL :: int where "SIGKILL \<equiv> 9"
abbreviation SIGTERM :: int where "SIGTERM \<equiv> 15"
abbreviation SIGCHLD :: int where "SIGCHLD \<equiv> 17"

definition kill_target :: "proc_ref \<Rightarrow> int" where
  "kill_target pr = (if pr_grouped pr then - pr_pid pr else pr_pid pr)"

fun signal_procs :: "kernel \<Rightarrow> proc_ref list \<Rightarrow> int \<Rightarrow> hist \<Rightarrow> hist" where
  "signal_procs K [] sig h = h"
| "signal_procs K (pr # prs) sig h =
     signal_procs K prs sig
       (if pr_reaped pr \<or> pr_pid pr \<le> 0 then h else sys_do K (Proc (Kill (kill_target pr) sig)) h)"

definition signal_job :: "kernel \<Rightarrow> live_job \<Rightarrow> int \<Rightarrow> hist \<Rightarrow> hist" where
  "signal_job K job sig h = signal_procs K (lj_procs job) sig h"

definition request_stop ::
    "kernel \<Rightarrow> controller \<Rightarrow> live_job \<Rightarrow> string \<Rightarrow> hist \<Rightarrow> (live_job \<times> hist) option" where
  "request_stop K c job reason h =
     (if lj_stop_reason job \<noteq> [] then Some (job, h)
      else
        (let (now, h) = mono_ms K h;
             job = job\<lparr>lj_stop_reason := reason, lj_stop_sent_ms := now\<rparr> in
         do { h \<leftarrow> say K c (job_label (m_id (lj_meta job)) @ '' '' @ reason @ '', signalling workers'') h;
              (_, h) \<leftarrow> append_job_log K (c_root c) (m_id (lj_meta job)) (''controller: '' @ reason) h;
              Some (job, signal_job K job SIGTERM h) }))"

section \<open>Judging the results\<close>

text \<open>The digest lines of \<^verbatim>\<open>chunk-sha256\<close> and the sums, over the first \<^verbatim>\<open>nchunks\<close> slots. The sum is
  a \<^verbatim>\<open>uint64_t\<close>.\<close>

fun digest_lines :: "nat \<Rightarrow> chunk_result list \<Rightarrow> u64 \<Rightarrow> string \<Rightarrow> string + (u64 \<times> string)" where
  "digest_lines i [] acc out = Inr (acc, out)"
| "digest_lines i (ch # chs) acc out =
     (if cr_ok ch = 0 then Inl (if cr_error ch \<noteq> [] then cr_error ch else ''chunk failed'')
      else digest_lines (Suc i) chs (acc + cr_bytes ch)
        (out @ dec_nat i @ '' '' @ dec_u64 (cr_offset ch) @ '' '' @ dec_u64 (cr_length ch) @ '' ''
         @ cr_hex ch @ [NL]))"

fun sum_chunks :: "chunk_result list \<Rightarrow> u64 \<Rightarrow> string + u64" where
  "sum_chunks [] acc = Inr acc"
| "sum_chunks (ch # chs) acc =
     (if cr_ok ch = 0 then Inl (if cr_error ch \<noteq> [] then cr_error ch else ''chunk failed'')
      else sum_chunks chs (acc + cr_bytes ch))"

definition used_chunks :: "shared_region \<Rightarrow> chunk_result list" where
  "used_chunks r = take (unat (sr_nchunks r)) (sr_chunks r)"

text \<open>The first process that did not exit with 0.\<close>

definition bad_exit :: "live_job \<Rightarrow> proc_ref option" where
  "bad_exit job = find (\<lambda>pr. pr_how pr \<noteq> ''exited:0'') (lj_procs job)"

text \<open>The part of \<^verbatim>\<open>results_ok\<close> that reads the region.\<close>

definition judge_region :: "meta \<Rightarrow> shared_region \<Rightarrow> string + string" where
  "judge_region m r =
     (let c0 = sr_chunks r ! 0 in
      if m_op m = ''sha256'' then
        (if cr_ok c0 = 0 \<or> cr_hex c0 = []
         then Inl (if cr_error c0 \<noteq> [] then cr_error c0 else ''empty digest'')
         else Inr (cr_hex c0 @ [NL]))
      else if m_op m = ''chunk-sha256'' then
        (case digest_lines 0 (used_chunks r) 0
           (''bytes '' @ dec_u64 (m_bytes m) @ [NL] @ ''chunks '' @ dec_nat (unat (sr_nchunks r)) @ [NL]
            @ ''note each line is the sha256 of that slice, not of the whole file'' @ [NL]) of
           Inl why \<Rightarrow> Inl why
         | Inr (acc, out) \<Rightarrow>
             if acc \<noteq> m_bytes m then Inl ''chunk bytes do not add up to the file size'' else Inr out)
      else if m_op m = ''count'' then
        (case sum_chunks (used_chunks r) 0 of
           Inl why \<Rightarrow> Inl why
         | Inr acc \<Rightarrow>
             if acc \<noteq> m_bytes m
             then Inl (''count '' @ dec_u64 acc @ '' != file size '' @ dec_u64 (m_bytes m))
             else Inr (dec_u64 acc @ [NL]))
      else if m_op m = ''copy'' then
        (if cr_ok c0 = 0 then Inl (if cr_error c0 \<noteq> [] then cr_error c0 else ''copy failed'') else Inr [])
      else Inl ''unknown operation'')"

definition results_ok ::
    "kernel \<Rightarrow> controller \<Rightarrow> live_job \<Rightarrow> hist \<Rightarrow> (string + string) \<times> hist" where
  "results_ok K c job h =
     (let m = lj_meta job in
      if m_op m = ''exec'' then
        (if length (lj_procs job) \<noteq> 1 \<or> pr_how (lj_procs job ! 0) \<noteq> ''exited:0''
         then (Inl (if lj_procs job = [] then ''exec produced no child'' else pr_how (lj_procs job ! 0)), h)
         else (Inr [], h))
      else if \<not> lj_shm job then (Inl ''missing shared region'', h)
      else
        (let (r, h) = sys_region K (Shm (LoadRegion (sm_fd (lj_shared job)))) h in
         if sr_chunks_done r < sr_nchunks r
         then (Inl (''published '' @ dec_nat (unat (sr_chunks_done r)) @ '' of ''
                    @ dec_nat (unat (sr_nchunks r)) @ '' chunks''), h)
         else case bad_exit job of
           Some pr \<Rightarrow> (Inl (''worker '' @ pr_how pr), h)
         | None \<Rightarrow>
            (case judge_region m r of
               Inl why \<Rightarrow> (Inl why, h)
             | Inr body \<Rightarrow>
                 if m_op m = ''copy'' then
                   (case inspect_file K (job_directory (c_root c) (m_id m) @ ''/output'') h of
                      (Inl err, h) \<Rightarrow> (Inl (''copy output missing: '' @ err), h)
                    | (Inr info, h) \<Rightarrow>
                        if fi_size info \<noteq> m_bytes m
                        then (Inl (''output size '' @ dec_u64 (fi_size info) @ '' != input ''
                                   @ dec_u64 (m_bytes m)), h)
                        else (Inr [], h))
                 else (Inr body, h))))"

section \<open>Finishing a job\<close>

definition failure_state :: "live_job \<Rightarrow> string" where
  "failure_state job =
     (if lj_stop_reason job = ''timed_out'' then ''timed_out''
      else if lj_stop_reason job = ''cancelled'' \<or> lj_stop_reason job = ''shutdown'' then ''cancelled''
      else ''failed'')"

definition set_digest :: "string \<Rightarrow> live_job \<Rightarrow> live_job" where
  "set_digest body job =
     (if (m_op (lj_meta job) = ''sha256'' \<or> m_op (lj_meta job) = ''count'') \<and> body \<noteq> []
      then job\<lparr>lj_meta := (lj_meta job)\<lparr>m_digest := strip_back (\<lambda>ch. ch = NL) body\<rparr>\<rparr> else job)"

text \<open>The verdict on a job: its final state and its error, before the output is written.\<close>

definition verdict :: "string + string \<Rightarrow> live_job \<Rightarrow> string \<times> live_job" where
  "verdict res job =
     (case res of
        Inl why \<Rightarrow>
          (failure_state job, set_meta_error (if why = [] then failure_state job else why) job)
      | Inr body \<Rightarrow> (''completed'', set_meta_error [] (set_digest body job)))"

text \<open>Writing the output of a good result that has a body.\<close>

definition persist_output ::
    "kernel \<Rightarrow> controller \<Rightarrow> u64 \<Rightarrow> live_job \<Rightarrow> string \<Rightarrow> string + string \<Rightarrow> hist \<Rightarrow>
     ((string \<times> live_job) \<times> hist) option" where
  "persist_output K c jid job st res h =
     (case res of
        Inl _ \<Rightarrow> Some ((st, job), h)
      | Inr body \<Rightarrow>
          if body = [] then Some ((st, job), h)
          else
            do { ((_, job), h) \<leftarrow> set_state K c job ''persisting'' h;
                 (w, h) \<leftarrow> atomic_write_file K (job_directory (c_root c) jid @ ''/output'') body h;
                 Some (case w of
                         Inl err \<Rightarrow> ((''failed'', set_meta_error err job), h)
                       | Inr _ \<Rightarrow> ((st, job), h)) })"

definition mark_finished :: "int \<Rightarrow> live_job \<Rightarrow> live_job" where
  "mark_finished now job =
     job\<lparr>lj_finished := True,
         lj_meta := (lj_meta job)\<lparr>m_exits := join_exits job, m_finished_ms := now\<rparr>\<rparr>"

definition finalize :: "kernel \<Rightarrow> controller \<Rightarrow> u64 \<Rightarrow> hist \<Rightarrow> (controller \<times> hist) option" where
  "finalize K c jid h =
     (case find_job c jid of
        None \<Rightarrow> Some (c, h)
      | Some job \<Rightarrow>
          if lj_finished job then Some (c, h)
          else
            (let (now, h) = realtime_ms K h;
                 job = mark_finished now job;
                 (res, h) = results_ok K c job h;
                 (st, job) = verdict res job in
             do { ((st, job), h) \<leftarrow> persist_output K c jid job st res h;
                  ((_, job), h) \<leftarrow> set_state K c job st h;
                  h \<leftarrow> say K c (job_label jid @ '' '' @ st
                            @ (if m_error (lj_meta job) = [] then []
                               else '' ('' @ m_error (lj_meta job) @ '')'')) h;
                  ((c, job), h) \<leftarrow> Some (release_runtime K c job h);
                  Some (unqueue jid (drop_job jid c), h) }))"

section \<open>Starting a job\<close>

text \<open>One iteration of the fork loop in the parent. The child's branch does not come back to the
  loop (\<^verbatim>\<open>worker_entry\<close> does not return), which is \<open>None\<close>.\<close>

definition spawn_one :: "kernel \<Rightarrow> nat \<Rightarrow> hist \<Rightarrow> ((string + proc_ref) \<times> hist) option" where
  "spawn_one K i h =
     (let (f, h) = sys_num K (Proc (Fork i)) h in
      case f of
        Inl e \<Rightarrow> Some (Inl (''fork: '' @ errno_string K e), h)
      | Inr pid \<Rightarrow>
          if pid = 0 then None
          else
            (let (g, h) = sys_done K (Proc (SetPgid pid)) h;
                 pr = empty_proc\<lparr>pr_pid := pid, pr_grouped := (g = None \<or> g = Some EACCES)\<rparr> in
             do { ((_, start), h) \<leftarrow> proc_starttime K pid 0 h;
                  Some (Inr (pr\<lparr>pr_start := start\<rparr>), h) }))"

fun spawn_loop ::
    "kernel \<Rightarrow> nat list \<Rightarrow> proc_ref list \<Rightarrow> hist \<Rightarrow> ((string option \<times> proc_ref list) \<times> hist) option" where
  "spawn_loop K [] spawned h = Some ((None, spawned), h)"
| "spawn_loop K (i # idx) spawned h =
     do { (r, h) \<leftarrow> spawn_one K i h;
          case r of
            Inl err \<Rightarrow> Some ((Some err, spawned), h)
          | Inr pr \<Rightarrow> spawn_loop K idx (spawned @ [pr]) h }"

text \<open>What the child of iteration \<open>i\<close> is started with.\<close>

definition child_launch ::
    "controller \<Rightarrow> live_job \<Rightarrow> string \<Rightarrow> shared_map \<Rightarrow> notify \<Rightarrow> fd \<Rightarrow> byte_range list \<Rightarrow> nat \<Rightarrow> worker_launch" where
  "child_launch c job job_dir shared note log_fd ranges i =
     \<lparr>wl_meta = lj_meta job, wl_job_dir = job_dir,
      wl_shm = (if sm_mapped shared then Some (sm_fd shared) else None),
      wl_event_fd = n_child_write note, wl_log_fd = log_fd, wl_chunk_index = int i,
      wl_offset = br_offset (ranges ! i), wl_length = br_length (ranges ! i),
      wl_close_fds = fds_to_close c @ (if 0 \<le> n_child_close note then [n_child_close note] else [])
        @ (if 0 \<le> sm_fd shared then [sm_fd shared] else [])\<rparr>"

partial_function (option) wait_pid_loop :: "kernel \<Rightarrow> int \<Rightarrow> hist \<Rightarrow> hist option" where
  "wait_pid_loop K pid h =
     (case sys_child K (Proc (WaitPid pid)) h of
        (Inl e, h') \<Rightarrow> if e = EINTR then wait_pid_loop K pid h' else Some h'
      | (Inr _, h') \<Rightarrow> Some h')"

definition kill_spawned :: "kernel \<Rightarrow> proc_ref \<Rightarrow> hist \<Rightarrow> hist option" where
  "kill_spawned K pr h =
     wait_pid_loop K (pr_pid pr) (sys_do K (Proc (Kill (kill_target pr) SIGKILL)) h)"

definition open_start_gate :: "kernel \<Rightarrow> fd \<Rightarrow> hist \<Rightarrow> hist" where
  "open_start_gate K shm h = sys_do K (Shm (FutexWake shm)) (sys_do K (Shm (StoreGate shm)) h)"

definition open_gate_if :: "kernel \<Rightarrow> shared_map \<Rightarrow> hist \<Rightarrow> hist" where
  "open_gate_if K shared h = (if sm_mapped shared then open_start_gate K (sm_fd shared) h else h)"

text \<open>The check of the input: its size, or why the job cannot start.\<close>

definition check_input ::
    "kernel \<Rightarrow> controller \<Rightarrow> u64 \<Rightarrow> live_job \<Rightarrow> hist \<Rightarrow> ((string + live_job) \<times> hist) option" where
  "check_input K c jid job h =
     (if m_op (lj_meta job) = ''exec'' then Some (Inr job, h)
      else case inspect_file K (m_input (lj_meta job)) h of
        (Inl err, h) \<Rightarrow> Some (Inl (if err = [] then ''input is not a regular file'' else err), h)
      | (Inr info, h) \<Rightarrow>
          if \<not> fi_regular info then Some (Inl ''input is not a regular file'', h)
          else
            do { h \<leftarrow> say K c (job_label jid @ '' input '' @ dec_u64 (fi_size info)
                         @ '' bytes, allocated blocks '' @ dec_u64 (fi_blocks_512 info) @ ''x512''
                         @ (if fi_have_btime info then '', btime present'' else [])) h;
                 Some (Inr (job\<lparr>lj_meta := (lj_meta job)\<lparr>m_bytes := fi_size info\<rparr>\<rparr>), h) })"

definition job_ranges :: "meta \<Rightarrow> byte_range list" where
  "job_ranges m =
     split_ranges (m_bytes m) (if m_op m = ''exec'' then 1 else m_workers m)
       (if m_io m = ''direct'' then kDirectAlign else 1)"

text \<open>The shared objects of a job that is not \<^verbatim>\<open>exec\<close>; on failure what exists is destroyed.\<close>

definition create_channels ::
    "kernel \<Rightarrow> meta \<Rightarrow> nat \<Rightarrow> hist \<Rightarrow> (string + (shared_map \<times> notify)) \<times> hist" where
  "create_channels K m chunks h =
     (if m_op m = ''exec'' then (Inr (no_map, no_notify), h)
      else case create_shared_map K h of
        ((Inl err, shared), h) \<Rightarrow> (Inl err, destroy_shared_map K shared h)
      | ((Inr _, shared), h) \<Rightarrow>
         (case create_notify K h of
            (Inl err, h) \<Rightarrow> (Inl err, destroy_shared_map K shared h)
          | (Inr note, h) \<Rightarrow>
              (Inr (shared, note),
               sys_do K (Shm (StoreRegion (sm_fd shared)
                 (zero_region\<lparr>sr_magic := kShmMagic, sr_nchunks := word_of_nat chunks\<rparr>))) h)))"

text \<open>The job could not start: its record says why, and it is no longer live.\<close>

definition refuse_job ::
    "kernel \<Rightarrow> controller \<Rightarrow> u64 \<Rightarrow> live_job \<Rightarrow> string \<Rightarrow> hist \<Rightarrow> (controller \<times> hist) option" where
  "refuse_job K c jid job err h =
     do { h \<leftarrow> try_save K c (lj_meta (set_meta_error err (set_meta_state ''failed'' job))) h;
          Some (drop_job jid c, h) }"

text \<open>All workers exist: the job owns them, the gate opens, the deadline starts, the slot is taken.\<close>

definition watch_notify ::
    "kernel \<Rightarrow> controller \<Rightarrow> u64 \<Rightarrow> notify \<Rightarrow> hist \<Rightarrow> (controller \<times> hist) option" where
  "watch_notify K c jid note h =
     (if n_held note < 0 then Some (c, h)
      else case watch_fd K (c_poller c) (n_held note) (pack_wake Wake_JobEvent jid) h of
        ((Inr _, p), h) \<Rightarrow> Some (c\<lparr>c_poller := p\<rparr>, h)
      | ((Inl err, p), h) \<Rightarrow>
          do { h \<leftarrow> say K (c\<lparr>c_poller := p\<rparr>) (job_label jid @ '' watch notify: '' @ err) h;
               Some (c\<lparr>c_poller := p\<rparr>, h) })"

definition start_deadline ::
    "kernel \<Rightarrow> controller \<Rightarrow> u64 \<Rightarrow> live_job \<Rightarrow> hist \<Rightarrow> ((controller \<times> live_job) \<times> hist) option" where
  "start_deadline K c jid job h =
     (if 0 < m_deadline_s (lj_meta job) then
        (case watch_timer K (c_poller c) (pack_wake Wake_JobDeadline jid)
                (m_deadline_s (lj_meta job) * 1000) 0 h of
           ((Inr tid, p), h) \<Rightarrow> Some ((c\<lparr>c_poller := p\<rparr>, job\<lparr>lj_deadline_id := tid\<rparr>), h)
         | ((Inl err, p), h) \<Rightarrow>
             do { h \<leftarrow> say K (c\<lparr>c_poller := p\<rparr>) (job_label jid @ '' deadline: '' @ err) h;
                  Some ((c\<lparr>c_poller := p\<rparr>, job\<lparr>lj_deadline_id := -1\<rparr>), h) })
      else Some ((c, job), h))"

definition adopt_workers ::
    "proc_ref list \<Rightarrow> shared_map \<Rightarrow> notify \<Rightarrow> fd \<Rightarrow> live_job \<Rightarrow> live_job" where
  "adopt_workers spawned shared note log_fd job =
     job\<lparr>lj_procs := spawned, lj_meta := (lj_meta job)\<lparr>m_procs := format_procs spawned\<rparr>,
         lj_shared := shared, lj_shm := sm_mapped shared, lj_notify := note, lj_log_fd := log_fd\<rparr>"

definition run_job ::
    "kernel \<Rightarrow> controller \<Rightarrow> u64 \<Rightarrow> live_job \<Rightarrow> hist \<Rightarrow> (controller \<times> hist) option" where
  "run_job K c jid job h =
     (let c = own_pids jid (lj_procs job) c;
          h = open_gate_if K (lj_shared job) h in
      do { (c, h) \<leftarrow> watch_notify K c jid (lj_notify job) h;
           ((c, job), h) \<leftarrow> start_deadline K c jid job h;
           job \<leftarrow> Some (job\<lparr>lj_uses_slot := True\<rparr>);
           c \<leftarrow> Some (take_slot c);
           ((_, job), h) \<leftarrow> set_state K c job ''running'' h;
           h \<leftarrow> say K c (''running job '' @ dec_u64 jid @ '' workers '' @ dec_nat (length (lj_procs job))
                  @ '' slots '' @ dec_int (c_slots_used c) @ ''/'' @ dec_int (c_slots_max c)) h;
           Some (put_job jid job c, h) })"

text \<open>A fork failed: the workers that exist are released, killed and waited for.\<close>

definition abort_launch ::
    "kernel \<Rightarrow> controller \<Rightarrow> u64 \<Rightarrow> live_job \<Rightarrow> proc_ref list \<Rightarrow> shared_map \<Rightarrow> notify \<Rightarrow> fd \<Rightarrow> string \<Rightarrow>
     hist \<Rightarrow> (controller \<times> hist) option" where
  "abort_launch K c jid job spawned shared note log_fd err h =
     (let h = open_gate_if K shared h in
      do { h \<leftarrow> for_each (kill_spawned K) spawned h;
           h \<leftarrow> Some (destroy_shared_map K shared h);
           (now, h) \<leftarrow> Some (realtime_ms K h);
           job \<leftarrow> Some (set_finished_ms now (set_meta_error err (set_meta_state ''failed'' job)));
           h \<leftarrow> try_save K c (lj_meta job) h;
           h \<leftarrow> say K c (job_label jid @ '' '' @ err) h;
           Some (drop_job jid c, close_if K log_fd (drop_notify K note h)) })"

definition start_workers ::
    "kernel \<Rightarrow> controller \<Rightarrow> u64 \<Rightarrow> live_job \<Rightarrow> fd \<Rightarrow> hist \<Rightarrow> (controller \<times> hist) option" where
  "start_workers K c jid job log_fd h =
     (let ranges = job_ranges (lj_meta job) in
      case create_channels K (lj_meta job) (length ranges) h of
        (Inl err, h) \<Rightarrow>
          do { (c, h) \<leftarrow> refuse_job K c jid job err h; Some (c, close_if K log_fd h) }
      | (Inr (shared, note), h) \<Rightarrow>
          do { ((_, job), h) \<leftarrow> set_state K c job ''starting'' h;
               (now, h) \<leftarrow> Some (realtime_ms K h);
               job \<leftarrow> Some (job\<lparr>lj_meta := (lj_meta job)\<lparr>m_started_ms := now\<rparr>\<rparr>);
               ((err, spawned), h) \<leftarrow> spawn_loop K [0..<length ranges] [] h;
               case err of
                 Some err \<Rightarrow> abort_launch K c jid job spawned shared note log_fd err h
               | None \<Rightarrow> run_job K c jid (adopt_workers spawned shared note log_fd job) h })"

definition launch_job :: "kernel \<Rightarrow> controller \<Rightarrow> u64 \<Rightarrow> hist \<Rightarrow> (controller \<times> hist) option" where
  "launch_job K c jid h =
     (case find_job c jid of
        None \<Rightarrow> Some (c, h)
      | Some job \<Rightarrow>
          do { (r, h) \<leftarrow> check_input K c jid job h;
               case r of
                 Inl err \<Rightarrow>
                   do { (now, h) \<leftarrow> Some (realtime_ms K h);
                        job \<leftarrow> Some (set_finished_ms now (set_meta_state ''failed'' (set_meta_error err job)));
                        h \<leftarrow> try_save K c (lj_meta job) h;
                        h \<leftarrow> say K c (job_label jid @ '' '' @ m_error (lj_meta job)) h;
                        ((c, job), h) \<leftarrow> Some (release_runtime K c job h);
                        Some (drop_job jid c, h) }
               | Inr job \<Rightarrow>
                   (case open_job_log K (c_root c) jid h of
                      (Inl err, h) \<Rightarrow> refuse_job K c jid job err h
                    | (Inr log_fd, h) \<Rightarrow> start_workers K c jid job log_fd h) })"

section \<open>The queue\<close>

text \<open>\<^verbatim>\<open>schedule\<close>: start the best queued job while there is a free slot.\<close>

partial_function (option) schedule_loop ::
    "kernel \<Rightarrow> controller \<Rightarrow> hist \<Rightarrow> (controller \<times> hist) option" where
  "schedule_loop K c h =
     (if c_slots_used c < c_slots_max c then
        (case pick_next c of
           None \<Rightarrow> Some (c, h)
         | Some (jid, c') \<Rightarrow>
             Option.bind (launch_job K c' jid h) (\<lambda>(c'', h'). schedule_loop K c'' h'))
      else Some (c, h))"

definition schedule :: "kernel \<Rightarrow> controller \<Rightarrow> hist \<Rightarrow> (controller \<times> hist) option" where
  "schedule K c h = (if c_shutting_down c then Some (c, h) else schedule_loop K c h)"

text \<open>A record that is not terminal becomes cancelled or failed, without the job being live.\<close>

definition close_record ::
    "kernel \<Rightarrow> controller \<Rightarrow> meta \<Rightarrow> string \<Rightarrow> string \<Rightarrow> hist \<Rightarrow> hist option" where
  "close_record K c m st err h =
     (let (now, h) = realtime_ms K h in
      try_save K c (m\<lparr>m_state := st, m_error := err, m_finished_ms := now\<rparr>) h)"

definition admit_job ::
    "kernel \<Rightarrow> controller \<Rightarrow> u64 \<Rightarrow> meta \<Rightarrow> hist \<Rightarrow> (controller \<times> hist) option" where
  "admit_job K c jid m h =
     (let job = set_meta_state ''queued'' (new_job m) in
      do { h \<leftarrow> try_save K c (lj_meta job) h;
           c \<leftarrow> Some (put_job jid job (c\<lparr>c_queue := c_queue c @ [jid]\<rparr>));
           h \<leftarrow> say K c (''queued job '' @ dec_u64 jid @ '' '' @ m_op m) h;
           schedule K c h })"

definition enqueue :: "kernel \<Rightarrow> controller \<Rightarrow> u64 \<Rightarrow> hist \<Rightarrow> (controller \<times> hist) option" where
  "enqueue K c jid h =
     (if c_shutting_down c then
        do { (r, h) \<leftarrow> load_meta K (c_root c) jid h;
             case r of
               Inl _ \<Rightarrow> Some (c, h)
             | Inr m \<Rightarrow>
                 if is_terminal_state (m_state m) then Some (c, h)
                 else do { h \<leftarrow> close_record K c m ''cancelled'' ''controller is shutting down'' h;
                           Some (c, h) } }
      else if find_job c jid \<noteq> None then Some (c, h)
      else
        do { (r, h) \<leftarrow> load_meta K (c_root c) jid h;
             case r of
               Inl err \<Rightarrow>
                 do { h \<leftarrow> say K c (''SUBMIT '' @ dec_u64 jid @ '' has no readable meta: '' @ err) h;
                      Some (c, h) }
             | Inr m \<Rightarrow>
                 if is_terminal_state (m_state m) then Some (c, h)
                 else case validate_meta m of
                   Inl err \<Rightarrow>
                     do { h \<leftarrow> close_record K c m ''failed'' err h;
                          h \<leftarrow> say K c (job_label jid @ '' rejected: '' @ err) h;
                          Some (c, h) }
                 | Inr _ \<Rightarrow> admit_job K c jid m h })"

end
