(* ===== verification/Controller_Loop.thy ===== *)
theory Controller_Loop
  imports Controller_Jobs
begin

text \<open>
  The event handlers of the controller and its main loop (\<^verbatim>\<open>controller.cpp\<close>): reaping, the
  cancel, notify, deadline and tick handlers, the control lines of the FIFO, recovery after a
  restart, setup and \<^verbatim>\<open>run_controller\<close>.
\<close>

section \<open>Reaping\<close>

definition note_reap ::
    "kernel \<Rightarrow> controller \<Rightarrow> int \<Rightarrow> wait_info \<Rightarrow> hist \<Rightarrow> (controller \<times> hist) option" where
  "note_reap K c pid info h =
     (case map_of (c_pid_owner c) pid of
        None \<Rightarrow>
          do { h \<leftarrow> say K c (''reaped unknown pid '' @ dec_int pid @ '' '' @ describe_wait info) h;
               Some (c, h) }
      | Some jid \<Rightarrow>
         (case find_job c jid of
            None \<Rightarrow> Some (c, h)
          | Some job \<Rightarrow>
             (let job = job\<lparr>lj_procs := map (note_exit pid (describe_wait info)) (lj_procs job)\<rparr> in
              do { h \<leftarrow> say K c (job_label jid @ '' pid '' @ dec_int pid @ '' '' @ describe_wait info) h;
                   (job, h) \<leftarrow> (if any_bad job \<and> lj_stop_reason job = []
                               then request_stop K c job ''failed'' h else Some (job, h));
                   c \<leftarrow> Some (put_job jid job c);
                   if all_reaped job then finalize K c jid h else Some (c, h) })))"

partial_function (option) reap :: "kernel \<Rightarrow> controller \<Rightarrow> hist \<Rightarrow> (controller \<times> hist) option" where
  "reap K c h =
     (case sys_child K (Proc WaitAny) h of
        (Inl e, h') \<Rightarrow>
          if e = EINTR then reap K c h'
          else if e = ECHILD then Some (c, h')
          else Option.bind (say K c (''waitid: '' @ errno_string K e) h') (\<lambda>h'. Some (c, h'))
      | (Inr (pid, info), h') \<Rightarrow>
          if pid = 0 then Some (c, h')
          else Option.bind (note_reap K c pid info h') (\<lambda>(c', h''). reap K c' h''))"

section \<open>Handlers\<close>

definition on_cancel :: "kernel \<Rightarrow> controller \<Rightarrow> u64 \<Rightarrow> hist \<Rightarrow> (controller \<times> hist) option" where
  "on_cancel K c jid h =
     (case find_job c jid of
        None \<Rightarrow>
          do { (r, h) \<leftarrow> load_meta K (c_root c) jid h;
               case r of
                 Inl _ \<Rightarrow> do { h \<leftarrow> say K c (''cancel: no job '' @ dec_u64 jid) h; Some (c, h) }
               | Inr m \<Rightarrow>
                   if is_terminal_state (m_state m) then Some (c, h)
                   else do { h \<leftarrow> close_record K c m ''cancelled'' ''cancelled'' h; Some (c, h) } }
      | Some job \<Rightarrow>
          if job_state job = ''queued'' then
            do { h \<leftarrow> close_record K c (lj_meta job) ''cancelled'' ''cancelled before start'' h;
                 h \<leftarrow> say K c (''cancelled queued job '' @ dec_u64 jid) h;
                 Some (drop_job jid (unqueue jid c), h) }
          else
            do { (job, h) \<leftarrow> request_stop K c job ''cancelled'' h; Some (put_job jid job c, h) })"

definition on_event :: "kernel \<Rightarrow> controller \<Rightarrow> u64 \<Rightarrow> hist \<Rightarrow> (controller \<times> hist) option" where
  "on_event K c jid h =
     (case find_job c jid of
        None \<Rightarrow> Some (c, h)
      | Some job \<Rightarrow>
          if n_held (lj_notify job) < 0 then Some (c, h)
          else case notify_read K (n_held (lj_notify job)) h of
            (Inl e, h) \<Rightarrow> do { h \<leftarrow> say K c (''notify read: '' @ errno_string K e) h; Some (c, h) }
          | (Inr count, h) \<Rightarrow>
             (let (done, h) = (if lj_shm job
                    then (case sys_region K (Shm (LoadRegion (sm_fd (lj_shared job)))) h of
                            (r, h) \<Rightarrow> (sr_chunks_done r, h))
                    else (0, h)) in
              do { h \<leftarrow> say K c (job_label jid @ '' eventfd +'' @ dec_u64 count @ '' chunks_done ''
                            @ dec_nat (unat done)) h;
                   Some (c, h) }))"

definition on_deadline :: "kernel \<Rightarrow> controller \<Rightarrow> u64 \<Rightarrow> hist \<Rightarrow> (controller \<times> hist) option" where
  "on_deadline K c jid h =
     (case find_job c jid of
        None \<Rightarrow> Some (c, h)
      | Some job \<Rightarrow>
          if lj_deadline_id job < 0 then Some (c, h)
          else do { (job, h) \<leftarrow> request_stop K c job ''timed_out'' h; Some (put_job jid job c, h) })"

definition is_running :: "live_job \<Rightarrow> bool" where
  "is_running job \<longleftrightarrow> job_state job = ''running'' \<or> job_state job = ''starting''"

definition write_status_file :: "kernel \<Rightarrow> controller \<Rightarrow> hist \<Rightarrow> hist option" where
  "write_status_file K c h =
     (let running = length (filter (\<lambda>(_, job). is_running job) (c_live c));
          (pid, h) = sys_value K (Env Getpid) h;
          (now, h) = realtime_ms K h;
          body = ''pid='' @ dec_int pid @ [NL] @ ''slots_used='' @ dec_int (c_slots_used c) @ [NL]
            @ ''slots_max='' @ dec_int (c_slots_max c) @ [NL] @ ''queued='' @ dec_nat (length (c_queue c)) @ [NL]
            @ ''running='' @ dec_nat running @ [NL] @ ''unix_ms='' @ dec_int now @ [NL];
          (o1, h) = sys_open K (c_root c @ ''/status.txt'') [O_WRONLY, O_CREAT, O_TRUNC, O_CLOEXEC] h in
      case o1 of
        Inl _ \<Rightarrow> Some h
      | Inr f \<Rightarrow> do { (_, h) \<leftarrow> write_all K f (text_bytes body) h; Some (sys_close K f h) })"

text \<open>The escalation of one job: a second after \<^verbatim>\<open>SIGTERM\<close> comes \<^verbatim>\<open>SIGKILL\<close>.\<close>

definition must_escalate :: "u64 \<Rightarrow> live_job \<Rightarrow> bool" where
  "must_escalate now job \<longleftrightarrow> lj_stop_reason job \<noteq> [] \<and> \<not> lj_kill_escalated job \<and>
     lj_stop_sent_ms job \<noteq> 0 \<and> 1000 < now - lj_stop_sent_ms job"

definition escalate ::
    "kernel \<Rightarrow> u64 \<Rightarrow> u64 \<Rightarrow> controller \<times> hist \<Rightarrow> (controller \<times> hist) option" where
  "escalate K now jid s =
     (case s of (c, h) \<Rightarrow>
       (case find_job c jid of
          None \<Rightarrow> Some (c, h)
        | Some job \<Rightarrow>
            if must_escalate now job then
              do { h \<leftarrow> say K c (job_label jid @ '' still alive 1s after SIGTERM, sending SIGKILL'') h;
                   h \<leftarrow> Some (signal_job K job SIGKILL h);
                   Some (put_job jid (job\<lparr>lj_kill_escalated := True\<rparr>) c, h) }
            else Some (c, h)))"

text \<open>The code after the status file has no effect: it computes a flag and returns.\<close>

definition on_tick :: "kernel \<Rightarrow> controller \<Rightarrow> hist \<Rightarrow> (controller \<times> hist) option" where
  "on_tick K c h =
     (let (now, h) = mono_ms K h in
      do { (c, h) \<leftarrow> for_each (escalate K now) (map fst (c_live c)) (c, h);
           h \<leftarrow> write_status_file K c h;
           Some (c, h) })"

section \<open>Control lines\<close>

definition cancel_each :: "kernel \<Rightarrow> u64 \<Rightarrow> controller \<times> hist \<Rightarrow> (controller \<times> hist) option" where
  "cancel_each K jid s = (case s of (c, h) \<Rightarrow> on_cancel K c jid h)"

definition stop_running :: "kernel \<Rightarrow> u64 \<Rightarrow> controller \<times> hist \<Rightarrow> (controller \<times> hist) option" where
  "stop_running K jid s =
     (case s of (c, h) \<Rightarrow>
       (case find_job c jid of
          None \<Rightarrow> Some (c, h)
        | Some job \<Rightarrow>
            if is_running job
            then do { (job, h) \<leftarrow> request_stop K c job ''shutdown'' h; Some (put_job jid job c, h) }
            else Some (c, h)))"

definition shut_down :: "kernel \<Rightarrow> controller \<Rightarrow> hist \<Rightarrow> (controller \<times> hist) option" where
  "shut_down K c h =
     do { h \<leftarrow> say K c ''shutdown requested'' h;
          c \<leftarrow> Some (c\<lparr>c_shutting_down := True\<rparr>);
          (c, h) \<leftarrow> for_each (cancel_each K) (c_queue c) (c, h);
          for_each (stop_running K) (map fst (c_live c)) (c, h) }"

definition handle_line :: "kernel \<Rightarrow> controller \<Rightarrow> string \<Rightarrow> hist \<Rightarrow> (controller \<times> hist) option" where
  "handle_line K c line h =
     (if line = ''SHUTDOWN'' then shut_down K c h
      else if take 7 line = ''SUBMIT '' then
        (case parse_u64 (drop 7 line) of
           None \<Rightarrow> do { h \<leftarrow> say K c ''bad SUBMIT line'' h; Some (c, h) }
         | Some jid \<Rightarrow> enqueue K c jid h)
      else if take 7 line = ''CANCEL '' then
        (case parse_u64 (drop 7 line) of
           None \<Rightarrow> do { h \<leftarrow> say K c ''bad CANCEL line'' h; Some (c, h) }
         | Some jid \<Rightarrow> on_cancel K c jid h)
      else do { h \<leftarrow> say K c (''ignored control line: '' @ line) h; Some (c, h) })"

partial_function (option) drain_fifo ::
    "kernel \<Rightarrow> controller \<Rightarrow> hist \<Rightarrow> (controller \<times> hist) option" where
  "drain_fifo K c h =
     (case sys_buf K (Fs (Read (c_fifo_fd c) 1024)) h of
        (Inl e, h') \<Rightarrow>
          if e = EINTR then drain_fifo K c h'
          else if e = EAGAIN then Some (c, h')
          else Option.bind (say K c (''fifo read: '' @ errno_string K e) h') (\<lambda>h'. Some (c, h'))
      | (Inr b, h') \<Rightarrow>
          if b = [] then Some (c, h')
          else drain_fifo K (c\<lparr>c_fifo_buf := c_fifo_buf c @ bytes_text b\<rparr>) h')"

partial_function (option) fifo_lines ::
    "kernel \<Rightarrow> controller \<Rightarrow> hist \<Rightarrow> (controller \<times> hist) option" where
  "fifo_lines K c h =
     (case split_first NL (c_fifo_buf c) of
        None \<Rightarrow> Some (c, h)
      | Some (line, rest) \<Rightarrow>
         (let c' = c\<lparr>c_fifo_buf := rest\<rparr>; line' = pop_cr line in
          if line' = [] then fifo_lines K c' h
          else Option.bind (handle_line K c' line' h) (\<lambda>(c'', h'). fifo_lines K c'' h')))"

definition on_fifo :: "kernel \<Rightarrow> controller \<Rightarrow> hist \<Rightarrow> (controller \<times> hist) option" where
  "on_fifo K c h =
     do { (c, h) \<leftarrow> drain_fifo K c h;
          (c, h) \<leftarrow> (if 65536 < length (c_fifo_buf c)
                    then do { h \<leftarrow> say K c ''control fifo overflow, discarding'' h;
                              Some (c\<lparr>c_fifo_buf := []\<rparr>, h) }
                    else Some (c, h));
          fifo_lines K c h }"

section \<open>Recovery and setup\<close>

text \<open>A left-over process is killed only when the kernel still knows it under the same start time.\<close>

definition kill_leftover :: "kernel \<Rightarrow> controller \<Rightarrow> u64 \<Rightarrow> proc_ref \<Rightarrow> hist \<Rightarrow> hist option" where
  "kill_leftover K c jid pr h =
     (if pr_start pr = 0 then Some h
      else
        do { ((ok, now), h) \<leftarrow> proc_starttime K (pr_pid pr) 0 h;
             if ok \<and> now = pr_start pr then
               (let h = sys_do K (Proc (Kill (- pr_pid pr) SIGKILL)) h;
                    h = sys_do K (Proc (Kill (pr_pid pr) SIGKILL)) h in
                say K c (''killed leftover pid '' @ dec_int (pr_pid pr) @ '' from job '' @ dec_u64 jid) h)
             else Some h })"

definition recover_job :: "kernel \<Rightarrow> u64 \<Rightarrow> controller \<times> hist \<Rightarrow> (controller \<times> hist) option" where
  "recover_job K jid s =
     (case s of (c, h) \<Rightarrow>
       do { (r, h) \<leftarrow> load_meta K (c_root c) jid h;
            case r of
              Inl _ \<Rightarrow> Some (c, h)
            | Inr m \<Rightarrow>
                if m_state m = ''running'' \<or> m_state m = ''starting'' \<or> m_state m = ''persisting'' then
                  do { h \<leftarrow> for_each (kill_leftover K c jid) (parse_procs (m_procs m)) h;
                       h \<leftarrow> close_record K c m ''failed''
                             ''controller restarted while the job was in progress'' h;
                       Some (c, h) }
                else if m_state m = ''submitted'' \<or> m_state m = ''queued'' then enqueue K c jid h
                else Some (c, h) })"

definition recover :: "kernel \<Rightarrow> controller \<Rightarrow> hist \<Rightarrow> (controller \<times> hist) option" where
  "recover K c h =
     (case list_job_ids K (c_root c) h of (ids, h) \<Rightarrow> for_each (recover_job K) ids (c, h))"

text \<open>The descriptors of \<^verbatim>\<open>setup\<close> and their registration, after the pid file.\<close>

definition watch_setup ::
    "kernel \<Rightarrow> controller \<Rightarrow> hist \<Rightarrow> ((string + unit) \<times> controller) \<times> hist" where
  "watch_setup K c h =
     (case watch_signals K (c_poller c) (pack_wake Wake_Signal 0) h of
        ((Inl err, p), h) \<Rightarrow> ((Inl err, c\<lparr>c_poller := p\<rparr>), h)
      | ((Inr _, p), h) \<Rightarrow>
         (case watch_fd K p (c_fifo_fd c) (pack_wake Wake_Fifo 0) h of
            ((Inl err, p), h) \<Rightarrow> ((Inl err, c\<lparr>c_poller := p\<rparr>), h)
          | ((Inr _, p), h) \<Rightarrow>
             (case watch_timer K p (pack_wake Wake_Tick 0) 200 200 h of
                ((Inl err, p), h) \<Rightarrow> ((Inl err, c\<lparr>c_poller := p, c_tick_id := -1\<rparr>), h)
              | ((Inr tid, p), h) \<Rightarrow> ((Inr (), c\<lparr>c_poller := p, c_tick_id := tid\<rparr>), h))))"

definition open_fds ::
    "kernel \<Rightarrow> controller \<Rightarrow> hist \<Rightarrow> ((string + unit) \<times> controller) \<times> hist" where
  "open_fds K c h =
     (let (f, h) = sys_open K (control_fifo_path (c_root c)) [O_RDWR, O_NONBLOCK, O_CLOEXEC] h;
          (l, h) = sys_open K (c_root c @ ''/controller.log'') [O_WRONLY, O_CREAT, O_APPEND, O_CLOEXEC] h;
          c = c\<lparr>c_fifo_fd := fd_or_none f, c_log_fd := fd_or_none l\<rparr> in
      case l of
        Inl e \<Rightarrow> ((Inl (''controller fd setup: '' @ errno_string K e), c), h)
      | Inr _ \<Rightarrow>
         (case f of
            Inl e \<Rightarrow> ((Inl (''controller fd setup: '' @ errno_string K e), c), h)
          | Inr _ \<Rightarrow> watch_setup K c h))"

definition setup_controller ::
    "kernel \<Rightarrow> controller \<Rightarrow> hist \<Rightarrow> (((string + unit) \<times> controller) \<times> hist) option" where
  "setup_controller K c h =
     (case ensure_workspace K (c_root c) h of
        (Inl err, h) \<Rightarrow> Some ((Inl err, c), h)
      | (Inr _, h) \<Rightarrow>
         (case acquire_controller_lock K (c_root c) h of
            (Inl err, h) \<Rightarrow> Some ((Inl err, c), h)
          | (Inr lock, h) \<Rightarrow>
             (let c = c\<lparr>c_lock_fd := lock\<rparr>; (pid, h) = sys_value K (Env Getpid) h in
              do { (w, h) \<leftarrow> write_pid_file K (c_root c) pid h;
                   case w of
                     Inl err \<Rightarrow> Some ((Inl err, c), h)
                   | Inr _ \<Rightarrow>
                      (case poller_open K (c_poller c) h of
                         ((Inl err, p), h) \<Rightarrow> Some ((Inl err, c\<lparr>c_poller := p\<rparr>), h)
                       | ((Inr _, p), h) \<Rightarrow> Some (open_fds K (c\<lparr>c_poller := p\<rparr>) h)) })))"

section \<open>The main loop\<close>

text \<open>One event; the flag says that the loop returns 0.\<close>

definition handle_event ::
    "kernel \<Rightarrow> controller \<Rightarrow> wait_event \<Rightarrow> hist \<Rightarrow> ((bool \<times> controller) \<times> hist) option" where
  "handle_event K c ev h =
     (case wake_kind (we_token ev) of
        None \<Rightarrow> Some ((False, c), h)
      | Some Wake_Signal \<Rightarrow>
          if we_signo ev = SIGCHLD then
            do { (c, h) \<leftarrow> reap K c h; (c, h) \<leftarrow> schedule K c h; Some ((False, c), h) }
          else if we_signo ev = SIGTERM \<or> we_signo ev = SIGINT then
            do { (c, h) \<leftarrow> handle_line K c ''SHUTDOWN'' h; Some ((False, c), h) }
          else Some ((False, c), h)
      | Some Wake_Fifo \<Rightarrow> do { (c, h) \<leftarrow> on_fifo K c h; Some ((False, c), h) }
      | Some Wake_Tick \<Rightarrow>
          do { (c, h) \<leftarrow> on_tick K c h; Some ((c_shutting_down c \<and> idle c, c), h) }
      | Some Wake_JobEvent \<Rightarrow>
          do { (c, h) \<leftarrow> on_event K c (wake_job (we_token ev)) h; Some ((False, c), h) }
      | Some Wake_JobDeadline \<Rightarrow>
          do { (c, h) \<leftarrow> on_deadline K c (wake_job (we_token ev)) h; Some ((False, c), h) })"

fun handle_events ::
    "kernel \<Rightarrow> wait_event list \<Rightarrow> controller \<Rightarrow> hist \<Rightarrow> ((bool \<times> controller) \<times> hist) option" where
  "handle_events K [] c h = Some ((False, c), h)"
| "handle_events K (ev # evs) c h =
     do { ((stop, c), h) \<leftarrow> handle_event K c ev h;
          if stop then Some ((True, c), h) else handle_events K evs c h }"

text \<open>One iteration of \<^verbatim>\<open>while (true)\<close>: \<open>Inl\<close> is the value the loop returns, \<open>Inr\<close> the state
  of the next iteration with \<^verbatim>\<open>shutdown_since\<close>.\<close>

definition loop_step ::
    "kernel \<Rightarrow> controller \<Rightarrow> u64 \<Rightarrow> hist \<Rightarrow> ((int + u64) \<times> controller \<times> hist) option" where
  "loop_step K c since h =
     (if c_shutting_down c \<and> idle c then Some (Inl 0, c, h)
      else
        (let (since, h) = (if c_shutting_down c \<and> since = 0 then mono_ms K h else (since, h));
             (late, h) = (if c_shutting_down c \<and> since \<noteq> 0
                          then (case mono_ms K h of (now, h) \<Rightarrow> (3000 < now - since, h))
                          else (False, h)) in
         if late \<and> idle c then Some (Inl 0, c, h)
         else case poller_wait K (c_poller c) 16 h of
           (Inl err, h) \<Rightarrow> do { h \<leftarrow> say K c err h; Some (Inl 1, c, h) }
         | (Inr evs, h) \<Rightarrow>
             if evs = [] then Some (Inr since, c, h)
             else
               do { ((stop, c), h) \<leftarrow> handle_events K evs c h;
                    if stop then Some (Inl 0, c, h)
                    else do { (c, h) \<leftarrow> schedule K c h; Some (Inr since, c, h) } }))"

partial_function (option) main_loop ::
    "kernel \<Rightarrow> controller \<Rightarrow> u64 \<Rightarrow> hist \<Rightarrow> (int \<times> controller \<times> hist) option" where
  "main_loop K c since h =
     Option.bind (loop_step K c since h)
       (\<lambda>(r, c', h'). case r of Inl rc \<Rightarrow> Some (rc, c', h') | Inr since' \<Rightarrow> main_loop K c' since' h')"

definition loop :: "kernel \<Rightarrow> controller \<Rightarrow> hist \<Rightarrow> (int \<times> controller \<times> hist) option" where
  "loop K c h =
     (let (pid, h) = sys_value K (Env Getpid) h in
      do { h \<leftarrow> say K c (''controller pid '' @ dec_int pid @ '' workspace '' @ c_root c @ '' slots ''
                    @ dec_int (c_slots_max c)) h;
           (c, h) \<leftarrow> recover K c h;
           main_loop K c 0 h })"

text \<open>The descriptors the controller still holds are closed by the end of the process.\<close>

definition run_controller :: "kernel \<Rightarrow> string \<Rightarrow> int \<Rightarrow> hist \<Rightarrow> (int \<times> hist) option" where
  "run_controller K workspace slots h =
     (let h = sys_do K (Proc IgnorePipe) h;
          c = new_controller workspace slots;
          (_, h) = mono_ms K h in
      do { ((r, c), h) \<leftarrow> setup_controller K c h;
           case r of
             Inl err \<Rightarrow> Some (1, sys_do K (Env (PrintErr (''forge: '' @ err @ [NL]))) h)
           | Inr _ \<Rightarrow>
               do { (rc, c, h) \<leftarrow> loop K c h;
                    h \<leftarrow> Some (remove_pid_file K (c_root c) h);
                    h \<leftarrow> say K c ''controller stopped'' h;
                    Some (rc, h) } })"

end
