(* ===== verification/Controller_Spec.thy ===== *)
theory Controller_Spec
  imports Controller_State
begin

text \<open>
  What the controller may do to its jobs, as a step relation: each rule is one change of the queue,
  of the live jobs and of the slots that the design allows. The invariant of the controller is
  proved here by rule induction; that the handlers of \<^verbatim>\<open>controller.cpp\<close> make only such steps is
  proved in \<open>Controller_Sim\<close>.
\<close>

section \<open>The parts of a step\<close>

definition slot_of :: "live_job \<Rightarrow> int" where
  "slot_of job = (if lj_uses_slot job then 1 else 0)"

definition slots_held :: "(u64 \<times> live_job) list \<Rightarrow> int" where
  "slots_held xs = sum_list (map (\<lambda>(_, job). slot_of job) xs)"

definition pids_of :: "live_job \<Rightarrow> int set" where
  "pids_of job = pr_pid ` set (lj_procs job)"

definition stop_reasons :: "string set" where
  "stop_reasons = {''failed'', ''cancelled'', ''timed_out'', ''shutdown''}"

definition stop_with :: "string \<Rightarrow> u64 \<Rightarrow> live_job \<Rightarrow> live_job" where
  "stop_with reason t job = job\<lparr>lj_stop_reason := reason, lj_stop_sent_ms := t\<rparr>"

definition with_exit :: "int \<Rightarrow> string \<Rightarrow> live_job \<Rightarrow> live_job" where
  "with_exit pid how job = job\<lparr>lj_procs := map (note_exit pid how) (lj_procs job)\<rparr>"

text \<open>A job that starts keeps the request of its record and gets processes that all still run.\<close>

definition starts :: "live_job \<Rightarrow> live_job \<Rightarrow> bool" where
  "starts job job' \<longleftrightarrow>
     (\<exists>b t procs. lj_meta job' = (lj_meta job)\<lparr>m_state := ''running'', m_bytes := b,
          m_started_ms := t, m_procs := format_procs procs\<rparr> \<and>
        lj_procs job' = procs \<and> procs \<noteq> [] \<and> list_all (\<lambda>pr. \<not> pr_reaped pr) procs) \<and>
     lj_uses_slot job' \<and> lj_finished job' = lj_finished job \<and> lj_stop_reason job' = lj_stop_reason job"

text \<open>A job leaves the controller: its pids and its slot are free again.\<close>

definition retire :: "u64 \<Rightarrow> live_job \<Rightarrow> poller \<Rightarrow> controller \<Rightarrow> controller" where
  "retire jid job p c =
     unqueue jid (drop_job jid (release_slot (forget_pids (lj_procs job) (c\<lparr>c_poller := p\<rparr>)) job))"

section \<open>The steps\<close>

inductive ctl_step :: "controller \<Rightarrow> controller \<Rightarrow> bool" where
  admit: "\<not> c_shutting_down c \<Longrightarrow> find_job c jid = None \<Longrightarrow> validate_meta m = Inr () \<Longrightarrow>
    ctl_step c (put_job jid (set_meta_state ''queued'' (new_job m)) (c\<lparr>c_queue := c_queue c @ [jid]\<rparr>))"
| refuse: "\<not> c_shutting_down c \<Longrightarrow> pick_next c = Some (jid, c1) \<Longrightarrow>
    (poller_ok (c_poller c) \<Longrightarrow> poller_ok p) \<Longrightarrow> ctl_step c (drop_job jid (c1\<lparr>c_poller := p\<rparr>))"
| start: "\<not> c_shutting_down c \<Longrightarrow> c_slots_used c < c_slots_max c \<Longrightarrow> pick_next c = Some (jid, c1) \<Longrightarrow>
    find_job c jid = Some job \<Longrightarrow> starts job job' \<Longrightarrow> (poller_ok (c_poller c) \<Longrightarrow> poller_ok p) \<Longrightarrow>
    ctl_step c (put_job jid job' (take_slot (own_pids jid (lj_procs job') (c1\<lparr>c_poller := p\<rparr>))))"
| stop: "find_job c jid = Some job \<Longrightarrow> job_state job = ''running'' \<Longrightarrow> lj_stop_reason job = [] \<Longrightarrow>
    reason \<in> stop_reasons \<Longrightarrow> ctl_step c (put_job jid (stop_with reason t job) c)"
| escalate: "find_job c jid = Some job \<Longrightarrow> lj_stop_reason job \<noteq> [] \<Longrightarrow>
    ctl_step c (put_job jid (job\<lparr>lj_kill_escalated := True\<rparr>) c)"
| exit: "map_of (c_pid_owner c) pid = Some jid \<Longrightarrow> find_job c jid = Some job \<Longrightarrow>
    \<not> all_reaped (with_exit pid how job) \<Longrightarrow> ctl_step c (put_job jid (with_exit pid how job) c)"
| finish: "map_of (c_pid_owner c) pid = Some jid \<Longrightarrow> find_job c jid = Some job \<Longrightarrow>
    all_reaped (with_exit pid how job) \<Longrightarrow> (poller_ok (c_poller c) \<Longrightarrow> poller_ok p) \<Longrightarrow>
    ctl_step c (retire jid (with_exit pid how job) p c)"
| cancel: "find_job c jid = Some job \<Longrightarrow> job_state job = ''queued'' \<Longrightarrow>
    ctl_step c (drop_job jid (unqueue jid c))"
| shutdown: "ctl_step c (c\<lparr>c_shutting_down := True\<rparr>)"
| buffer: "ctl_step c (c\<lparr>c_fifo_buf := s\<rparr>)"

inductive_cases ctl_stepE: "ctl_step c c'"

abbreviation ctl_steps :: "controller \<Rightarrow> controller \<Rightarrow> bool" where
  "ctl_steps \<equiv> ctl_step\<^sup>*\<^sup>*"


section \<open>The invariant\<close>

text \<open>A live job is queued, without processes, slot or stop reason, or running, with a slot and
  with a process that has not been reaped.\<close>

definition waiting :: "live_job \<Rightarrow> bool" where
  "waiting job \<longleftrightarrow> job_state job = ''queued'' \<and> \<not> lj_uses_slot job \<and> lj_procs job = [] \<and>
     lj_stop_reason job = [] \<and> lj_deadline_id job < 0"

definition working :: "live_job \<Rightarrow> bool" where
  "working job \<longleftrightarrow> job_state job = ''running'' \<and> lj_uses_slot job \<and> \<not> all_reaped job \<and>
     lj_stop_reason job \<in> insert [] stop_reasons"

definition job_ok :: "controller \<Rightarrow> u64 \<Rightarrow> live_job \<Rightarrow> bool" where
  "job_ok c jid job \<longleftrightarrow> \<not> lj_finished job \<and> validate_meta (lj_meta job) = Inr () \<and>
     (if jid \<in> set (c_queue c) then waiting job else working job)"

text \<open>The tables agree with each other: the queue holds live jobs, once each; the slots in use are
  those the live jobs hold, and never more than allowed; a pid is owned only by a live job that
  started it.\<close>

definition owners_ok :: "controller \<Rightarrow> bool" where
  "owners_ok c \<longleftrightarrow> (\<forall>pid jid. map_of (c_pid_owner c) pid = Some jid \<longrightarrow>
     (\<exists>job. find_job c jid = Some job \<and> pid \<in> pids_of job))"

definition slots_ok :: "controller \<Rightarrow> bool" where
  "slots_ok c \<longleftrightarrow> c_slots_used c = slots_held (c_live c) \<and> c_slots_used c \<le> max 0 (c_slots_max c)"

definition tables_ok :: "controller \<Rightarrow> bool" where
  "tables_ok c \<longleftrightarrow> distinct (map fst (c_live c)) \<and> distinct (c_queue c) \<and>
     (\<forall>q \<in> set (c_queue c). find_job c q \<noteq> None) \<and> poller_ok (c_poller c)"

definition ctl_ok :: "controller \<Rightarrow> bool" where
  "ctl_ok c \<longleftrightarrow> tables_ok c \<and> slots_ok c \<and> owners_ok c \<and>
     (\<forall>jid job. find_job c jid = Some job \<longrightarrow> job_ok c jid job)"

lemma ctl_okI:
  "tables_ok c \<Longrightarrow> slots_ok c \<Longrightarrow> owners_ok c \<Longrightarrow>
   (\<And>jid job. find_job c jid = Some job \<Longrightarrow> job_ok c jid job) \<Longrightarrow> ctl_ok c"
  by (simp add: ctl_ok_def)

lemma ctl_okD:
  "ctl_ok c \<Longrightarrow> tables_ok c" "ctl_ok c \<Longrightarrow> slots_ok c" "ctl_ok c \<Longrightarrow> owners_ok c"
  "ctl_ok c \<Longrightarrow> find_job c jid = Some job \<Longrightarrow> job_ok c jid job"
  by (simp_all add: ctl_ok_def)

lemma owners_okD:
  "owners_ok c \<Longrightarrow> map_of (c_pid_owner c) pid = Some jid \<Longrightarrow>
   \<exists>job. find_job c jid = Some job \<and> pid \<in> pids_of job"
  by (simp add: owners_ok_def)

lemma queued_iff_waiting:
  assumes "ctl_ok c" and "find_job c jid = Some job"
  shows "jid \<in> set (c_queue c) \<longleftrightarrow> job_state job = ''queued''"
  using ctl_okD(4) [OF assms] by (auto simp: job_ok_def waiting_def working_def split: if_splits)

lemma new_controller_ok: "ctl_ok (new_controller root slots)"
  by (simp add: ctl_ok_def tables_ok_def slots_ok_def owners_ok_def find_job_def new_controller_def
      slots_held_def poller_ok_def empty_poller_def)

section \<open>Lists of jobs\<close>

lemma slots_held_simps [simp]:
  "slots_held [] = 0" "slots_held ((k, job) # xs) = slot_of job + slots_held xs"
  by (simp_all add: slots_held_def)

definition slot_at :: "(u64 \<times> live_job) list \<Rightarrow> u64 \<Rightarrow> int" where
  "slot_at xs jid = (case map_of xs jid of None \<Rightarrow> 0 | Some job \<Rightarrow> slot_of job)"

lemma slot_at_absent: "jid \<notin> fst ` set xs \<Longrightarrow> slot_at xs jid = 0"
  by (simp add: slot_at_def map_of_eq_None_iff [THEN iffD2])

lemma slot_at_Cons [simp]:
  "slot_at ((k, job) # xs) jid = (if k = jid then slot_of job else slot_at xs jid)"
  by (simp add: slot_at_def)

lemma slots_held_update:
  "distinct (map fst xs) \<Longrightarrow>
   slots_held (AList.update jid job xs) = slots_held xs - slot_at xs jid + slot_of job"
  by (induction xs) (auto simp: slot_at_def [of "[]"])

lemma slots_held_delete:
  "distinct (map fst xs) \<Longrightarrow> slots_held (AList.delete jid xs) = slots_held xs - slot_at xs jid"
  by (induction xs) (auto simp: slot_at_def [of "[]"] slot_at_absent)

lemma slot_at_find: "find_job c jid = Some job \<Longrightarrow> slot_at (c_live c) jid = slot_of job"
  by (simp add: find_job_def slot_at_def)

lemma slot_at_none: "find_job c jid = None \<Longrightarrow> slot_at (c_live c) jid = 0"
  by (simp add: find_job_def slot_at_def)


section \<open>The invariant under each step\<close>

lemma live_frame [simp]:
  "c_live (put_job jid job c) = AList.update jid job (c_live c)"
  "c_live (drop_job jid c) = AList.delete jid (c_live c)"
  "c_live (unqueue jid c) = c_live c" "c_live (take_slot c) = c_live c"
  "c_live (own_pids jid procs c) = c_live c" "c_live (forget_pids procs c) = c_live c"
  "c_live (release_slot c job) = c_live c"
  by (simp_all add: put_job_def drop_job_def unqueue_def take_slot_def own_pids_def forget_pids_def
      release_slot_def)

lemma slots_frame [simp]:
  "c_slots_used (put_job jid job c) = c_slots_used c" "c_slots_used (drop_job jid c) = c_slots_used c"
  "c_slots_used (unqueue jid c) = c_slots_used c" "c_slots_used (take_slot c) = c_slots_used c + 1"
  "c_slots_used (own_pids jid procs c) = c_slots_used c"
  "c_slots_used (forget_pids procs c) = c_slots_used c"
  "c_slots_used (release_slot c job) = c_slots_used c - slot_of job"
  by (simp_all add: put_job_def drop_job_def unqueue_def take_slot_def own_pids_def forget_pids_def
      release_slot_def slot_of_def)

lemma fixed_frame [simp]:
  "c_slots_max (put_job jid job c) = c_slots_max c" "c_slots_max (drop_job jid c) = c_slots_max c"
  "c_slots_max (unqueue jid c) = c_slots_max c" "c_slots_max (take_slot c) = c_slots_max c"
  "c_slots_max (own_pids jid procs c) = c_slots_max c" "c_slots_max (forget_pids procs c) = c_slots_max c"
  "c_slots_max (release_slot c job) = c_slots_max c"
  "c_poller (put_job jid job c) = c_poller c" "c_poller (drop_job jid c) = c_poller c"
  "c_poller (unqueue jid c) = c_poller c" "c_poller (take_slot c) = c_poller c"
  "c_poller (own_pids jid procs c) = c_poller c" "c_poller (forget_pids procs c) = c_poller c"
  "c_poller (release_slot c job) = c_poller c"
  "c_shutting_down (put_job jid job c) = c_shutting_down c"
  "c_shutting_down (drop_job jid c) = c_shutting_down c"
  "c_shutting_down (unqueue jid c) = c_shutting_down c"
  "c_shutting_down (take_slot c) = c_shutting_down c"
  "c_shutting_down (own_pids jid procs c) = c_shutting_down c"
  "c_shutting_down (forget_pids procs c) = c_shutting_down c"
  "c_shutting_down (release_slot c job) = c_shutting_down c"
  by (simp_all add: put_job_def drop_job_def unqueue_def take_slot_def own_pids_def forget_pids_def
      release_slot_def)

lemma queue_frame2 [simp]:
  "c_queue (take_slot c) = c_queue c" "c_queue (own_pids jid procs c) = c_queue c"
  "c_queue (forget_pids procs c) = c_queue c" "c_queue (release_slot c job) = c_queue c"
  by (simp_all add: take_slot_def own_pids_def forget_pids_def release_slot_def)

lemma owner_frame [simp]:
  "c_pid_owner (put_job jid job c) = c_pid_owner c" "c_pid_owner (drop_job jid c) = c_pid_owner c"
  "c_pid_owner (unqueue jid c) = c_pid_owner c" "c_pid_owner (take_slot c) = c_pid_owner c"
  "c_pid_owner (release_slot c job) = c_pid_owner c"
  by (simp_all add: put_job_def drop_job_def unqueue_def take_slot_def release_slot_def)

lemma find_frame [simp]:
  "find_job (take_slot c) j = find_job c j" "find_job (own_pids jid procs c) j = find_job c j"
  "find_job (forget_pids procs c) j = find_job c j" "find_job (release_slot c job) j = find_job c j"
  "find_job (c\<lparr>c_poller := p\<rparr>) j = find_job c j" "find_job (c\<lparr>c_shutting_down := b\<rparr>) j = find_job c j"
  "find_job (c\<lparr>c_fifo_buf := s\<rparr>) j = find_job c j" "find_job (c\<lparr>c_queue := q\<rparr>) j = find_job c j"
  by (simp_all add: find_job_def)

lemma map_of_own:
  "map_of (c_pid_owner (own_pids jid procs c)) pid =
     (if pid \<in> pr_pid ` set procs then Some jid else map_of (c_pid_owner c) pid)"
proof -
  have "map_of (fold (\<lambda>pr. AList.update (pr_pid pr) jid) procs o1) pid =
      (if pid \<in> pr_pid ` set procs then Some jid else map_of o1 pid)" for o1
    by (induction procs arbitrary: o1) (auto simp: update_conv')
  then show ?thesis by (simp add: own_pids_def)
qed

lemma map_of_forget:
  "map_of (c_pid_owner (forget_pids procs c)) pid =
     (if pid \<in> pr_pid ` set procs then None else map_of (c_pid_owner c) pid)"
proof -
  have "map_of (fold (\<lambda>pr. AList.delete (pr_pid pr)) procs o1) pid =
      (if pid \<in> pr_pid ` set procs then None else map_of o1 pid)" for o1 :: "(int \<times> u64) list"
    by (induction procs arbitrary: o1) (auto simp: delete_conv')
  then show ?thesis by (simp add: forget_pids_def)
qed

lemma job_ok_queue_cong:
  "(jid \<in> set (c_queue c') \<longleftrightarrow> jid \<in> set (c_queue c)) \<Longrightarrow> job_ok c' jid job = job_ok c jid job"
  by (simp add: job_ok_def)

text \<open>A live job changes in place.\<close>

lemma ctl_ok_put:
  assumes ok: "ctl_ok c" and job: "find_job c jid = Some job" and job': "job_ok c jid job'"
    and same: "slot_of job' = slot_of job" "pids_of job' = pids_of job"
  shows "ctl_ok (put_job jid job' c)"
proof (rule ctl_okI)
  show "tables_ok (put_job jid job' c)"
    using ctl_okD(1) [OF ok] by (simp add: tables_ok_def distinct_update)
  show "slots_ok (put_job jid job' c)"
    using ctl_okD(1,2) [OF ok] same(1)
    by (simp add: slots_ok_def tables_ok_def slots_held_update slot_at_find [OF job])
  show "owners_ok (put_job jid job' c)"
    using ctl_okD(3) [OF ok] job same(2) by (fastforce simp: owners_ok_def)
  show "job_ok (put_job jid job' c) i k" if "find_job (put_job jid job' c) i = Some k" for i k
    using that job' ctl_okD(4) [OF ok, of i k] by (auto simp: job_ok_def split: if_splits)
qed

text \<open>A live job goes.\<close>

lemma ctl_ok_remove:
  assumes ok: "ctl_ok c" and job: "find_job c jid = Some job" and poll: "poller_ok p"
    and c': "c_live c' = AList.delete jid (c_live c)" "c_queue c' = filter (\<lambda>q. q \<noteq> jid) (c_queue c)"
      "c_poller c' = p" "c_slots_used c' = c_slots_used c - slot_of job" "c_slots_max c' = c_slots_max c"
    and owner: "\<And>pid. map_of (c_pid_owner c') pid =
        (if pid \<in> pids_of job then None else map_of (c_pid_owner c) pid)"
  shows "ctl_ok c'"
proof (rule ctl_okI)
  have find: "find_job c' j = (if j = jid then None else find_job c j)" for j
    by (simp add: find_job_def c'(1) delete_conv')
  show "tables_ok c'"
    using ctl_okD(1) [OF ok] poll by (auto simp: tables_ok_def c' find distinct_delete)
  show "slots_ok c'"
    using ctl_okD(1,2) [OF ok]
    by (simp add: slots_ok_def tables_ok_def c' slots_held_delete slot_at_find [OF job] slot_of_def)
  show "owners_ok c'"
    using ctl_okD(3) [OF ok] job by (fastforce simp: owners_ok_def owner find split: if_splits)
  show "job_ok c' i k" if "find_job c' i = Some k" for i k
    using that ctl_okD(4) [OF ok, of i k] by (auto simp: job_ok_def c' find split: if_splits)
qed

lemma ctl_ok_cancel:
  assumes ok: "ctl_ok c" and job: "find_job c jid = Some job" "job_state job = ''queued''"
    and poll: "poller_ok p"
  shows "ctl_ok (drop_job jid ((unqueue jid c)\<lparr>c_poller := p\<rparr>))"
proof (rule ctl_ok_remove [OF ok job(1) poll])
  have "waiting job"
    using ctl_okD(4) [OF ok job(1)] queued_iff_waiting [OF ok job(1)] job(2) by (simp add: job_ok_def)
  then have "pids_of job = {}" "slot_of job = 0"
    by (simp_all add: waiting_def pids_of_def slot_of_def)
  then show "map_of (c_pid_owner (drop_job jid ((unqueue jid c)\<lparr>c_poller := p\<rparr>))) pid =
      (if pid \<in> pids_of job then None else map_of (c_pid_owner c) pid)"
    "c_slots_used (drop_job jid ((unqueue jid c)\<lparr>c_poller := p\<rparr>)) = c_slots_used c - slot_of job" for pid
    by simp_all
qed simp_all

lemma ctl_ok_retire:
  assumes ok: "ctl_ok c" and job: "find_job c jid = Some job" and poll: "poller_ok p"
    and same: "slot_of job' = slot_of job" "pids_of job' = pids_of job"
  shows "ctl_ok (retire jid job' p c)"
  by (rule ctl_ok_remove [OF ok job poll])
    (simp_all add: retire_def same map_of_forget same(2) [unfolded pids_of_def] pids_of_def)


text \<open>A job comes, and a job starts.\<close>

lemma valid_meta_frame [simp]:
  "validate_meta (m\<lparr>m_state := st\<rparr>) = validate_meta m"
  "validate_meta (m\<lparr>m_bytes := b\<rparr>) = validate_meta m"
  "validate_meta (m\<lparr>m_started_ms := t\<rparr>) = validate_meta m"
  "validate_meta (m\<lparr>m_procs := ps\<rparr>) = validate_meta m"
  by (simp_all add: validate_meta_def)

lemma waiting_new: "waiting (set_meta_state ''queued'' (new_job m))"
  by (simp add: waiting_def set_meta_state_def new_job_def job_state_def)

lemma ctl_ok_admit:
  assumes ok: "ctl_ok c" and new: "find_job c jid = None" and valid: "validate_meta m = Inr ()"
  shows "ctl_ok (put_job jid (set_meta_state ''queued'' (new_job m)) (c\<lparr>c_queue := c_queue c @ [jid]\<rparr>))"
    (is "ctl_ok ?c'")
proof (rule ctl_okI)
  let ?job = "set_meta_state ''queued'' (new_job m)"
  have empty: "slot_of ?job = 0" "pids_of ?job = {}"
    using waiting_new [of m] by (simp_all add: waiting_def slot_of_def pids_of_def)
  have fresh: "jid \<notin> set (c_queue c)" using ctl_okD(1) [OF ok] new by (auto simp: tables_ok_def)
  show "tables_ok ?c'"
    using ctl_okD(1) [OF ok] fresh by (auto simp: tables_ok_def distinct_update)
  show "slots_ok ?c'"
    using ctl_okD(1,2) [OF ok] empty
    by (simp add: slots_ok_def tables_ok_def slots_held_update slot_at_none [OF new])
  have "j \<noteq> jid" if "map_of (c_pid_owner c) pid = Some j" for pid j
    using owners_okD [OF ctl_okD(3) [OF ok] that] new by auto
  then show "owners_ok ?c'"
    using ctl_okD(3) [OF ok] by (fastforce simp: owners_ok_def)
  show "job_ok ?c' i k" if "find_job ?c' i = Some k" for i k
    using that ctl_okD(4) [OF ok, of i k] waiting_new [of m] valid
    by (auto simp: job_ok_def set_meta_state_def new_job_def split: if_splits)
qed

lemma starts_working:
  "starts job job' \<Longrightarrow> lj_stop_reason job = [] \<Longrightarrow> working job'"
  by (auto simp: starts_def working_def job_state_def all_reaped_def list_all_iff neq_Nil_conv)

lemma starts_valid: "starts job job' \<Longrightarrow> validate_meta (lj_meta job') = validate_meta (lj_meta job)"
  by (auto simp: starts_def)

lemma ctl_ok_start:
  assumes ok: "ctl_ok c" and room: "c_slots_used c < c_slots_max c"
    and job: "find_job c jid = Some job" "job_state job = ''queued''"
    and starts: "starts job job'" and poll: "poller_ok p"
  shows "ctl_ok (put_job jid job' (take_slot (own_pids jid (lj_procs job') ((unqueue jid c)\<lparr>c_poller := p\<rparr>))))"
    (is "ctl_ok ?c'")
proof (rule ctl_okI)
  have old: "waiting job" "\<not> lj_finished job" "validate_meta (lj_meta job) = Inr ()"
    using ctl_okD(4) [OF ok job(1)] queued_iff_waiting [OF ok job(1)] job(2) by (simp_all add: job_ok_def)
  have new: "working job'"
    using starts_working [OF starts] old(1) by (simp add: waiting_def)
  have slots: "slot_of job = 0" "slot_of job' = 1" "pids_of job = {}"
    using old(1) new by (simp_all add: slot_of_def waiting_def working_def pids_of_def)
  show "tables_ok ?c'"
    using ctl_okD(1) [OF ok] poll by (auto simp: tables_ok_def distinct_update)
  show "slots_ok ?c'"
    using ctl_okD(1,2) [OF ok] room slots
    by (simp add: slots_ok_def tables_ok_def slots_held_update slot_at_find [OF job(1)])
  have other: "\<exists>k. find_job c j = Some k \<and> pid \<in> pids_of k \<and> j \<noteq> jid"
    if "map_of (c_pid_owner c) pid = Some j" for pid j
    using owners_okD [OF ctl_okD(3) [OF ok] that] job(1) slots(3) by auto
  show "owners_ok ?c'"
    using other by (fastforce simp: owners_ok_def map_of_own pids_of_def)
  show "job_ok ?c' i k" if "find_job ?c' i = Some k" for i k
  proof (cases "i = jid")
    case True
    then show ?thesis
      using that new old starts starts_valid [OF starts] by (auto simp: job_ok_def starts_def)
  next
    case False
    then show ?thesis using that ctl_okD(4) [OF ok, of i k] by (auto simp: job_ok_def)
  qed
qed

text \<open>The invariant holds after every step.\<close>

lemma working_in_place:
  assumes ok: "ctl_ok c" and job: "find_job c jid = Some job" "working job"
    and same: "lj_meta job' = lj_meta job" "lj_finished job' = lj_finished job" and job': "working job'"
  shows "job_ok c jid job'"
proof -
  have "jid \<notin> set (c_queue c)"
    using queued_iff_waiting [OF ok job(1)] job(2) by (simp add: working_def)
  then show ?thesis using ctl_okD(4) [OF ok job(1)] same job' by (simp add: job_ok_def)
qed

lemma owner_working:
  assumes ok: "ctl_ok c" and owner: "map_of (c_pid_owner c) pid = Some jid" and job: "find_job c jid = Some job"
  shows "working job"
proof -
  have "lj_procs job \<noteq> []"
    using owners_okD [OF ctl_okD(3) [OF ok] owner] job by (auto simp: pids_of_def)
  then show ?thesis
    using ctl_okD(4) [OF ok job] by (auto simp: job_ok_def waiting_def split: if_splits)
qed

lemma running_working:
  assumes "ctl_ok c" and "find_job c jid = Some job" and "job_state job \<noteq> ''queued''"
  shows "working job"
  using ctl_okD(4) [OF assms(1,2)] assms(3) by (auto simp: job_ok_def waiting_def split: if_splits)

lemma pids_with_exit [simp]: "pids_of (with_exit pid how job) = pids_of job"
proof -
  have "pr_pid (note_exit pid how pr) = pr_pid pr" for pr by (simp add: note_exit_def)
  then show ?thesis by (simp add: pids_of_def with_exit_def image_image)
qed

lemma with_exit_frame [simp]:
  "slot_of (with_exit pid how job) = slot_of job"
  "lj_meta (with_exit pid how job) = lj_meta job" "lj_finished (with_exit pid how job) = lj_finished job"
  "lj_stop_reason (with_exit pid how job) = lj_stop_reason job"
  "lj_uses_slot (with_exit pid how job) = lj_uses_slot job"
  by (simp_all add: with_exit_def slot_of_def)

lemma stop_with_frame [simp]:
  "slot_of (stop_with r t job) = slot_of job" "pids_of (stop_with r t job) = pids_of job"
  "lj_meta (stop_with r t job) = lj_meta job" "lj_finished (stop_with r t job) = lj_finished job"
  "lj_stop_reason (stop_with r t job) = r" "lj_procs (stop_with r t job) = lj_procs job"
  "lj_uses_slot (stop_with r t job) = lj_uses_slot job"
  by (simp_all add: stop_with_def slot_of_def pids_of_def)

lemma ctl_step_ok: "ctl_step c c' \<Longrightarrow> ctl_ok c \<Longrightarrow> ctl_ok c'"
proof (induction rule: ctl_step.induct)
  case (admit c jid m)
  then show ?case by (simp add: ctl_ok_admit)
next
  case (refuse c jid c1 p)
  then show ?case
    using pick_next_Some [OF refuse(2)] ctl_okD(1) [OF refuse(4)]
    by (auto simp: candidate_def tables_ok_def intro: ctl_ok_cancel)
next
  case (start c jid c1 job job' p)
  then show ?case
    using pick_next_Some [OF start(3)] ctl_okD(1) [OF start(7)]
    by (auto simp: candidate_def tables_ok_def intro: ctl_ok_start)
next
  case (stop c jid job reason t)
  have "working job" by (rule running_working [OF stop(5,1)]) (simp add: stop(2))
  moreover from this have "working (stop_with reason t job)"
    using stop(4) by (simp add: working_def job_state_def all_reaped_def)
  ultimately show ?case
    using stop by (intro ctl_ok_put [OF stop(5,1)] working_in_place [OF stop(5,1)]) simp_all
next
  case (escalate c jid job)
  have "working job"
    using ctl_okD(4) [OF escalate(3,1)] escalate(2) by (auto simp: job_ok_def waiting_def split: if_splits)
  moreover from this have "working (job\<lparr>lj_kill_escalated := True\<rparr>)"
    by (simp add: working_def job_state_def all_reaped_def)
  ultimately show ?case
    by (intro ctl_ok_put [OF escalate(3,1)] working_in_place [OF escalate(3,1)])
      (simp_all add: slot_of_def pids_of_def)
next
  case (exit c pid jid job how)
  have "working job" by (rule owner_working [OF exit(4,1,2)])
  moreover from this have "working (with_exit pid how job)"
    using exit(3) by (simp add: working_def job_state_def)
  ultimately show ?case
    by (intro ctl_ok_put [OF exit(4,2)] working_in_place [OF exit(4,2)]) simp_all
next
  case (finish c pid jid job how p)
  then show ?case
    using ctl_okD(1) [OF finish(5)] by (intro ctl_ok_retire [OF finish(5,2)]) (simp_all add: tables_ok_def)
next
  case (cancel c jid job)
  then have "poller_ok (c_poller c)" using ctl_okD(1) by (simp add: tables_ok_def)
  from ctl_ok_cancel [OF cancel(3,1,2) this] show ?case by (simp add: unqueue_def)
next
  case (shutdown c)
  then show ?case by (simp add: ctl_ok_def tables_ok_def slots_ok_def owners_ok_def job_ok_def)
next
  case (buffer c s)
  then show ?case by (simp add: ctl_ok_def tables_ok_def slots_ok_def owners_ok_def job_ok_def)
qed

lemma ctl_steps_ok: "ctl_steps c c' \<Longrightarrow> ctl_ok c \<Longrightarrow> ctl_ok c'"
  by (induction rule: rtranclp_induct) (auto intro: ctl_step_ok)

end
