(* ===== verification/Controller_Sim.thy ===== *)
theory Controller_Sim
  imports Controller_Loop Controller_Spec
begin

text \<open>
  The code of the controller makes only the steps of \<open>Controller_Spec\<close>: what each function
  changes, as a rule for its result, then the simulation, one lemma for each handler, up to one
  iteration of the main loop.
\<close>

section \<open>What the functions change\<close>

lemma yields_hist [yields_rules]:
  "(\<And>h'. Q h') \<Longrightarrow> yields Q (say K c msg h)"
  "(\<And>h'. Q h') \<Longrightarrow> yields Q (try_save K c m h)"
  "(\<And>h'. Q h') \<Longrightarrow> yields Q (close_record K c m st err h)"
  "(\<And>h'. Q h') \<Longrightarrow> yields Q (write_status_file K c h)"
  "(\<And>h'. Q h') \<Longrightarrow> yields Q (for_each (kill_spawned K) prs h)"
  "(\<And>h'. Q h') \<Longrightarrow> yields Q (for_each (kill_leftover K c jid) prs h)"
  by (rule yields_all; assumption)+

lemma yields_result [yields_rules]:
  "(\<And>r h'. Q (r, h')) \<Longrightarrow> yields Q (load_meta K root jid h)"
  "(\<And>r h'. R (r, h')) \<Longrightarrow> yields R (append_job_log K root jid line h)"
  "(\<And>r h'. R (r, h')) \<Longrightarrow> yields R (atomic_write_file K path data h)"
  "(\<And>r h'. S (r, h')) \<Longrightarrow> yields S (proc_starttime K pid ticks h)"
  "(\<And>r h'. R (r, h')) \<Longrightarrow> yields R (save_meta K root m h)"
  by (auto simp: yields_def)

lemma yields_set_state [yields_rules]:
  "(\<And>b h'. Q ((b, set_meta_state st job), h')) \<Longrightarrow> yields Q (set_state K c job st h)"
  unfolding set_state_def Let_def
  by (auto intro!: yields_bind yields_hist yields_result split: sum.split)

lemma yields_request_stop [yields_rules]:
  assumes "lj_stop_reason job \<noteq> [] \<Longrightarrow> Q (job, h)"
    and "\<And>t h'. lj_stop_reason job = [] \<Longrightarrow> Q (stop_with reason t job, h')"
  shows "yields Q (request_stop K c job reason h)"
  using assms unfolding request_stop_def
  by (auto simp: stop_with_def Let_def split_beta intro!: yields_bind yields_hist yields_result)

text \<open>The updates that \<^verbatim>\<open>finalize\<close> makes to the record of a job leave its place in the tables.\<close>

definition place :: "live_job \<Rightarrow> proc_ref list \<times> bool" where
  "place job = (lj_procs job, lj_uses_slot job)"

lemma place_frame [simp]:
  "place (set_meta_state st job) = place job" "place (set_meta_error err job) = place job"
  "place (set_finished_ms t job) = place job" "place (mark_finished t job) = place job"
  "place (set_digest body job) = place job" "place (stop_with r u job) = place job"
  by (simp_all add: place_def set_meta_state_def set_meta_error_def set_finished_ms_def
      mark_finished_def set_digest_def stop_with_def)

lemma place_verdict [simp]: "place (snd (verdict res job)) = place job"
  by (simp add: verdict_def split: sum.split)

lemma yields_persist_output [yields_rules]:
  assumes "\<And>st' job' h'. place job' = place job \<Longrightarrow> Q ((st', job'), h')"
  shows "yields Q (persist_output K c jid job st res h)"
  unfolding persist_output_def
  by (auto intro!: assms yields_bind yields_rules split: sum.splits)

lemma release_runtime_fst:
  "fst (fst (release_runtime K c job h)) =
     release_slot (forget_pids (lj_procs job) (c\<lparr>c_poller := c_poller (fst (fst (release_runtime K c job h)))\<rparr>)) job"
  by (auto simp: release_runtime_def Let_def split_beta release_slot_def forget_pids_def)

lemma release_runtime_poller:
  "poller_ok (c_poller c) \<longrightarrow> poller_ok (c_poller (fst (fst (release_runtime K c job h))))"
proof
  assume ok: "poller_ok (c_poller c)"
  have "poller_ok (fst (unwatch_timer K (c_poller c) tid h'))" for tid h'
    by (rule poller_ok_unwatch_timer [OF prod.collapse [symmetric] ok])
  then show "poller_ok (c_poller (fst (fst (release_runtime K c job h))))"
    using ok by (simp add: release_runtime_def Let_def split_beta)
qed

lemma retire_place:
  "place job' = place job \<Longrightarrow> retire jid job' p c = retire jid job p c"
  by (simp add: retire_def place_def release_slot_def)

lemma yields_finalize:
  assumes job: "find_job c jid = Some job" "\<not> lj_finished job"
    and Q: "\<And>p h'. (poller_ok (c_poller c) \<longrightarrow> poller_ok p) \<Longrightarrow> Q (retire jid job p c, h')"
  shows "yields Q (finalize K c jid h)"
proof -
  have fin: "Q (unqueue jid (drop_job jid (fst (fst (release_runtime K c job' h1)))), h2)"
    if "place job' = place job" for job' h1 h2
    using Q [OF release_runtime_poller [of c K job' h1], of h2] that
    by (subst release_runtime_fst) (simp add: retire_def place_def release_slot_def)
  show ?thesis
    unfolding finalize_def
    using job fin
    by (auto simp: Let_def split_beta intro!: yields_bind yields_rules)
qed


section \<open>The simulation\<close>

definition sim :: "controller \<Rightarrow> (controller \<times> hist) option \<Rightarrow> bool" where
  "sim c m \<longleftrightarrow> yields (\<lambda>(c', _). ctl_steps c c') m"

lemma sim_Some [simp]: "sim c (Some (c', h)) \<longleftrightarrow> ctl_steps c c'"
  by (simp add: sim_def)

lemma sim_if: "(b \<Longrightarrow> sim c m) \<Longrightarrow> (\<not> b \<Longrightarrow> sim c m') \<Longrightarrow> sim c (if b then m else m')"
  by simp

lemma sim_option: "sim c m \<Longrightarrow> (\<And>x. sim c (f x)) \<Longrightarrow> sim c (case y of None \<Rightarrow> m | Some x \<Rightarrow> f x)"
  by (simp split: option.split)

lemma one_step: "ctl_step c c' \<Longrightarrow> ctl_steps c c'"
  by blast

lemma simI: "yields (\<lambda>(c', _). ctl_steps c c') m \<Longrightarrow> sim c m"
  by (simp add: sim_def)

lemma sim_step: "ctl_step c c' \<Longrightarrow> sim c' m \<Longrightarrow> sim c m"
  by (auto simp: sim_def yields_def intro: converse_rtranclp_into_rtranclp)

lemma sim_steps: "ctl_steps c c' \<Longrightarrow> sim c' m \<Longrightarrow> sim c m"
  by (auto simp: sim_def yields_def intro: rtranclp_trans)

text \<open>One operation after another: the second starts in a state the invariant holds of.\<close>

lemma sim_bind:
  assumes "sim c m" and "ctl_ok c" and "\<And>c' h'. ctl_ok c' \<Longrightarrow> sim c' (f (c', h'))"
  shows "sim c (Option.bind m f)"
proof -
  have "yields (\<lambda>x. yields (\<lambda>(c', _). ctl_steps c c') (f x)) m"
    using assms(1) unfolding sim_def
  proof (rule yields_mono)
    fix x :: "controller \<times> hist" assume x: "case x of (c', _) \<Rightarrow> ctl_steps c c'"
    obtain c' h' where "x = (c', h')" by fastforce
    with x assms(2) show "yields (\<lambda>(c', _). ctl_steps c c') (f x)"
      using sim_steps [OF _ assms(3)] ctl_steps_ok by (auto simp: sim_def)
  qed
  then show ?thesis unfolding sim_def by (rule yields_bind)
qed

lemma sim_for_each:
  assumes ok: "ctl_ok c" and each: "\<And>x c h. ctl_ok c \<Longrightarrow> sim c (f x (c, h))"
  shows "sim c (for_each f xs (c, h))"
  using ok
proof (induction xs arbitrary: c h)
  case (Cons x xs)
  have "sim c (Option.bind (f x (c, h)) (for_each f xs))"
    by (rule sim_bind [OF each [OF Cons.prems] Cons.prems]) (rule Cons.IH)
  then show ?case by simp
qed simp

lemma sim_say: "(\<And>h'. sim c (f h')) \<Longrightarrow> sim c (Option.bind (say K c1 msg h) f)"
  unfolding sim_def by (intro yields_bind yields_hist)

text \<open>Two changes of the same entry.\<close>

lemma update_twice: "AList.update k v (AList.update k w xs) = AList.update k v xs"
  by (induction xs) auto

lemma update_same: "map_of xs k = Some v \<Longrightarrow> AList.update k v xs = xs"
  by (induction xs) auto

lemma put_twice [simp]: "put_job jid a (put_job jid b c) = put_job jid a c"
  by (simp add: put_job_def update_twice)

lemma put_same: "find_job c jid = Some job \<Longrightarrow> put_job jid job c = c"
  by (simp add: put_job_def find_job_def update_same)

lemma retire_put [simp]: "retire jid a p (put_job jid b c) = retire jid a p c"
  by (simp add: retire_def put_job_def drop_job_def unqueue_def release_slot_def forget_pids_def
      delete_update_same)

text \<open>Stopping a running job, then the rest.\<close>

lemma sim_request_stop:
  assumes job: "find_job c jid = Some job" "job_state job = ''running''" and r: "reason \<in> stop_reasons"
  shows "sim c (Option.bind (request_stop K c job reason h) (\<lambda>(job, h). Some (put_job jid job c, h)))"
proof -
  have "ctl_steps c (put_job jid (stop_with reason t job) c)" if "lj_stop_reason job = []" for t
    using ctl_step.stop [OF job that r] by blast
  then show ?thesis
    unfolding sim_def by (auto intro!: yields_bind yields_request_stop simp: put_same [OF job(1)])
qed

text \<open>What the report of one exited process changes: nothing if no job owns the pid, the entry of
  the process if others still run, and otherwise the job retires.\<close>

lemma yields_note_reap:
  assumes ok: "ctl_ok c"
    and unknown: "\<And>h'. map_of (c_pid_owner c) pid = None \<Longrightarrow> Q (c, h')"
    and exit: "\<And>jid job job' h'. map_of (c_pid_owner c) pid = Some jid \<Longrightarrow> find_job c jid = Some job \<Longrightarrow>
      \<not> all_reaped (with_exit pid (describe_wait info) job) \<Longrightarrow>
      job' = with_exit pid (describe_wait info) job \<or>
      lj_stop_reason job = [] \<and> (\<exists>t. job' = stop_with ''failed'' t (with_exit pid (describe_wait info) job)) \<Longrightarrow>
      Q (put_job jid job' c, h')"
    and finish: "\<And>jid job p h'. map_of (c_pid_owner c) pid = Some jid \<Longrightarrow> find_job c jid = Some job \<Longrightarrow>
      all_reaped (with_exit pid (describe_wait info) job) \<Longrightarrow> poller_ok (c_poller c) \<longrightarrow> poller_ok p \<Longrightarrow>
      Q (retire jid (with_exit pid (describe_wait info) job) p c, h')"
  shows "yields Q (note_reap K c pid info h)"
proof (cases "map_of (c_pid_owner c) pid")
  case None
  then show ?thesis using unknown by (auto simp: note_reap_def intro!: yields_bind yields_hist)
next
  case (Some jid)
  obtain job where job: "find_job c jid = Some job"
    using owners_okD [OF ctl_okD(3) [OF ok] Some] by blast
  let ?job = "with_exit pid (describe_wait info) job"
  have fin: "\<not> lj_finished job" using ctl_okD(4) [OF ok job] by (simp add: job_ok_def)
  have rest: "yields Q (if all_reaped job2 then finalize K (put_job jid job2 c) jid h2
      else Some (put_job jid job2 c, h2))"
    if "job2 = ?job \<or> lj_stop_reason job = [] \<and> (\<exists>t. job2 = stop_with ''failed'' t ?job)" for job2 h2
  proof -
    have same: "place job2 = place ?job" "all_reaped job2 = all_reaped ?job" "\<not> lj_finished job2"
      using that fin by (auto simp: all_reaped_def)
    have "Q (retire jid job2 p (put_job jid job2 c), h')"
      if "all_reaped ?job" "poller_ok (c_poller c) \<longrightarrow> poller_ok p" for p h'
      using finish [OF Some job that] retire_place [OF same(1)] by simp
    then have "yields Q (finalize K (put_job jid job2 c) jid h2)" if "all_reaped ?job"
      using that same(3) by (intro yields_finalize [of _ jid job2]) simp_all
    moreover have "Q (put_job jid job2 c, h2)" if "\<not> all_reaped ?job"
      by (rule exit [OF Some job that]) fact
    ultimately show ?thesis by (simp add: same(2))
  qed
  have stop: "yields (\<lambda>x. yields Q (case x of (job, h) \<Rightarrow> F job h)) (if b \<and> lj_stop_reason ?job = []
        then request_stop K c ?job ''failed'' h1 else Some (?job, h1))"
    if F: "\<And>job2 h2. job2 = ?job \<or> lj_stop_reason job = [] \<and> (\<exists>t. job2 = stop_with ''failed'' t ?job)
        \<Longrightarrow> yields Q (F job2 h2)" for b h1 F
    using F by (auto intro!: yields_request_stop)
  show ?thesis
    unfolding note_reap_def with_exit_def [symmetric] Let_def
    using Some job
    by (simp add: with_exit_def [symmetric] del: with_exit_frame split del: if_split)
      (intro yields_bind yields_hist stop rest)
qed

lemma sim_note_reap:
  assumes ok: "ctl_ok c"
  shows "sim c (note_reap K c pid info h)"
  unfolding sim_def
proof (rule yields_note_reap [OF ok], unfold prod.case)
  fix jid job job' 
  assume own: "map_of (c_pid_owner c) pid = Some jid" and job: "find_job c jid = Some job"
    and some: "\<not> all_reaped (with_exit pid (describe_wait info) job)"
    and job': "job' = with_exit pid (describe_wait info) job \<or>
      lj_stop_reason job = [] \<and> (\<exists>t. job' = stop_with ''failed'' t (with_exit pid (describe_wait info) job))"
  let ?job = "with_exit pid (describe_wait info) job"
  have one: "ctl_step c (put_job jid ?job c)" by (rule ctl_step.exit [OF own job some])
  have "job_state job = ''running''"
    using owner_working [OF ok own job] by (simp add: working_def)
  then have "ctl_step (put_job jid ?job c) (put_job jid (stop_with ''failed'' t ?job) c)"
    if "lj_stop_reason job = []" for t
    using ctl_step.stop [of "put_job jid ?job c" jid ?job "''failed''" t] that
    by (simp add: stop_reasons_def job_state_def)
  with one job' show "ctl_steps c (put_job jid job' c)"
    by (auto intro: converse_rtranclp_into_rtranclp)
qed (auto intro!: one_step ctl_step.finish)

section \<open>Starting jobs\<close>

lemma yields_check_input [yields_rules]:
  assumes "\<And>err h'. Q (Inl err, h')"
    and "\<And>b h'. Q (Inr (job\<lparr>lj_meta := (lj_meta job)\<lparr>m_bytes := b\<rparr>\<rparr>), h')"
  shows "yields Q (check_input K c jid job h)"
proof -
  have "Q (Inr job, h')" for h'
    using assms(2) [of "m_bytes (lj_meta job)"] by simp
  then show ?thesis
    unfolding check_input_def
    by (auto intro!: assms yields_bind yields_hist split: prod.split sum.split)
qed

lemma yields_spawn_one [yields_rules]:
  "(\<And>err h'. Q (Inl err, h')) \<Longrightarrow> (\<And>pr h'. \<not> pr_reaped pr \<Longrightarrow> Q (Inr pr, h')) \<Longrightarrow>
   yields Q (spawn_one K i h)"
  unfolding spawn_one_def
  by (auto simp: Let_def empty_proc_def intro!: yields_bind yields_result split: prod.split sum.split)

lemma yields_spawn_loop [yields_rules]:
  assumes "list_all (\<lambda>pr. \<not> pr_reaped pr) spawned"
    and "\<And>err prs h'. list_all (\<lambda>pr. \<not> pr_reaped pr) prs \<Longrightarrow>
      (err = None \<Longrightarrow> length prs = length spawned + length idx) \<Longrightarrow> Q ((err, prs), h')"
  shows "yields Q (spawn_loop K idx spawned h)"
  using assms
proof (induction idx arbitrary: spawned h)
  case (Cons i idx)
  have "yields Q (spawn_loop K idx (spawned @ [pr]) h2)" if "\<not> pr_reaped pr" for pr h2
    using that Cons.prems by (intro Cons.IH) auto
  moreover have "Q ((Some err, spawned), h')" for err h'
    by (rule Cons.prems(2)) (use Cons.prems(1) in simp_all)
  ultimately show ?case
    by (auto intro!: yields_bind yields_spawn_one)
qed simp

lemma yields_refuse_job [yields_rules]:
  "(\<And>h'. Q (drop_job jid c, h')) \<Longrightarrow> yields Q (refuse_job K c jid job err h)"
  unfolding refuse_job_def by (auto intro!: yields_bind yields_hist)

lemma yields_abort_launch [yields_rules]:
  "(\<And>h'. Q (drop_job jid c, h')) \<Longrightarrow> yields Q (abort_launch K c jid job spawned shared note log_fd err h)"
  unfolding abort_launch_def Let_def
  by (auto intro!: yields_bind yields_hist split: prod.split)

lemma yields_watch_notify [yields_rules]:
  assumes "\<And>p h'. (poller_ok (c_poller c) \<longrightarrow> poller_ok p) \<Longrightarrow> Q (c\<lparr>c_poller := p\<rparr>, h')"
  shows "yields Q (watch_notify K c jid note h)"
proof -
  have "Q (c, h')" for h' using assms [of "c_poller c" h'] by simp
  then show ?thesis
    using poller_ok_watch_fd [of K "c_poller c"]
    by (auto simp: watch_notify_def intro!: assms yields_bind yields_hist split: prod.split sum.split)
qed

lemma yields_start_deadline [yields_rules]:
  assumes "\<And>p tid h'. (poller_ok (c_poller c) \<longrightarrow> poller_ok p) \<Longrightarrow>
      Q ((c\<lparr>c_poller := p\<rparr>, job\<lparr>lj_deadline_id := tid\<rparr>), h')"
  shows "yields Q (start_deadline K c jid job h)"
proof -
  have "Q ((c, job), h')" for h' using assms [of "c_poller c" "lj_deadline_id job" h'] by simp
  then show ?thesis
    using poller_ok_watch_timer [of K "c_poller c"]
    by (auto simp: start_deadline_def intro!: assms yields_bind yields_hist split: prod.split sum.split)
qed

lemma yields_run_job [yields_rules]:
  assumes "\<And>p tid h'. (poller_ok (c_poller c) \<longrightarrow> poller_ok p) \<Longrightarrow>
      Q (put_job jid (set_meta_state ''running'' (job\<lparr>lj_deadline_id := tid, lj_uses_slot := True\<rparr>))
           (take_slot (own_pids jid (lj_procs job) (c\<lparr>c_poller := p\<rparr>))), h')"
  shows "yields Q (run_job K c jid job h)"
proof -
  have own: "(own_pids jid procs c)\<lparr>c_poller := p\<rparr> = own_pids jid procs (c\<lparr>c_poller := p\<rparr>)" for c procs p
    by (simp add: own_pids_def)
  show ?thesis
    unfolding run_job_def Let_def
    by (auto simp: own intro!: assms yields_bind yields_hist yields_set_state yields_watch_notify
        yields_start_deadline)
qed

lemma job_ranges_nonempty: "job_ranges m \<noteq> []"
proof -
  have "split_ranges n w a \<noteq> []" for n w a
    by (subst split_ranges_def) (simp add: Let_def byte_loop.simps [of _ 0] block_loop.simps [of _ 0])
  then show ?thesis by (simp add: job_ranges_def)
qed

lemma yields_start_workers [yields_rules]:
  assumes drop: "\<And>h'. Q (drop_job jid c, h')"
    and start: "\<And>p job' h'. (poller_ok (c_poller c) \<longrightarrow> poller_ok p) \<Longrightarrow> starts job job' \<Longrightarrow>
      Q (put_job jid job' (take_slot (own_pids jid (lj_procs job') (c\<lparr>c_poller := p\<rparr>))), h')"
  shows "yields Q (start_workers K c jid job log_fd h)"
proof -
  have go: "Q (put_job jid job' (take_slot (own_pids jid procs (c\<lparr>c_poller := p\<rparr>))), h')"
    if "poller_ok (c_poller c) \<longrightarrow> poller_ok p" "list_all (\<lambda>pr. \<not> pr_reaped pr) procs"
      "length procs = length (job_ranges m)"
      "job' = set_meta_state ''running''
         ((adopt_workers procs shared nt log_fd (job1\<lparr>lj_meta := (lj_meta job1)\<lparr>m_started_ms := t\<rparr>\<rparr>))
            \<lparr>lj_deadline_id := tid, lj_uses_slot := True\<rparr>)"
      "job1 = set_meta_state ''starting'' job"
    for p procs m shared nt job' job1 t tid h'
  proof -
    have "procs \<noteq> []" using that(3) job_ranges_nonempty [of m] by auto
    then have "starts job job'" "lj_procs job' = procs"
      using that(2) unfolding that(4,5) starts_def
      by (auto simp: set_meta_state_def adopt_workers_def intro!: exI [of _ "m_bytes (lj_meta job)"] exI [of _ t])
    then show ?thesis using start [OF that(1)] by blast
  qed
  show ?thesis
    unfolding start_workers_def Let_def
    by (auto intro!: yields_bind yields_rules drop split: prod.split sum.split option.split)
      (auto simp: adopt_workers_def intro!: go)
qed


lemma forget_none [simp]: "forget_pids [] c = c"
  by (simp add: forget_pids_def)

lemma sim_launch_job:
  assumes ok: "ctl_ok c" and room: "\<not> c_shutting_down c" "c_slots_used c < c_slots_max c"
    and pick: "pick_next c = Some (jid, c1)"
  shows "yields (\<lambda>(c', _). ctl_steps c c' \<and> \<not> c_shutting_down c') (launch_job K c1 jid h)"
proof -
  have c1: "c1 = unqueue jid c" and cand: "candidate c jid" using pick_next_Some [OF pick] by simp_all
  then obtain job where job: "find_job c jid = Some job" by (auto simp: candidate_def)
  have "waiting job"
    using ctl_okD(4) [OF ok job] queued_iff_waiting [OF ok job] cand job
    by (auto simp: job_ok_def candidate_def)
  then have plain: "lj_procs job = []" "\<not> lj_uses_slot job" by (simp_all add: waiting_def)
  have drop: "ctl_steps c (drop_job jid (c1\<lparr>c_poller := p\<rparr>))"
    if "poller_ok (c_poller c) \<longrightarrow> poller_ok p" for p
    using ctl_step.refuse [OF room(1) pick, where p = p] that by auto
  have refuse: "ctl_steps c (drop_job jid c1)"
    using drop [of "c_poller c"] by (simp add: c1 unqueue_def)
  have release: "ctl_steps c (drop_job jid (fst (fst (release_runtime K c1 job' h1))))"
    if "place job' = place job" for job' h1
    using drop [of "c_poller (fst (fst (release_runtime K c1 job' h1)))"] that plain
      release_runtime_poller [of c1 K job' h1]
    by (subst release_runtime_fst) (simp add: place_def c1 release_slot_def)
  have start: "ctl_steps c (put_job jid job' (take_slot (own_pids jid (lj_procs job') (c1\<lparr>c_poller := p\<rparr>))))"
    if "starts (job\<lparr>lj_meta := (lj_meta job)\<lparr>m_bytes := b\<rparr>\<rparr>) job'"
      "poller_ok (c_poller c1) \<longrightarrow> poller_ok p" for b job' p
  proof -
    have "starts job job'" using that(1) unfolding starts_def by fastforce
    then show ?thesis
      using ctl_step.start [OF room pick job, of job' p] that(2) by (auto simp: c1)
  qed
  have job1: "find_job c1 jid = Some job" by (simp add: c1 job)
  have workers: "yields (\<lambda>(c', _). ctl_steps c c' \<and> \<not> c_shutting_down c')
      (start_workers K c1 jid (job\<lparr>lj_meta := (lj_meta job)\<lparr>m_bytes := b\<rparr>\<rparr>) f h1)" for b f h1
    using room(1) by (intro yields_start_workers) (auto simp: refuse c1 [symmetric] intro: start, simp_all add: c1)
  have live: "\<not> c_shutting_down c1" using room(1) by (simp add: c1)
  have still: "\<not> c_shutting_down (fst (fst (release_runtime K c1 job' h1)))" for job' h1
    using live by (subst release_runtime_fst) simp
  show ?thesis
    unfolding launch_job_def
    using job1 workers live still
    by (auto simp: split_beta Let_def refuse release
        intro!: yields_bind yields_hist yields_check_input yields_refuse_job split: sum.split)
qed

lemma sim_schedule_loop:
  assumes "schedule_loop K c h = Some r" and "ctl_ok c" and "\<not> c_shutting_down c"
  shows "ctl_steps c (fst r)"
  using assms
proof (induction rule: schedule_loop.raw_induct [rotated, consumes 1, case_names step])
  case (step loop K c h r)
  show ?case
  proof (cases "c_slots_used c < c_slots_max c \<and> pick_next c \<noteq> None")
    case False
    then show ?thesis using step.hyps by (auto split: if_splits option.splits)
  next
    case True
    then obtain jid c1 where pick: "pick_next c = Some (jid, c1)" by auto
    obtain c2 h2 where launch: "launch_job K c1 jid h = Some (c2, h2)" and rest: "loop K c2 h2 = Some r"
      using step.hyps True pick by (auto simp: bind_Some_conv)
    have one: "ctl_steps c c2" "\<not> c_shutting_down c2"
      using yieldsD [OF sim_launch_job [OF step.prems _ pick] launch] True by simp_all
    have "ctl_ok c2" by (rule ctl_steps_ok [OF one(1) step.prems(1)])
    then have "ctl_steps c2 (fst r)" by (rule step.IH [OF rest _ one(2)])
    with one(1) show ?thesis by (rule rtranclp_trans)
  qed
qed

lemma sim_schedule: "ctl_ok c \<Longrightarrow> sim c (schedule K c h)"
  using sim_schedule_loop [of K c h] by (auto simp: schedule_def sim_def yields_def)


section \<open>The handlers\<close>

lemma sim_hist: "sim c (Option.bind m (\<lambda>h. Some (c, h)))"
  by (cases m) (simp_all add: sim_def)

lemma sim_load: "(\<And>r h'. sim c (f (r, h'))) \<Longrightarrow> sim c (Option.bind (load_meta K root jid h) f)"
  by (cases "load_meta K root jid h") (auto simp: sim_def)

lemma sim_close: "(\<And>h'. sim c (f h')) \<Longrightarrow> sim c (Option.bind (close_record K c1 m st err h) f)"
  by (cases "close_record K c1 m st err h") (auto simp: sim_def)

lemma sim_admit_job:
  assumes ok: "ctl_ok c" and new: "\<not> c_shutting_down c" "find_job c jid = None" "validate_meta m = Inr ()"
  shows "sim c (admit_job K c jid m h)"
proof -
  let ?c = "put_job jid (set_meta_state ''queued'' (new_job m)) (c\<lparr>c_queue := c_queue c @ [jid]\<rparr>)"
  have step: "ctl_step c ?c" by (rule ctl_step.admit [OF new])
  have "sim ?c (schedule K ?c h2)" for h2 by (rule sim_schedule [OF ctl_step_ok [OF step ok]])
  then have "sim c (schedule K ?c h2)" for h2 by (rule sim_step [OF step])
  then show ?thesis
    unfolding admit_job_def Let_def sim_def by (auto intro!: yields_bind yields_hist)
qed

lemma sim_enqueue: "ctl_ok c \<Longrightarrow> sim c (enqueue K c jid h)"
  unfolding enqueue_def
  by (auto intro!: sim_load sim_say sim_close sim_admit_job sim_hist split: sum.split)

lemma sim_reap_run:
  assumes "reap K c h = Some r" and "ctl_ok c"
  shows "ctl_steps c (fst r)"
  using assms
proof (induction rule: reap.raw_induct [rotated, consumes 1, case_names step])
  case (step loop K c h r)
  obtain a h1 where a: "sys_child K (Proc WaitAny) h = (a, h1)" by fastforce
  show ?case
  proof (cases "\<exists>pid info. a = Inr (pid, info) \<and> pid \<noteq> 0")
    case False
    then show ?thesis using step a by (auto simp: bind_Some_conv split: sum.splits if_splits)
  next
    case True
    then obtain pid info where pid: "a = Inr (pid, info)" "pid \<noteq> 0" by blast
    obtain c2 h2 where one: "note_reap K c pid info h1 = Some (c2, h2)" and rest: "loop K c2 h2 = Some r"
      using step.hyps a pid by (auto simp: bind_Some_conv)
    have s: "ctl_steps c c2"
      using yieldsD [OF sim_note_reap [OF step.prems, unfolded sim_def] one] by simp
    show ?thesis
      by (rule rtranclp_trans [OF s step.IH [OF rest ctl_steps_ok [OF s step.prems]]])
  qed
qed

lemma sim_reap: "ctl_ok c \<Longrightarrow> sim c (reap K c h)"
  using sim_reap_run [of K c h] by (auto simp: sim_def yields_def)

lemma sim_on_cancel:
  assumes ok: "ctl_ok c"
  shows "sim c (on_cancel K c jid h)"
proof (cases "find_job c jid")
  case None
  then show ?thesis
    unfolding on_cancel_def by (auto intro!: sim_load sim_hist sim_close split: sum.split)
next
  case (Some job)
  show ?thesis
  proof (cases "job_state job = ''queued''")
    case True
    then have "sim c (Some (drop_job jid (unqueue jid c), h2))" for h2
      using ctl_step.cancel [OF Some True] by auto
    then show ?thesis using Some True by (auto simp: on_cancel_def intro!: sim_close sim_say)
  next
    case False
    then have "job_state job = ''running''"
      using running_working [OF ok Some] by (simp add: working_def)
    from sim_request_stop [OF Some this] show ?thesis
      using Some False by (simp add: on_cancel_def stop_reasons_def)
  qed
qed

lemma sim_on_event: "sim c (on_event K c jid h)"
  unfolding on_event_def Let_def
  by (auto simp: split_beta intro!: sim_hist split: option.split prod.split sum.split)

lemma sim_on_deadline:
  assumes ok: "ctl_ok c"
  shows "sim c (on_deadline K c jid h)"
proof (cases "\<exists>job. find_job c jid = Some job \<and> 0 \<le> lj_deadline_id job")
  case False
  then show ?thesis by (auto simp: on_deadline_def split: option.split)
next
  case True
  then obtain job where job: "find_job c jid = Some job" "0 \<le> lj_deadline_id job" by blast
  then have "job_state job = ''running''"
    using ctl_okD(4) [OF ok job(1)] by (auto simp: job_ok_def waiting_def working_def split: if_splits)
  from sim_request_stop [OF job(1) this] show ?thesis
    using job by (simp add: on_deadline_def stop_reasons_def)
qed

lemma sim_escalate:
  "ctl_ok c \<Longrightarrow> sim c (escalate K now jid (c, h))"
  by (auto simp: escalate_def must_escalate_def split: option.split
      intro!: sim_say one_step ctl_step.escalate)

lemma sim_on_tick: "ctl_ok c \<Longrightarrow> sim c (on_tick K c h)"
  unfolding on_tick_def Let_def
  by (auto simp: split_beta intro!: sim_bind sim_for_each sim_escalate sim_hist)

lemma sim_cancel_each: "ctl_ok c \<Longrightarrow> sim c (cancel_each K jid (c, h))"
  by (simp add: cancel_each_def sim_on_cancel)

lemma sim_stop_running:
  assumes ok: "ctl_ok c"
  shows "sim c (stop_running K jid (c, h))"
proof (cases "find_job c jid")
  case None
  then show ?thesis by (simp add: stop_running_def)
next
  case (Some job)
  show ?thesis
  proof (cases "is_running job")
    case True
    then have "job_state job = ''running''"
      using running_working [OF ok Some] by (auto simp: is_running_def working_def)
    from sim_request_stop [OF Some this] show ?thesis
      using Some True by (simp add: stop_running_def stop_reasons_def)
  next
    case False
    then show ?thesis using Some by (simp add: stop_running_def)
  qed
qed

lemma sim_shut_down:
  assumes ok: "ctl_ok c"
  shows "sim c (shut_down K c h)"
proof -
  let ?c = "c\<lparr>c_shutting_down := True\<rparr>"
  have ok2: "ctl_ok ?c" by (rule ctl_step_ok [OF ctl_step.shutdown ok])
  have cancel: "sim ?c (for_each (cancel_each K) qs (?c, h2))" for qs h2
    by (rule sim_for_each [OF ok2]) (rule sim_cancel_each)
  have "sim ?c (Option.bind (for_each (cancel_each K) (c_queue c) (?c, h2))
      (\<lambda>(c, h). for_each (stop_running K) (map fst (c_live c)) (c, h)))" for h2
    by (rule sim_bind [OF cancel ok2]) (simp add: sim_for_each sim_stop_running)
  then have "sim c (Option.bind (for_each (cancel_each K) (c_queue c) (?c, h2))
      (\<lambda>(c, h). for_each (stop_running K) (map fst (c_live c)) (c, h)))" for h2
    by (rule sim_step [OF ctl_step.shutdown])
  then show ?thesis unfolding shut_down_def by (intro sim_say) simp
qed

lemma sim_handle_line: "ctl_ok c \<Longrightarrow> sim c (handle_line K c line h)"
  unfolding handle_line_def
  by (intro sim_if sim_option sim_hist sim_shut_down sim_enqueue sim_on_cancel)


lemma sim_buffer: "sim (c\<lparr>c_fifo_buf := s\<rparr>) m \<Longrightarrow> sim c m"
  by (rule sim_step [OF ctl_step.buffer])

lemma ctl_ok_buffer: "ctl_ok c \<Longrightarrow> ctl_ok (c\<lparr>c_fifo_buf := s\<rparr>)"
  by (rule ctl_step_ok [OF ctl_step.buffer])

lemma drain_fifo_buffer:
  assumes "drain_fifo K c h = Some r"
  shows "\<exists>s. fst r = c\<lparr>c_fifo_buf := s\<rparr>"
  using assms
proof (induction rule: drain_fifo.raw_induct [rotated, consumes 1, case_names step])
  case (step loop K c h r)
  have refl: "\<exists>s. c = c\<lparr>c_fifo_buf := s\<rparr>" by (rule exI [of _ "c_fifo_buf c"]) simp
  obtain a h1 where a: "sys_buf K (Fs (Read (c_fifo_fd c) 1024)) h = (a, h1)" by fastforce
  have more: "\<exists>s. fst r = c\<lparr>c_fifo_buf := s\<rparr>" if "loop K (c\<lparr>c_fifo_buf := s\<rparr>) h2 = Some r" for s h2
    using step.IH [OF that] by auto
  then show ?case
    using step.hyps a refl more [of "c_fifo_buf c"]
    by (auto simp: bind_Some_conv split: sum.splits if_splits)
qed

lemma sim_fifo_lines_run:
  assumes "fifo_lines K c h = Some r" and "ctl_ok c"
  shows "ctl_steps c (fst r)"
  using assms
proof (induction rule: fifo_lines.raw_induct [rotated, consumes 1, case_names step])
  case (step loop K c h r)
  show ?case
  proof (cases "split_first NL (c_fifo_buf c)")
    case None
    then show ?thesis using step.hyps by auto
  next
    case (Some lr)
    obtain line rest where lr: "lr = (line, rest)" by fastforce
    let ?c = "c\<lparr>c_fifo_buf := rest\<rparr>"
    have go: "ctl_steps c ?c" "ctl_ok ?c"
      using ctl_step.buffer [of c rest] ctl_ok_buffer [OF step.prems] by auto
    show ?thesis
    proof (cases "pop_cr line = []")
      case True
      then have "loop K ?c h = Some r" using step.hyps Some lr by (simp add: Let_def)
      from rtranclp_trans [OF go(1) step.IH [OF this go(2)]] show ?thesis .
    next
      case False
      then obtain c2 h2 where one: "handle_line K ?c (pop_cr line) h = Some (c2, h2)"
        and rest: "loop K c2 h2 = Some r"
        using step.hyps Some lr by (auto simp: Let_def bind_Some_conv)
      have s: "ctl_steps ?c c2"
        using yieldsD [OF sim_handle_line [OF go(2), unfolded sim_def] one] by simp
      from step.IH [OF rest ctl_steps_ok [OF s go(2)]] go(1) s show ?thesis by simp
    qed
  qed
qed

lemma sim_fifo_lines: "ctl_ok c \<Longrightarrow> sim c (fifo_lines K c h)"
  using sim_fifo_lines_run [of K c h] by (auto simp: sim_def yields_def)

lemma sim_drain_fifo: "sim c (drain_fifo K c h)"
  unfolding sim_def
  using drain_fifo_buffer [of K c h] by (fastforce simp: yields_def intro: ctl_step.buffer)

lemma sim_discard: "sim c (Option.bind (say K c1 msg h) (\<lambda>h. Some (c\<lparr>c_fifo_buf := s\<rparr>, h)))"
  by (rule sim_say) (auto intro: ctl_step.buffer)

lemma sim_on_fifo: "ctl_ok c \<Longrightarrow> sim c (on_fifo K c h)"
  unfolding on_fifo_def
  by (intro sim_bind sim_drain_fifo)
    (simp_all add: sim_drain_fifo sim_bind sim_discard sim_fifo_lines)


section \<open>Recovery and the main loop\<close>

lemma sim_recover_job: "ctl_ok c \<Longrightarrow> sim c (recover_job K jid (c, h))"
proof -
  assume ok: "ctl_ok c"
  have leftover: "sim c (Option.bind (for_each (kill_leftover K c jid) prs h1)
      (\<lambda>h. Option.bind (close_record K c m st err h) (\<lambda>h. Some (c, h))))" for prs h1 m st err
    by (cases "for_each (kill_leftover K c jid) prs h1") (simp_all add: sim_hist, simp add: sim_def)
  show ?thesis
    unfolding recover_job_def prod.case
    by (rule sim_load) (auto simp: leftover ok intro!: sim_enqueue split: sum.split)
qed

lemma sim_recover: "ctl_ok c \<Longrightarrow> sim c (recover K c h)"
  unfolding recover_def by (auto intro!: sim_for_each sim_recover_job split: prod.split)

definition sim_flag :: "controller \<Rightarrow> (('f \<times> controller) \<times> hist) option \<Rightarrow> bool" where
  "sim_flag c m \<longleftrightarrow> yields (\<lambda>((_, c'), _). ctl_steps c c') m"

lemma sim_flag_Some [simp]: "sim_flag c (Some ((b, c'), h)) \<longleftrightarrow> ctl_steps c c'"
  by (simp add: sim_flag_def)

lemma sim_flag_bind: "sim c m \<Longrightarrow> sim_flag c (Option.bind m (\<lambda>(c', h). Some ((f c', c'), h)))"
  by (cases m) (auto simp: sim_def sim_flag_def)

lemma sim_handle_event:
  assumes ok: "ctl_ok c"
  shows "sim_flag c (handle_event K c ev h)"
proof -
  have child: "sim_flag c (Option.bind (reap K c h) (\<lambda>(c, h). Option.bind (schedule K c h)
      (\<lambda>(c, h). Some ((False, c), h))))"
    using sim_flag_bind [OF sim_bind [OF sim_reap [OF ok] ok], of "\<lambda>(c, h). schedule K c h" K h "\<lambda>_. False"]
    by (simp add: sim_schedule split_def)
  show ?thesis
    unfolding handle_event_def
    by (simp add: child sim_flag_bind sim_handle_line sim_on_fifo sim_on_tick sim_on_event
        sim_on_deadline ok split: option.split wake.split)
qed

lemma sim_handle_events: "ctl_ok c \<Longrightarrow> sim_flag c (handle_events K evs c h)"
proof (induction evs arbitrary: c h)
  case (Cons ev evs)
  show ?case
  proof (cases "handle_event K c ev h")
    case None
    then show ?thesis by (simp add: sim_flag_def)
  next
    case (Some r)
    obtain b c2 h2 where r: "r = ((b, c2), h2)" by (metis prod.exhaust)
    have s: "ctl_steps c c2"
      using sim_handle_event [OF Cons.prems, of K ev h] Some r by simp
    have "sim_flag c2 (handle_events K evs c2 h2)" by (rule Cons.IH [OF ctl_steps_ok [OF s Cons.prems]])
    then show ?thesis using Some r s by (auto simp: sim_flag_def yields_def)
  qed
qed simp

lemma sim_loop_step:
  assumes ok: "ctl_ok c"
  shows "yields (\<lambda>(_, c', _). ctl_steps c c') (loop_step K c since h)"
proof -
  have rest: "yields (\<lambda>(_, c', _). ctl_steps c c')
     (Option.bind (handle_events K evs c h1) (\<lambda>((stop, c), h).
        if stop then Some (Inl 0, c, h)
        else Option.bind (schedule K c h) (\<lambda>(c, h). Some (Inr s, c, h))))" for evs h1 s
  proof (cases "handle_events K evs c h1")
    case (Some r)
    obtain b c2 h2 where r: "r = ((b, c2), h2)" by (metis prod.exhaust)
    have s: "ctl_steps c c2" using sim_handle_events [OF ok, of K evs h1] Some r by simp
    have "sim c2 (schedule K c2 h2)" by (rule sim_schedule [OF ctl_steps_ok [OF s ok]])
    then show ?thesis using Some r s by (cases "schedule K c2 h2") (auto simp: sim_def)
  qed simp
  show ?thesis
    unfolding loop_step_def Let_def
    by (auto intro!: rest yields_bind [OF yields_hist(1)] split: prod.split sum.split)
qed

end
