(* ===== verification/Controller_Props.thy ===== *)
theory Controller_Props
  imports Controller_Sim
begin

text \<open>
  The properties of the controller: its invariant and its slots on every path through the main
  loop, what a shutdown does, when the controller is done, and where it goes wrong.
\<close>

section \<open>The states of a serving controller\<close>

text \<open>The states at the head of \<^verbatim>\<open>while (true)\<close>, from the state \<open>c0\<close> that \<^verbatim>\<open>setup\<close> left.\<close>

inductive serving :: "kernel \<Rightarrow> controller \<Rightarrow> controller \<Rightarrow> u64 \<Rightarrow> hist \<Rightarrow> bool" for K c0 where
  enter: "recover K c0 h = Some (c, h') \<Longrightarrow> serving K c0 c 0 h'"
| again: "serving K c0 c since h \<Longrightarrow> loop_step K c since h = Some (Inr since', c', h') \<Longrightarrow>
    serving K c0 c' since' h'"

lemma serving_steps: "serving K c0 c since h \<Longrightarrow> ctl_ok c0 \<Longrightarrow> ctl_steps c0 c \<and> ctl_ok c"
proof (induction rule: serving.induct)
  case (enter h c h')
  then have "ctl_steps c0 c"
    using yieldsD [OF sim_recover [OF enter.prems, unfolded sim_def] enter.hyps] by simp
  then show ?case using ctl_steps_ok enter.prems by blast
next
  case (again c since h since' c' h')
  then have c: "ctl_steps c0 c" "ctl_ok c" by simp_all
  have "ctl_steps c c'" using yieldsD [OF sim_loop_step [OF c(2)] again.hyps(2)] by simp
  with c show ?case using ctl_steps_ok by (meson rtranclp_trans)
qed

text \<open>\<^verbatim>\<open>setup\<close> leaves a controller without jobs.\<close>

definition jobless :: "controller \<Rightarrow> bool" where
  "jobless c \<longleftrightarrow> c_live c = [] \<and> c_queue c = [] \<and> c_pid_owner c = [] \<and> c_slots_used c = 0 \<and>
     \<not> c_shutting_down c \<and> poller_ok (c_poller c)"

lemma jobless_ok: "jobless c \<Longrightarrow> ctl_ok c"
  by (simp add: jobless_def ctl_ok_def tables_ok_def slots_ok_def owners_ok_def find_job_def)

lemma jobless_new: "jobless (new_controller root slots)"
  by (simp add: jobless_def new_controller_def poller_ok_def empty_poller_def)

lemma jobless_fds [simp]:
  "jobless (c\<lparr>c_lock_fd := f\<rparr>) = jobless c" "jobless (c\<lparr>c_fifo_fd := f\<rparr>) = jobless c"
  "jobless (c\<lparr>c_log_fd := f\<rparr>) = jobless c" "jobless (c\<lparr>c_tick_id := t\<rparr>) = jobless c"
  by (simp_all add: jobless_def)

lemma jobless_poller: "jobless c \<Longrightarrow> poller_ok p \<Longrightarrow> jobless (c\<lparr>c_poller := p\<rparr>)"
  by (simp add: jobless_def)

lemma poller_ok_open: "poller_open K p h = ((r, p'), h') \<Longrightarrow> poller_ok p \<Longrightarrow> poller_ok p'"
  by (auto simp: poller_open_def poller_ok_def Let_def split_beta split: option.splits sum.splits)

lemma poller_ok_signals: "watch_signals K p t h = ((r, p'), h') \<Longrightarrow> poller_ok p \<Longrightarrow> poller_ok p'"
  unfolding watch_signals_def by (rule poller_ok_watch_fd)

lemma jobless_watch_setup:
  "jobless c \<Longrightarrow> watch_setup K c h = ((r, c'), h') \<Longrightarrow> jobless c'"
  by (auto simp: watch_setup_def jobless_def split: prod.splits sum.splits
      intro: poller_ok_signals poller_ok_watch_fd [OF _ poller_ok_signals]
        poller_ok_watch_timer [OF _ poller_ok_watch_fd [OF _ poller_ok_signals]])

lemma jobless_open_fds: "jobless c \<Longrightarrow> open_fds K c h = ((r, c'), h') \<Longrightarrow> jobless c'"
  by (auto simp: open_fds_def Let_def split: prod.splits sum.splits dest!: jobless_watch_setup [rotated])

lemma jobless_setup: "jobless c \<Longrightarrow> yields (\<lambda>((_, c'), _). jobless c') (setup_controller K c h)"
proof -
  assume c: "jobless c"
  have open_poller: "jobless (c\<lparr>c_lock_fd := f, c_poller := snd (fst (poller_open K (c_poller c) h1))\<rparr>)" for f h1
    using jobless_poller [of "c\<lparr>c_lock_fd := f\<rparr>" "snd (fst (poller_open K (c_poller c) h1))"]
      poller_ok_open [of K "c_poller c" h1] c
    by (metis jobless_def jobless_fds(1) prod.collapse)
  have fds: "jobless (snd (fst (open_fds K c1 h1)))" if "jobless c1" for c1 h1
    using jobless_open_fds [OF that, of K h1] by (metis prod.collapse)
  have pid: "yields Q (write_pid_file K root pid h1)" if "\<And>r h'. Q (r, h')" for Q root pid h1
    using that by (auto simp: yields_def)
  show ?thesis
    unfolding setup_controller_def Let_def
    using c open_poller fds [OF open_poller]
    by (auto simp: split_beta intro!: yields_bind pid split: sum.split)
qed


section \<open>What a shutdown does\<close>

definition stopped :: "controller \<Rightarrow> u64 \<Rightarrow> bool" where
  "stopped c jid \<longleftrightarrow> (\<forall>job. find_job c jid = Some job \<longrightarrow> lj_stop_reason job \<noteq> [])"

lemma yields_conj: "yields P m \<Longrightarrow> yields Q m \<Longrightarrow> yields (\<lambda>x. P x \<and> Q x) m"
  by (simp add: yields_def)

lemma sim_ok: "sim c m \<Longrightarrow> ctl_ok c \<Longrightarrow> yields (\<lambda>(c', _). ctl_ok c') m"
  by (auto simp: sim_def yields_def intro: ctl_steps_ok)

lemma cancel_queued:
  assumes ok: "ctl_ok c" and q: "q \<in> set (c_queue c)"
  shows "yields (\<lambda>(c', _). ctl_ok c' \<and> c_shutting_down c' = c_shutting_down c \<and>
     c_queue c' = filter (\<lambda>x. x \<noteq> q) (c_queue c)) (cancel_each K q (c, h))"
proof -
  obtain job where job: "find_job c q = Some job" using ctl_okD(1) [OF ok] q by (auto simp: tables_ok_def)
  then have "job_state job = ''queued''" using queued_iff_waiting [OF ok job] q by simp
  then have "yields (\<lambda>(c', _). c_shutting_down c' = c_shutting_down c \<and>
     c_queue c' = filter (\<lambda>x. x \<noteq> q) (c_queue c)) (cancel_each K q (c, h))"
    using job by (auto simp: cancel_each_def on_cancel_def intro!: yields_bind yields_hist)
  from yields_conj [OF sim_ok [OF sim_cancel_each [OF ok] ok] this] show ?thesis
    by (rule yields_mono) auto
qed

lemma cancel_all_queued:
  assumes "ctl_ok c" and "set qs \<subseteq> set (c_queue c)" and "distinct qs"
  shows "yields (\<lambda>(c', _). ctl_ok c' \<and> c_shutting_down c' = c_shutting_down c \<and>
     c_queue c' = filter (\<lambda>x. x \<notin> set qs) (c_queue c)) (for_each (cancel_each K) qs (c, h))"
  using assms
proof (induction qs arbitrary: c h)
  case (Cons q qs)
  have rest: "yields (\<lambda>(c', _). ctl_ok c' \<and> c_shutting_down c' = c_shutting_down c \<and>
      c_queue c' = filter (\<lambda>x. x \<notin> set (q # qs)) (c_queue c)) (for_each (cancel_each K) qs (c2, h2))"
    if "ctl_ok c2" "c_shutting_down c2 = c_shutting_down c" "c_queue c2 = filter (\<lambda>x. x \<noteq> q) (c_queue c)" for c2 h2
  proof -
    have "set qs \<subseteq> set (c_queue c2)" using Cons.prems that(3) by auto
    moreover have "filter (\<lambda>x. x \<notin> set qs) (c_queue c2) = filter (\<lambda>x. x \<notin> set (q # qs)) (c_queue c)"
      by (simp add: that(3) conj_commute)
    ultimately show ?thesis using Cons.IH [OF that(1), of h2] Cons.prems(3) that(2) by simp
  qed
  have one: "ctl_ok c" "q \<in> set (c_queue c)" using Cons.prems by simp_all
  show ?case
    unfolding for_each.simps
  proof (rule yields_bind, rule yields_mono [OF cancel_queued [OF one]])
    fix s :: "controller \<times> hist"
    obtain c2 h2 where s: "s = (c2, h2)" by fastforce
    assume "case s of (c', _) \<Rightarrow> ctl_ok c' \<and> c_shutting_down c' = c_shutting_down c \<and>
      c_queue c' = filter (\<lambda>x. x \<noteq> q) (c_queue c)"
    then show "yields (\<lambda>(c', _). ctl_ok c' \<and> c_shutting_down c' = c_shutting_down c \<and>
        c_queue c' = filter (\<lambda>x. x \<notin> set (q # qs)) (c_queue c)) (for_each (cancel_each K) qs s)"
      unfolding s prod.case by (intro rest) blast+
  qed
qed simp

definition live_ids :: "controller \<Rightarrow> u64 set" where
  "live_ids c = {j. find_job c j \<noteq> None}"

text \<open>What \<^verbatim>\<open>SHUTDOWN\<close> keeps while it goes over the live jobs: those seen so far are stopped.\<close>

definition stopping :: "controller \<Rightarrow> u64 set \<Rightarrow> controller \<Rightarrow> bool" where
  "stopping c J c' \<longleftrightarrow> ctl_ok c' \<and> c_queue c' = [] \<and> c_shutting_down c' = c_shutting_down c \<and>
     live_ids c' = live_ids c \<and> (\<forall>j \<in> J. stopped c' j)"

lemma live_ids_put: "find_job c j = Some job \<Longrightarrow> live_ids (put_job j job' c) = live_ids c"
  by (auto simp: live_ids_def)

lemma stop_one:
  assumes "stopping c J c1"
  shows "yields (\<lambda>(c', _). stopping c (insert jid J) c') (stop_running K jid (c1, h))"
proof -
  have ok: "ctl_ok c1" using assms by (simp add: stopping_def)
  have run: "is_running job" if "find_job c1 j = Some job" for j job
    using ctl_okD(4) [OF ok that] assms by (simp add: job_ok_def working_def is_running_def stopping_def)
  have "yields (\<lambda>(c', _). c_queue c' = [] \<and> c_shutting_down c' = c_shutting_down c \<and>
      live_ids c' = live_ids c \<and> (\<forall>j \<in> insert jid J. stopped c' j))
     (stop_running K jid (c1, h))"
    using assms run
    by (auto simp: stop_running_def stopping_def stopped_def put_same live_ids_put
        intro!: yields_bind yields_request_stop split: option.split)
  from yields_conj [OF sim_ok [OF sim_stop_running [OF ok] ok] this] show ?thesis
    by (rule yields_mono) (auto simp: stopping_def)
qed

lemma stop_all:
  "stopping c J c1 \<Longrightarrow>
   yields (\<lambda>(c', _). stopping c (J \<union> set jids) c') (for_each (stop_running K) jids (c1, h))"
proof (induction jids arbitrary: J c1 h)
  case (Cons j jids)
  have "yields (\<lambda>(c', _). stopping c (J \<union> set (j # jids)) c') (for_each (stop_running K) jids s)"
    if "case s of (c', _) \<Rightarrow> stopping c (insert j J) c'" for s :: "controller \<times> hist"
    using Cons.IH [of "insert j J" "fst s" "snd s"] that by (cases s) simp
  then show ?case
    unfolding for_each.simps by (intro yields_bind yields_mono [OF stop_one [OF Cons.prems]])
qed simp

lemma yields_shut_down:
  assumes ok: "ctl_ok c"
  shows "yields (\<lambda>(c', _). ctl_ok c' \<and> c_shutting_down c' \<and> c_queue c' = [] \<and> (\<forall>j. stopped c' j))
     (shut_down K c h)"
proof -
  let ?c = "c\<lparr>c_shutting_down := True\<rparr>"
  have ok2: "ctl_ok ?c" by (rule ctl_step_ok [OF ctl_step.shutdown ok])
  have "distinct (c_queue ?c)" using ctl_okD(1) [OF ok2] by (simp add: tables_ok_def)
  from cancel_all_queued [OF ok2 order.refl this]
  have cancel: "yields (\<lambda>(c', _). ctl_ok c' \<and> c_shutting_down c' \<and> c_queue c' = [])
      (for_each (cancel_each K) (c_queue c) (?c, h1))" for h1
    by simp
  have stop: "yields (\<lambda>(c', _). ctl_ok c' \<and> c_shutting_down c' \<and> c_queue c' = [] \<and> (\<forall>j. stopped c' j))
      (for_each (stop_running K) (map fst (c_live c1)) (c1, h1))"
    if "ctl_ok c1" "c_shutting_down c1" "c_queue c1 = []" for c1 h1
  proof -
    have start: "stopping c1 {} c1" using that by (simp add: stopping_def)
    have all: "stopped c' j" if "stopping c1 ({} \<union> set (map fst (c_live c1))) c'" for c' j
    proof (cases "find_job c' j")
      case None
      then show ?thesis by (simp add: stopped_def)
    next
      case (Some job)
      then have "j \<in> live_ids c'" by (simp add: live_ids_def)
      then have "j \<in> live_ids c1" using that by (simp add: stopping_def)
      then have "j \<in> set (map fst (c_live c1))"
        by (auto simp: live_ids_def find_job_def dest!: map_of_SomeD intro: rev_image_eqI)
      then show ?thesis using that by (auto simp: stopping_def)
    qed
    show ?thesis
    proof (rule yields_mono [OF stop_all [OF start]], clarify)
      fix c' :: controller
      assume s: "stopping c1 ({} \<union> set (map fst (c_live c1))) c'"
      show "ctl_ok c' \<and> c_shutting_down c' \<and> c_queue c' = [] \<and> (\<forall>j. stopped c' j)"
        using s that(2) all [OF s] by (simp add: stopping_def)
    qed
  qed
  have "yields (\<lambda>s. yields (\<lambda>(c', _). ctl_ok c' \<and> c_shutting_down c' \<and> c_queue c' = [] \<and> (\<forall>j. stopped c' j))
      (case s of (c, h) \<Rightarrow> for_each (stop_running K) (map fst (c_live c)) (c, h)))
      (for_each (cancel_each K) (c_queue c) (?c, h1))" for h1
    by (rule yields_mono [OF cancel]) (auto intro: stop)
  then show ?thesis
    unfolding shut_down_def by (auto intro!: yields_bind yields_hist)
qed


section \<open>Properties\<close>

text \<open>C4. Every state the main loop reaches from a controller without jobs, as \<^verbatim>\<open>setup\<close> leaves it,
  is reached by steps of the specification alone, whatever the kernel answers: a job starts only
  from the head of the order, with a free slot and not during a shutdown, it leaves only when it is
  cancelled in the queue, refused at its start, or all of its processes have been reaped.\<close>

theorem controller_refines_spec:
  assumes "jobless c0" and "serving K c0 c since h"
  shows "ctl_steps c0 c"
  using serving_steps [OF assms(2) jobless_ok [OF assms(1)]] by blast

text \<open>A controller whose poller watches signals, and a kernel that delivers one \<^verbatim>\<open>SIGTERM\<close>; there
  are no jobs, and every call on the file system fails.\<close>

definition idle_controller :: controller where
  "idle_controller = (new_controller ''/w'' 2)\<lparr>c_poller :=
     empty_poller\<lparr>p_signals_watched := True, p_signal_token := pack_wake Wake_Signal 0\<rparr>\<rparr>"

definition sigterm_kernel :: kernel where
  "sigterm_kernel = \<lparr>k_done = (\<lambda>_ _. Some EIO),
     k_num = (\<lambda>_ c. case c of Poll (ReadSignal _) \<Rightarrow> Inr 15 | _ \<Rightarrow> Inl EIO), k_count = (\<lambda>_ _. Inl EIO),
     k_buf = (\<lambda>_ _. Inl EIO), k_str = (\<lambda>_ _. Inl EIO), k_names = (\<lambda>_ _. Inr []),
     k_stat = (\<lambda>_ _. Inl EIO), k_child = (\<lambda>_ _. Inl ECHILD),
     k_events = (\<lambda>_ _. Inr [pack_wake Wake_Signal 0]), k_region = (\<lambda>_ _. zero_region),
     k_strerror = (\<lambda>_. []), k_errno = (\<lambda>_. 5)\<rparr>"

lemma idle_controller_jobless: "jobless idle_controller"
  by (simp add: jobless_def idle_controller_def new_controller_def poller_ok_def empty_poller_def)

lemma sigterm_serving: "serving sigterm_kernel idle_controller (idle_controller\<lparr>c_shutting_down := True\<rparr>) 0
  (snd (snd (the (loop_step sigterm_kernel idle_controller 0 [(Fs (Readdir ''/w/jobs''), Names (Inr []))]))))"
proof -
  let ?h = "[(Fs (Readdir ''/w/jobs''), Names (Inr []))]"
  have "recover sigterm_kernel idle_controller [] = Some (idle_controller, ?h)" by code_simp
  then have start: "serving sigterm_kernel idle_controller idle_controller 0 ?h" by (rule serving.enter)
  have "map_option (\<lambda>(r, c, _). (r, c)) (loop_step sigterm_kernel idle_controller 0 ?h) =
      Some (Inr 0, idle_controller\<lparr>c_shutting_down := True\<rparr>)"
    by code_simp
  then obtain h' where "loop_step sigterm_kernel idle_controller 0 ?h =
      Some (Inr 0, idle_controller\<lparr>c_shutting_down := True\<rparr>, h')" by auto
  with serving.again [OF start this] show ?thesis by simp
qed

theorem controller_refines_spec_witness:
  "ctl_steps idle_controller (idle_controller\<lparr>c_shutting_down := True\<rparr>)"
  by (rule controller_refines_spec [OF idle_controller_jobless sigterm_serving])

text \<open>C3. The tables of the controller agree in every state of the main loop: the queue holds
  exactly the queued jobs, once each; every other live job runs, holds a slot and has a process that
  was not reaped; the slots in use are the running jobs; a pid is owned only by a live job that
  started it; every live job passed \<^verbatim>\<open>validate_meta\<close>.\<close>

theorem controller_invariant:
  assumes "jobless c0" and "serving K c0 c since h"
  shows "ctl_ok c"
  using serving_steps [OF assms(2) jobless_ok [OF assms(1)]] by blast

theorem controller_invariant_witness:
  "ctl_ok (idle_controller\<lparr>c_shutting_down := True\<rparr>)"
  by (rule controller_invariant [OF idle_controller_jobless sigterm_serving])

definition running_jobs :: "controller \<Rightarrow> nat" where
  "running_jobs c = length (filter (\<lambda>(_, job). job_state job = ''running'') (c_live c))"

lemma slots_count_running:
  "\<forall>(jid, job) \<in> set xs. slot_of job = (if job_state job = ''running'' then 1 else 0) \<Longrightarrow>
   slots_held xs = int (length (filter (\<lambda>(_, job). job_state job = ''running'') xs))"
  by (induction xs) (auto simp: split_beta)

lemma running_jobs_used:
  assumes ok: "ctl_ok c"
  shows "int (running_jobs c) = c_slots_used c"
proof -
  have "\<forall>(jid, job) \<in> set (c_live c). slot_of job = (if job_state job = ''running'' then 1 else 0)"
  proof clarify
    fix jid job assume "(jid, job) \<in> set (c_live c)"
    then have "find_job c jid = Some job"
      using ctl_okD(1) [OF ok] by (simp add: tables_ok_def find_job_def map_of_is_SomeI)
    from ctl_okD(4) [OF ok this] show "slot_of job = (if job_state job = ''running'' then 1 else 0)"
      by (auto simp: job_ok_def waiting_def working_def slot_of_def split: if_splits)
  qed
  from slots_count_running [OF this] ctl_okD(2) [OF ok] show ?thesis
    by (simp add: running_jobs_def slots_ok_def)
qed

text \<open>C14. No more jobs run at once than the controller has slots.\<close>

theorem slots_bound:
  assumes "jobless c0" and "serving K c0 c since h"
  shows "int (running_jobs c) = c_slots_used c \<and> c_slots_used c \<le> max 0 (c_slots_max c)"
proof -
  have ok: "ctl_ok c" using serving_steps [OF assms(2) jobless_ok [OF assms(1)]] by blast
  from running_jobs_used [OF ok] ctl_okD(2) [OF ok] show ?thesis by (simp add: slots_ok_def)
qed

theorem slots_bound_witness:
  "int (running_jobs (idle_controller\<lparr>c_shutting_down := True\<rparr>)) = 0"
  using slots_bound [OF idle_controller_jobless sigterm_serving]
  by (simp add: idle_controller_def new_controller_def)

text \<open>C13. After the line \<^verbatim>\<open>SHUTDOWN\<close> no job is queued, every live job has a stop reason, and no
  job starts any more.\<close>

theorem shutdown_stops_everything:
  assumes "ctl_ok c" and "handle_line K c ''SHUTDOWN'' h = Some (c', h')"
  shows "c_shutting_down c' \<and> c_queue c' = [] \<and> (\<forall>jid. stopped c' jid) \<and>
    (\<forall>h. schedule K c' h = Some (c', h))"
proof -
  have "shut_down K c h = Some (c', h')" using assms(2) by (simp add: handle_line_def)
  from yieldsD [OF yields_shut_down [OF assms(1)] this] show ?thesis by (simp add: schedule_def)
qed


text \<open>Job 1 runs with process 7, job 3 waits.\<close>

definition exec_meta :: "u64 \<Rightarrow> string \<Rightarrow> meta" where
  "exec_meta jid st = empty_meta\<lparr>m_id := jid, m_op := ''exec'', m_io := ''mmap'', m_workers := 1,
     m_exec_path := ''/x'', m_state := st\<rparr>"

definition busy_controller :: controller where
  "busy_controller = (new_controller ''/w'' 1)\<lparr>c_slots_used := 1, c_queue := [3],
     c_live := [(3, new_job (exec_meta 3 ''queued'')),
                (1, (new_job (exec_meta 1 ''running''))\<lparr>lj_procs := [empty_proc\<lparr>pr_pid := 7\<rparr>],
                       lj_uses_slot := True\<rparr>)],
     c_pid_owner := [(7, 1)]\<rparr>"

lemma exec_job_ok:
  "validate_meta (exec_meta jid st) = Inr ()" "m_state (exec_meta jid st) = st"
  by (simp_all add: exec_meta_def validate_meta_def bad_text_def empty_meta_def kMaxWorkers_def)

lemma busy_controller_ok: "ctl_ok busy_controller"
  by (auto simp: ctl_ok_def tables_ok_def slots_ok_def owners_ok_def job_ok_def find_job_def
      busy_controller_def new_controller_def poller_ok_def empty_poller_def empty_proc_def
      waiting_def working_def job_state_def all_reaped_def new_job_def exec_job_ok slot_of_def
      pids_of_def split: if_splits)

theorem shutdown_stops_everything_witness:
  "\<exists>c' h'. handle_line sigterm_kernel busy_controller ''SHUTDOWN'' [] = Some (c', h') \<and>
     c_queue c' = [] \<and> stopped c' 1"
proof -
  have "returns (handle_line sigterm_kernel busy_controller ''SHUTDOWN'' [])" by code_simp
  then obtain c' h' where run: "handle_line sigterm_kernel busy_controller ''SHUTDOWN'' [] = Some (c', h')"
    by (auto simp: returns_iff)
  from shutdown_stops_everything [OF busy_controller_ok run] run show ?thesis by blast
qed

end
