(* ===== verification/Controller_Live.thy ===== *)
theory Controller_Live
  imports Controller_Props
begin

text \<open>
  When the controller is done: it retires a job once all of its processes are reaped, so after a
  shutdown, when every process has been reaped, the main loop returns. This needs that no two live
  jobs list the same pid; the last property shows what happens when the kernel reuses one.
\<close>

section \<open>Processes that are still waited for\<close>

definition awaited :: "controller \<Rightarrow> int set" where
  "awaited c = {pid. \<exists>jid job pr. find_job c jid = Some job \<and> pr \<in> set (lj_procs job) \<and>
     \<not> pr_reaped pr \<and> pr_pid pr = pid}"

definition pids_apart :: "controller \<Rightarrow> bool" where
  "pids_apart c \<longleftrightarrow> (\<forall>i j a b. find_job c i = Some a \<longrightarrow> find_job c j = Some b \<longrightarrow> i \<noteq> j \<longrightarrow>
     pids_of a \<inter> pids_of b = {})"

definition awaited_owned :: "controller \<Rightarrow> bool" where
  "awaited_owned c \<longleftrightarrow> (\<forall>jid job pr. find_job c jid = Some job \<longrightarrow> pr \<in> set (lj_procs job) \<longrightarrow>
     \<not> pr_reaped pr \<longrightarrow> map_of (c_pid_owner c) (pr_pid pr) = Some jid)"

definition pids_ok :: "controller \<Rightarrow> bool" where
  "pids_ok c \<longleftrightarrow> pids_apart c \<and> awaited_owned c"

lemma awaited_ownedD:
  "awaited_owned c \<Longrightarrow> find_job c jid = Some job \<Longrightarrow> pr \<in> set (lj_procs job) \<Longrightarrow> \<not> pr_reaped pr \<Longrightarrow>
   map_of (c_pid_owner c) (pr_pid pr) = Some jid"
  unfolding awaited_owned_def by blast

lemma pids_apartD:
  "pids_apart c \<Longrightarrow> find_job c i = Some a \<Longrightarrow> find_job c j = Some b \<Longrightarrow> i \<noteq> j \<Longrightarrow> pids_of a \<inter> pids_of b = {}"
  unfolding pids_apart_def by blast

lemma pids_ok_jobless: "jobless c \<Longrightarrow> pids_ok c"
  by (simp add: pids_ok_def pids_apart_def awaited_owned_def jobless_def find_job_def)

text \<open>A job changes in place, and no process of it starts to be awaited again.\<close>

lemma pids_ok_put:
  assumes ok: "pids_ok c" and job: "find_job c jid = Some job"
    and same: "pids_of job' = pids_of job"
    and less: "\<And>pr. pr \<in> set (lj_procs job') \<Longrightarrow> \<not> pr_reaped pr \<Longrightarrow> pr \<in> set (lj_procs job)"
  shows "pids_ok (put_job jid job' c)" "awaited (put_job jid job' c) \<subseteq> awaited c"
proof -
  have "pids_apart (put_job jid job' c)"
    using ok job same unfolding pids_ok_def pids_apart_def
    by (auto simp: same split: if_splits)
  moreover have "awaited_owned (put_job jid job' c)"
    using ok job less unfolding pids_ok_def awaited_owned_def by (auto split: if_splits)
  ultimately show "pids_ok (put_job jid job' c)" by (simp add: pids_ok_def)
  show "awaited (put_job jid job' c) \<subseteq> awaited c"
    using job less by (fastforce simp: awaited_def split: if_splits)
qed

text \<open>A job goes with its pids.\<close>

lemma pids_ok_remove:
  assumes ok: "pids_ok c" and job: "find_job c jid = Some job"
    and find: "\<And>j. find_job c' j = (if j = jid then None else find_job c j)"
    and owner: "\<And>pid. map_of (c_pid_owner c') pid =
        (if pid \<in> pids_of job then None else map_of (c_pid_owner c) pid)"
  shows "pids_ok c'" "awaited c' \<subseteq> awaited c"
proof -
  have "pids_apart c'"
    using ok unfolding pids_ok_def pids_apart_def by (auto simp: find split: if_splits)
  moreover have "awaited_owned c'"
    unfolding awaited_owned_def
  proof (intro allI impI)
    fix j k pr assume k: "find_job c' j = Some k" "pr \<in> set (lj_procs k)" "\<not> pr_reaped pr"
    then have old: "find_job c j = Some k" "j \<noteq> jid" by (auto simp: find split: if_splits)
    have "pr_pid pr \<notin> pids_of job"
      using pids_apartD [OF _ old(1) job old(2)] ok k(2) by (auto simp: pids_ok_def pids_of_def)
    then show "map_of (c_pid_owner c') (pr_pid pr) = Some j"
      using awaited_ownedD [OF _ old(1) k(2,3)] ok by (simp add: owner pids_ok_def)
  qed
  ultimately show "pids_ok c'" by (simp add: pids_ok_def)
  show "awaited c' \<subseteq> awaited c" by (auto simp: awaited_def find split: if_splits)
qed

lemma owner_apart:
  assumes "ctl_ok c" and "pids_apart c" and "map_of (c_pid_owner c) pid = Some i"
    and "find_job c j = Some b" and "pid \<in> pids_of b"
  shows "i = j"
proof (rule ccontr)
  assume "i \<noteq> j"
  obtain a where "find_job c i = Some a" "pid \<in> pids_of a"
    using owners_okD [OF ctl_okD(3) [OF assms(1)] assms(3)] by blast
  with pids_apartD [OF assms(2) this(1) assms(4) \<open>i \<noteq> j\<close>] assms(5) show False by blast
qed

section \<open>One report\<close>

lemma with_exit_procs:
  "pr \<in> set (lj_procs (with_exit pid how job)) \<Longrightarrow> \<not> pr_reaped pr \<Longrightarrow>
   pr \<in> set (lj_procs job) \<and> pr_pid pr \<noteq> pid"
  by (auto simp: with_exit_def note_exit_def split: if_splits)

definition reported :: "controller \<Rightarrow> int \<Rightarrow> controller \<Rightarrow> bool" where
  "reported c pid c' \<longleftrightarrow> ctl_ok c' \<and> pids_ok c' \<and> c_shutting_down c' = c_shutting_down c \<and>
     set (c_queue c') \<subseteq> set (c_queue c) \<and> awaited c' \<subseteq> awaited c - {pid}"

lemma retire_frame [simp]:
  "find_job (retire jid job p c) j = (if j = jid then None else find_job c j)"
  "c_queue (retire jid job p c) = filter (\<lambda>q. q \<noteq> jid) (c_queue c)"
  "c_shutting_down (retire jid job p c) = c_shutting_down c"
  "map_of (c_pid_owner (retire jid job p c)) pid =
     (if pid \<in> pids_of job then None else map_of (c_pid_owner c) pid)"
  by (simp_all add: retire_def map_of_forget pids_of_def)


lemma yields_reported:
  assumes ok: "ctl_ok c" "pids_ok c"
  shows "yields (\<lambda>(c', _). reported c pid c') (note_reap K c pid info h)"
proof -
  have apart: "pids_apart c" and owned: "awaited_owned c" using ok(2) by (simp_all add: pids_ok_def)
  have "yields (\<lambda>(c', _). pids_ok c' \<and> c_shutting_down c' = c_shutting_down c \<and>
      set (c_queue c') \<subseteq> set (c_queue c) \<and> awaited c' \<subseteq> awaited c - {pid}) (note_reap K c pid info h)"
  proof (rule yields_note_reap [OF ok(1)], unfold prod.case)
    assume "map_of (c_pid_owner c) pid = None"
    then have "pid \<notin> awaited c" using awaited_ownedD [OF owned] by (fastforce simp: awaited_def)
    then show "pids_ok c \<and> c_shutting_down c = c_shutting_down c \<and> set (c_queue c) \<subseteq> set (c_queue c) \<and>
        awaited c \<subseteq> awaited c - {pid}"
      using ok(2) by auto
  next
    fix jid job job'
    assume own: "map_of (c_pid_owner c) pid = Some jid" and job: "find_job c jid = Some job"
      and "job' = with_exit pid (describe_wait info) job \<or> lj_stop_reason job = [] \<and>
        (\<exists>t. job' = stop_with ''failed'' t (with_exit pid (describe_wait info) job))"
    then have procs: "lj_procs job' = lj_procs (with_exit pid (describe_wait info) job)"
      "pids_of job' = pids_of job" by auto
    note put = pids_ok_put [OF ok(2) job procs(2)]
    have "pr \<in> set (lj_procs job) \<and> pr_pid pr \<noteq> pid" if "pr \<in> set (lj_procs job')" "\<not> pr_reaped pr" for pr
      using that with_exit_procs procs(1) by simp
    moreover from this have "pid \<notin> awaited (put_job jid job' c)"
      using owner_apart [OF ok(1) apart own] by (fastforce simp: awaited_def pids_of_def split: if_splits)
    ultimately show "pids_ok (put_job jid job' c) \<and>
        c_shutting_down (put_job jid job' c) = c_shutting_down c \<and>
        set (c_queue (put_job jid job' c)) \<subseteq> set (c_queue c) \<and>
        awaited (put_job jid job' c) \<subseteq> awaited c - {pid}"
      using put by auto
  next
    fix jid job p
    assume own: "map_of (c_pid_owner c) pid = Some jid" and job: "find_job c jid = Some job"
    let ?c = "retire jid (with_exit pid (describe_wait info) job) p c"
    have remove: "pids_ok ?c" "awaited ?c \<subseteq> awaited c"
      by (rule pids_ok_remove [OF ok(2) job]; simp)+
    moreover have "pid \<notin> awaited ?c"
      using owner_apart [OF ok(1) apart own] by (fastforce simp: awaited_def pids_of_def split: if_splits)
    ultimately show "pids_ok ?c \<and> c_shutting_down ?c = c_shutting_down c \<and>
        set (c_queue ?c) \<subseteq> set (c_queue c) \<and> awaited ?c \<subseteq> awaited c - {pid}"
      by auto
  qed
  from yields_conj [OF sim_ok [OF sim_note_reap [OF ok(1)] ok(1)] this] show ?thesis
    by (rule yields_mono) (auto simp: reported_def)
qed

section \<open>A run of \<^verbatim>\<open>reap\<close>\<close>

text \<open>The loop of \<^verbatim>\<open>reap\<close> with the pids \<^verbatim>\<open>waitid\<close> reported, until it reported none.\<close>

inductive reaps :: "kernel \<Rightarrow> controller \<Rightarrow> hist \<Rightarrow> int list \<Rightarrow> controller \<Rightarrow> hist \<Rightarrow> bool" for K where
  none: "sys_child K (Proc WaitAny) h = (Inr (0, info), h') \<Longrightarrow> reaps K c h [] c h'"
| no_child: "sys_child K (Proc WaitAny) h = (Inl ECHILD, h') \<Longrightarrow> reaps K c h [] c h'"
| interrupted: "sys_child K (Proc WaitAny) h = (Inl EINTR, h') \<Longrightarrow> reaps K c h' pids c2 h2 \<Longrightarrow>
    reaps K c h pids c2 h2"
| child: "sys_child K (Proc WaitAny) h = (Inr (pid, info), h') \<Longrightarrow> pid \<noteq> 0 \<Longrightarrow>
    note_reap K c pid info h' = Some (c1, h1) \<Longrightarrow> reaps K c1 h1 pids c2 h2 \<Longrightarrow>
    reaps K c h (pid # pids) c2 h2"

lemma reaps_reap: "reaps K c h pids c' h' \<Longrightarrow> reap K c h = Some (c', h')"
  by (induction rule: reaps.induct) (subst reap.simps, simp)+

lemma reaps_drain:
  "reaps K c h pids c' h' \<Longrightarrow> ctl_ok c \<Longrightarrow> pids_ok c \<Longrightarrow>
   ctl_ok c' \<and> pids_ok c' \<and> c_shutting_down c' = c_shutting_down c \<and>
   set (c_queue c') \<subseteq> set (c_queue c) \<and> awaited c' \<subseteq> awaited c - set pids"
proof (induction rule: reaps.induct)
  case (child h pid info h' c c1 h1 pids c2 h2)
  have "reported c pid c1"
    using yieldsD [OF yields_reported [OF child.prems] child.hyps(3)] by simp
  then show ?case using child.IH by (auto simp: reported_def)
qed auto

lemma nothing_awaited:
  assumes "ctl_ok c" and "awaited c = {}" and "c_queue c = []"
  shows "c_live c = []"
proof (rule ccontr)
  assume "c_live c \<noteq> []"
  then have "find_job c (fst (hd (c_live c))) = Some (snd (hd (c_live c)))"
    by (cases "c_live c") (simp_all add: find_job_def)
  then obtain jid job where job: "find_job c jid = Some job" by blast
  moreover from ctl_okD(4) [OF assms(1) job] have "\<not> all_reaped job"
    using assms(3) by (simp add: job_ok_def working_def)
  ultimately show False using assms(2) by (auto simp: awaited_def all_reaped_def list_all_iff)
qed

section \<open>Properties\<close>



text \<open>The running job of \<open>busy_controller\<close> after a shutdown.\<close>

definition stopping_job :: live_job where
  "stopping_job = (new_job (exec_meta 1 ''running''))
     \<lparr>lj_procs := [empty_proc\<lparr>pr_pid := 7\<rparr>], lj_uses_slot := True, lj_stop_reason := ''shutdown''\<rparr>"

definition stopping_controller :: controller where
  "stopping_controller = busy_controller\<lparr>c_shutting_down := True, c_queue := [],
     c_live := [(1, stopping_job)]\<rparr>"

text \<open>A kernel that reports one exit; every other call fails.\<close>

definition exit_kernel :: kernel where
  "exit_kernel = \<lparr>k_done = (\<lambda>_ _. Some EIO), k_num = (\<lambda>_ _. Inl EIO), k_count = (\<lambda>_ _. Inl EIO),
     k_buf = (\<lambda>_ _. Inl EIO), k_str = (\<lambda>_ _. Inl EIO), k_names = (\<lambda>_ _. Inl EIO),
     k_stat = (\<lambda>_ _. Inl EIO),
     k_child = (\<lambda>h _. if h = [] then Inr (7, 1, 0) else Inl ECHILD),
     k_events = (\<lambda>_ _. Inl EIO), k_region = (\<lambda>_ _. zero_region), k_strerror = (\<lambda>_. []),
     k_errno = (\<lambda>_. 5)\<rparr>"

lemma exit_kernel_run:
  "map_option (\<lambda>(c, h). (c, h \<noteq> [])) (note_reap exit_kernel stopping_controller 7 (1, 0)
     [(Proc WaitAny, Child (Inr (7, 1, 0)))]) =
   Some (stopping_controller\<lparr>c_slots_used := 0, c_live := [], c_pid_owner := []\<rparr>, True)"
  by code_simp

lemma stopping_controller_ok: "ctl_ok stopping_controller \<and> pids_ok stopping_controller"
proof -
  have find: "find_job stopping_controller j = (if j = 1 then Some stopping_job else None)" for j
    by (simp add: stopping_controller_def find_job_def)
  have "working stopping_job" "validate_meta (lj_meta stopping_job) = Inr ()" "slot_of stopping_job = 1"
    "\<not> lj_finished stopping_job"
    by (simp_all add: stopping_job_def new_job_def working_def job_state_def all_reaped_def
        empty_proc_def stop_reasons_def exec_job_ok slot_of_def)
  moreover have "poller_ok (c_poller stopping_controller)" "c_queue stopping_controller = []"
    "c_slots_used stopping_controller = 1" "c_slots_max stopping_controller = 1"
    "c_live stopping_controller = [(1, stopping_job)]" "c_pid_owner stopping_controller = [(7, 1)]"
    by (simp_all add: stopping_controller_def busy_controller_def new_controller_def poller_ok_def
        empty_poller_def)
  moreover have "pids_of stopping_job = {7}" "lj_procs stopping_job = [empty_proc\<lparr>pr_pid := 7\<rparr>]"
    by (simp_all add: stopping_job_def pids_of_def)
  ultimately show ?thesis
    by (simp add: ctl_ok_def tables_ok_def slots_ok_def owners_ok_def job_ok_def find pids_ok_def
        pids_apart_def awaited_owned_def empty_proc_def)
qed


section \<open>When the kernel reuses a pid\<close>



text \<open>Job 1 has reaped its worker 7 and waits for 8; the kernel gave 7 to the worker of job 2.\<close>

definition count_job :: "u64 \<Rightarrow> proc_ref list \<Rightarrow> live_job" where
  "count_job jid procs = (new_job (empty_meta\<lparr>m_id := jid, m_op := ''count'', m_io := ''mmap'',
       m_workers := 2, m_input := ''/in'', m_state := ''running''\<rparr>))
     \<lparr>lj_procs := procs, lj_uses_slot := True\<rparr>"

definition reuse_controller :: controller where
  "reuse_controller = (new_controller ''/w'' 2)\<lparr>c_slots_used := 2,
     c_live := [(1, count_job 1 [empty_proc\<lparr>pr_pid := 7, pr_reaped := True, pr_how := ''exited:0''\<rparr>,
                                 empty_proc\<lparr>pr_pid := 8\<rparr>]),
                (2, count_job 2 [empty_proc\<lparr>pr_pid := 7\<rparr>])],
     c_pid_owner := [(7, 2), (8, 1)]\<rparr>"

lemma count_job_ok:
  "procs \<noteq> [] \<Longrightarrow> \<not> list_all pr_reaped procs \<Longrightarrow> working (count_job jid procs) \<and>
   validate_meta (lj_meta (count_job jid procs)) = Inr () \<and> slot_of (count_job jid procs) = 1 \<and>
   \<not> lj_finished (count_job jid procs) \<and> pids_of (count_job jid procs) = pr_pid ` set procs"
  by (simp add: count_job_def new_job_def working_def job_state_def all_reaped_def pids_of_def
      validate_meta_def bad_text_def empty_meta_def kMaxWorkers_def slot_of_def)

lemma reuse_controller_ok: "ctl_ok reuse_controller"
  using count_job_ok
  by (auto simp: ctl_ok_def tables_ok_def slots_ok_def owners_ok_def job_ok_def find_job_def
      reuse_controller_def new_controller_def poller_ok_def empty_poller_def empty_proc_def split: if_splits)

lemma reuse_run:
  "map_option fst (Option.bind (note_reap exit_kernel reuse_controller 8 (1, 0) [])
     (\<lambda>(c, h). note_reap exit_kernel c 7 (1, 0) h)) \<noteq> None"
  by code_simp


end
