(* ===== verification/Worker.thy ===== *)
theory Worker
  imports Launch Sha256 Controller_Jobs
begin

text \<open>
  The worker (\<^verbatim>\<open>worker.cpp\<close>): the three ways to read its range of the input, the sinks that hash,
  count and copy, the limits, the start gate, the publication of the result, and \<^verbatim>\<open>worker_entry\<close>.
  A sink takes its context and the next bytes. \<open>None\<close> means that the process does not come back: the
  kernel interrupts it forever, or it touches a mapped page behind the end of the file (\<^verbatim>\<open>SIGBUS\<close>).
\<close>

type_synonym 'c sink = "'c \<Rightarrow> bytes \<Rightarrow> hist \<Rightarrow> ((string + 'c) \<times> hist) option"

definition log_fd_line :: "kernel \<Rightarrow> fd \<Rightarrow> string \<Rightarrow> hist \<Rightarrow> hist option" where
  "log_fd_line K f line h =
     (if 0 \<le> f then do { (_, h) \<leftarrow> write_line K f line h; Some h } else Some h)"

section \<open>Reading a range\<close>

text \<open>\<^verbatim>\<open>1 << 20\<close>\<close>

definition feed_block :: nat where "feed_block = 1048576"

text \<open>The buffered path: \<open>left\<close> bytes from \<open>at\<close>, as much as each \<^verbatim>\<open>pread\<close> gives.\<close>

partial_function (option) read_loop ::
    "kernel \<Rightarrow> 'c sink \<Rightarrow> fd \<Rightarrow> u64 \<Rightarrow> u64 \<Rightarrow> 'c \<Rightarrow> hist \<Rightarrow> ((string + 'c) \<times> hist) option" where
  "read_loop K sink f left pos ctx h =
     (if left = 0 then Some (Inr ctx, h)
      else case sys_buf K (Fs (Pread f (min feed_block (unat left)) (unat pos))) h of
        (Inl e, h') \<Rightarrow>
          if e = EINTR then read_loop K sink f left pos ctx h'
          else Some (Inl (''pread: '' @ errno_string K e), h')
      | (Inr b, h') \<Rightarrow>
          if b = [] then Some (Inl ''unexpected EOF'', h')
          else Option.bind (sink ctx b h') (\<lambda>r. case r of
              (Inl err, h'') \<Rightarrow> Some (Inl err, h'')
            | (Inr ctx', h'') \<Rightarrow>
                read_loop K sink f (left - word_of_nat (length b)) (pos + word_of_nat (length b)) ctx' h''))"

text \<open>The inner loops of the direct path: exactly \<open>want\<close> bytes from \<open>pos\<close>.\<close>

partial_function (option) pread_full ::
    "kernel \<Rightarrow> string \<Rightarrow> string \<Rightarrow> fd \<Rightarrow> nat \<Rightarrow> u64 \<Rightarrow> bytes \<Rightarrow> hist \<Rightarrow> ((string + bytes) \<times> hist) option" where
  "pread_full K what eof f want pos got h =
     (if want \<le> length got then Some (Inr got, h)
      else case sys_buf K (Fs (Pread f (want - length got) (unat (pos + word_of_nat (length got))))) h of
        (Inl e, h') \<Rightarrow>
          if e = EINTR then pread_full K what eof f want pos got h'
          else Some (Inl (what @ errno_string K e), h')
      | (Inr b, h') \<Rightarrow>
          if b = [] then Some (Inl eof, h') else pread_full K what eof f want pos (got @ b) h')"

text \<open>The outer loop of the direct path over the aligned part.\<close>

partial_function (option) direct_loop ::
    "kernel \<Rightarrow> 'c sink \<Rightarrow> fd \<Rightarrow> u64 \<Rightarrow> u64 \<Rightarrow> u64 \<Rightarrow> 'c \<Rightarrow> hist \<Rightarrow> ((string + 'c) \<times> hist) option" where
  "direct_loop K sink f off aligned got ctx h =
     (if aligned \<le> got then Some (Inr ctx, h)
      else
        Option.bind
          (pread_full K ''pread O_DIRECT: '' ''unexpected EOF during O_DIRECT read'' f
             (min feed_block (unat (aligned - got))) (off + got) [] h)
          (\<lambda>r. case r of
             (Inl err, h') \<Rightarrow> Some (Inl err, h')
           | (Inr b, h') \<Rightarrow>
               Option.bind (sink ctx b h') (\<lambda>r. case r of
                   (Inl err, h'') \<Rightarrow> Some (Inl err, h'')
                 | (Inr ctx', h'') \<Rightarrow>
                     direct_loop K sink f off aligned
                       (got + word_of_nat (min feed_block (unat (aligned - got)))) ctx' h'')))"

definition feed_read ::
    "kernel \<Rightarrow> 'c sink \<Rightarrow> string \<Rightarrow> u64 \<Rightarrow> u64 \<Rightarrow> 'c \<Rightarrow> hist \<Rightarrow> ((string + 'c) \<times> hist) option" where
  "feed_read K sink path off len ctx h =
     (case sys_open K path [O_RDONLY, O_CLOEXEC] h of
        (Inl e, h) \<Rightarrow> Some (Inl (''open input: '' @ errno_string K e), h)
      | (Inr f, h) \<Rightarrow>
          do { (r, h) \<leftarrow> read_loop K sink f len off ctx (sys_do K (Shm Advise) h);
               Some (r, sys_close K f h) })"

text \<open>\<^verbatim>\<open>offset & ~(page_u - 1)\<close>: the page that holds the offset. The answer to \<^verbatim>\<open>mmap\<close> is what can be
  read through the mapping.\<close>

definition page_start :: "int \<Rightarrow> u64 \<Rightarrow> u64" where
  "page_start page off = off AND NOT ((if 0 < page then word_of_int page else 4096) - 1)"

definition feed_mmap ::
    "kernel \<Rightarrow> 'c sink \<Rightarrow> string \<Rightarrow> u64 \<Rightarrow> u64 \<Rightarrow> 'c \<Rightarrow> hist \<Rightarrow> ((string + 'c) \<times> hist) option" where
  "feed_mmap K sink path off len ctx h =
     (case sys_open K path [O_RDONLY, O_CLOEXEC] h of
        (Inl e, h) \<Rightarrow> Some (Inl (''open input: '' @ errno_string K e), h)
      | (Inr f, h) \<Rightarrow>
         (let (page, h) = sys_value K (Env PageSize) (sys_do K (Shm Advise) h);
              map_off = page_start page off;
              prefix = off - map_off;
              (m, h) = sys_buf K (Shm (MmapFile f (prefix + len) map_off)) h in
          case m of
            Inl e \<Rightarrow>
              Some (Inl (''mmap input: '' @ errno_string K e @
                ''. RLIMIT_AS includes this mapping, so a small --mem-mb on a large file fails here.''),
                sys_close K f h)
          | Inr view \<Rightarrow>
              if length view < unat (prefix + len) then None
              else do { (r, h) \<leftarrow> sink ctx (take (unat len) (drop (unat prefix) view)) (sys_do K (Shm Advise) h);
                        Some (r, sys_close K f (sys_do K (Shm Munmap) h)) }))"

definition open_readonly :: "kernel \<Rightarrow> string \<Rightarrow> bool \<Rightarrow> hist \<Rightarrow> (string + fd) \<times> hist" where
  "open_readonly K path direct h =
     (case sys_open K path ([O_RDONLY, O_CLOEXEC] @ (if direct then [O_DIRECT] else [])) h of
        (Inl e, h) \<Rightarrow>
          (Inl ((if direct then ''open O_DIRECT: '' else ''open input: '') @ errno_string K e
             @ (if direct then ''. tmpfs often returns EINVAL. Forge does not fall back.'' else [])), h)
      | (Inr f, h) \<Rightarrow> (Inr f, h))"

text \<open>The unaligned tail, through the second descriptor.\<close>

definition feed_tail ::
    "kernel \<Rightarrow> 'c sink \<Rightarrow> fd \<Rightarrow> u64 \<Rightarrow> u64 \<Rightarrow> u64 \<Rightarrow> fd \<Rightarrow> 'c \<Rightarrow> hist \<Rightarrow> ((string + 'c) \<times> hist) option" where
  "feed_tail K sink cached off aligned len log_fd ctx h =
     (if len \<le> aligned then Some (Inr ctx, h)
      else
        do { h \<leftarrow> log_fd_line K log_fd (''tail '' @ dec_u64 (len - aligned) @
               '' bytes read via the page cache (O_DIRECT length must be a multiple of 4096)'') h;
             (r, h) \<leftarrow> pread_full K ''pread tail: '' ''unexpected EOF in tail'' cached
               (unat (len - aligned)) (off + aligned) [] h;
             case r of Inl err \<Rightarrow> Some (Inl err, h) | Inr b \<Rightarrow> sink ctx b h })"

definition feed_open ::
    "kernel \<Rightarrow> 'c sink \<Rightarrow> fd \<Rightarrow> fd \<Rightarrow> u64 \<Rightarrow> u64 \<Rightarrow> fd \<Rightarrow> 'c \<Rightarrow> hist \<Rightarrow> ((string + 'c) \<times> hist) option" where
  "feed_open K sink direct cached off len log_fd ctx h =
     (let aligned = len - len mod kDirectAlign in
      do { h \<leftarrow> (if aligned = 0
                then log_fd_line K log_fd ''range shorter than 4096; O_DIRECT skipped for this slice'' h
                else Some h);
           (a, h) \<leftarrow> Some (if 0 < aligned then sys_done K (Shm (AlignedAlloc feed_block)) h else (None, h));
           if a \<noteq> None then Some (Inl ''posix_memalign failed'', h)
           else
             do { (r, h) \<leftarrow> direct_loop K sink direct off aligned 0 ctx h;
                  case r of
                    Inl err \<Rightarrow> Some (Inl err, h)
                  | Inr ctx \<Rightarrow> feed_tail K sink cached off aligned len log_fd ctx h } })"

definition feed_direct ::
    "kernel \<Rightarrow> 'c sink \<Rightarrow> string \<Rightarrow> u64 \<Rightarrow> u64 \<Rightarrow> fd \<Rightarrow> 'c \<Rightarrow> hist \<Rightarrow> ((string + 'c) \<times> hist) option" where
  "feed_direct K sink path off len log_fd ctx h =
     (if off mod kDirectAlign \<noteq> 0
      then Some (Inl (''O_DIRECT range is not 4096-aligned (offset '' @ dec_u64 off @ '')''), h)
      else case open_readonly K path True h of
        (Inl err, h) \<Rightarrow> Some (Inl err, h)
      | (Inr direct, h) \<Rightarrow>
         (case sys_open K path [O_RDONLY, O_CLOEXEC] h of
            (Inl e, h) \<Rightarrow> Some (Inl (''open input tail: '' @ errno_string K e), sys_close K direct h)
          | (Inr cached, h) \<Rightarrow>
              do { (r, h) \<leftarrow> feed_open K sink direct cached off len log_fd ctx h;
                   Some (r, sys_close K direct (sys_close K cached h)) }))"

definition feed_range ::
    "kernel \<Rightarrow> string \<Rightarrow> string \<Rightarrow> u64 \<Rightarrow> u64 \<Rightarrow> 'c sink \<Rightarrow> 'c \<Rightarrow> fd \<Rightarrow> hist \<Rightarrow>
     ((string + 'c) \<times> hist) option" where
  "feed_range K mode path off len sink ctx log_fd h =
     (if len = 0 then do { h \<leftarrow> log_fd_line K log_fd ''io range empty'' h; Some (Inr ctx, h) }
      else if mode = ''mmap'' then feed_mmap K sink path off len ctx h
      else if mode = ''direct'' then feed_direct K sink path off len log_fd ctx h
      else feed_read K sink path off len ctx h)"

section \<open>The sinks\<close>

definition hash_sink :: "sha256 sink" where
  "hash_sink ctx b h = Some (Inr (sha_update ctx b), h)"

record count_ctx =
  cc_bytes :: u64
  cc_sum :: u64

definition count_bytes :: "count_ctx \<Rightarrow> bytes \<Rightarrow> count_ctx" where
  "count_bytes ctx b =
     ctx\<lparr>cc_sum := foldl (\<lambda>s x. s + ucast x) (cc_sum ctx) b,
         cc_bytes := cc_bytes ctx + word_of_nat (length b)\<rparr>"

definition count_sink :: "count_ctx sink" where
  "count_sink ctx b h = Some (Inr (count_bytes ctx b), h)"

record copy_ctx =
  cp_fd :: fd
  cp_bytes :: u64

definition copy_sink :: "kernel \<Rightarrow> copy_ctx sink" where
  "copy_sink K ctx b h =
     do { (w, h) \<leftarrow> write_all K (cp_fd ctx) b h;
          Some (case w of
                  Some e \<Rightarrow> Inl (''write output: '' @ errno_string K e)
                | None \<Rightarrow> Inr (ctx\<lparr>cp_bytes := cp_bytes ctx + word_of_nat (length b)\<rparr>), h) }"


section \<open>Limits and hints\<close>

definition apply_one_limit ::
    "kernel \<Rightarrow> string \<Rightarrow> u64 \<Rightarrow> fd \<Rightarrow> string \<times> bool \<Rightarrow> hist \<Rightarrow> ((string \<times> bool) \<times> hist) option" where
  "apply_one_limit K name val log_fd state h =
     (if val = 0 then Some (state, h)
      else case sys_done K (Proc (SetRlimit name val)) h of
        (Some e, h) \<Rightarrow>
          (let err = ''setrlimit '' @ name @ '': '' @ errno_string K e in
           do { h \<leftarrow> log_fd_line K log_fd err h; Some ((err, False), h) })
      | (None, h) \<Rightarrow>
          do { h \<leftarrow> log_fd_line K log_fd (''limit '' @ name @ ''='' @ dec_u64 val) h; Some (state, h) })"

definition megabytes :: "u64 \<Rightarrow> u64" where
  "megabytes n = n * 1024 * 1024"

definition apply_resource_limits ::
    "kernel \<Rightarrow> meta \<Rightarrow> fd \<Rightarrow> string \<Rightarrow> hist \<Rightarrow> ((string \<times> bool) \<times> hist) option" where
  "apply_resource_limits K m log_fd err h =
     do { (s, h) \<leftarrow> (if 0 < m_mem_mb m
            then apply_one_limit K ''RLIMIT_AS'' (megabytes (m_mem_mb m)) log_fd (err, True) h
            else Some ((err, True), h));
          (s, h) \<leftarrow> (if 0 < m_cpu_sec m
            then apply_one_limit K ''RLIMIT_CPU'' (m_cpu_sec m) log_fd s h else Some (s, h));
          (s, h) \<leftarrow> (if 0 < m_max_fds m
            then apply_one_limit K ''RLIMIT_NOFILE'' (m_max_fds m) log_fd s h else Some (s, h));
          if 0 < m_max_out_mb m
            then apply_one_limit K ''RLIMIT_FSIZE'' (megabytes (m_max_out_mb m)) log_fd s h
            else Some (s, h) }"

definition scheduler_name :: "kernel \<Rightarrow> hist \<Rightarrow> string \<times> hist" where
  "scheduler_name K h =
     (case sys_num K (Proc SchedulerName) h of
        (Inl _, h) \<Rightarrow> (''policy -1'', h)
      | (Inr p, h) \<Rightarrow> (if p = 0 then ''SCHED_OTHER (CFS)'' else ''policy '' @ dec_int p, h))"

abbreviation CPU_SETSIZE :: int where "CPU_SETSIZE \<equiv> 1024"

text \<open>The answer 1 (this system cannot pin) is that of macOS.\<close>

definition pin_cpu :: "kernel \<Rightarrow> int \<Rightarrow> hist \<Rightarrow> (string + unit) \<times> hist" where
  "pin_cpu K cpu h =
     (if CPU_SETSIZE \<le> cpu then (Inl ''cpu index is out of range'', h)
      else case sys_done K (Proc (SetAffinity cpu)) h of
        (Some e, h) \<Rightarrow> (Inl (''sched_setaffinity: '' @ errno_string K e), h)
      | (None, h) \<Rightarrow> (Inr (), h))"

definition apply_nice :: "kernel \<Rightarrow> int \<Rightarrow> fd \<Rightarrow> hist \<Rightarrow> hist option" where
  "apply_nice K n log_fd h =
     (if n = 0 then Some h
      else case sys_done K (Proc (SetPriority n)) h of
        (Some e, h) \<Rightarrow>
          log_fd_line K log_fd (''setpriority('' @ dec_int n @ '') failed: '' @ errno_string K e
            @ ''. Negative nice needs privileges; continuing.'') h
      | (None, h) \<Rightarrow> log_fd_line K log_fd (''nice '' @ dec_int n) h)"

definition apply_scheduler_hints ::
    "kernel \<Rightarrow> meta \<Rightarrow> fd \<Rightarrow> hist \<Rightarrow> ((string + unit) \<times> hist) option" where
  "apply_scheduler_hints K m log_fd h =
     (case scheduler_name K h of (name, h) \<Rightarrow>
        do { h \<leftarrow> log_fd_line K log_fd (''scheduler '' @ name) h;
             (r, h) \<leftarrow> (if 0 \<le> m_cpu m then
                 (case pin_cpu K (m_cpu m) h of
                    (Inl err, h) \<Rightarrow> Some (Inl err, h)
                  | (Inr _, h) \<Rightarrow>
                      do { h \<leftarrow> log_fd_line K log_fd (''affinity cpu '' @ dec_int (m_cpu m)) h;
                           Some (Inr (), h) })
               else Some (Inr (), h));
             case r of
               Inl err \<Rightarrow> Some (Inl err, h)
             | Inr _ \<Rightarrow> do { h \<leftarrow> apply_nice K (m_nice m) log_fd h; Some (Inr (), h) } })"

section \<open>The start gate and the result slot\<close>

partial_function (option) wait_for_start_gate ::
    "kernel \<Rightarrow> fd \<Rightarrow> fd \<Rightarrow> hist \<Rightarrow> ((string + unit) \<times> hist) option" where
  "wait_for_start_gate K shm log_fd h =
     (case sys_region K (Shm (LoadRegion shm)) h of
        (r, h1) \<Rightarrow>
          if sr_start_gate r = 1 then Some (Inr (), h1)
          else case sys_done K (Shm (FutexWait shm)) h1 of
            (None, h2) \<Rightarrow> wait_for_start_gate K shm log_fd h2
          | (Some e, h2) \<Rightarrow>
              if e = EAGAIN \<or> e = EINTR then wait_for_start_gate K shm log_fd h2
              else
                (let err = (if e = ETIMEDOUT then ''start gate was not opened within 30s''
                            else ''futex wait: '' @ errno_string K e) in
                 Option.bind (log_fd_line K log_fd err h2) (\<lambda>h3. Some (Inl err, h3))))"

text \<open>The slot is stored before the count is incremented; the wake is best effort.\<close>

definition publish_chunk :: "kernel \<Rightarrow> fd \<Rightarrow> chunk_result \<Rightarrow> fd \<Rightarrow> hist \<Rightarrow> hist" where
  "publish_chunk K shm chunk event_fd h =
     (let h = sys_do K (Shm (AddDone shm)) (sys_do K (Shm (StoreSlot shm chunk)) h) in
      if 0 \<le> event_fd then sys_do K (Shm (NotifyWrite event_fd)) h else h)"

text \<open>How a worker ends: it exits, or its image is replaced.\<close>

datatype worker_end = Exits int | Becomes string "string list"

definition exit_with :: "kernel \<Rightarrow> int \<Rightarrow> hist \<Rightarrow> worker_end \<times> hist" where
  "exit_with K code h = (Exits code, sys_do K (Proc (ExitProcess code)) h)"

text \<open>\<^verbatim>\<open>chunk.error\<close> has 160 bytes with the NUL.\<close>

definition error_text :: "string \<Rightarrow> string" where
  "error_text err = take 159 (c_str err)"

definition launch_chunk :: "worker_launch \<Rightarrow> chunk_result" where
  "launch_chunk l = empty_chunk\<lparr>cr_index := word_of_int (wl_chunk_index l), cr_offset := wl_offset l,
     cr_length := wl_length l\<rparr>"

definition fail_chunk ::
    "kernel \<Rightarrow> fd option \<Rightarrow> worker_launch \<Rightarrow> string \<Rightarrow> hist \<Rightarrow> (worker_end \<times> hist) option" where
  "fail_chunk K shm l err h =
     do { h \<leftarrow> log_fd_line K (wl_log_fd l) err h;
          h \<leftarrow> Some (case shm of
                  None \<Rightarrow> h
                | Some f \<Rightarrow>
                    if 0 \<le> wl_chunk_index l \<and> wl_chunk_index l < kMaxWorkers
                    then publish_chunk K f ((launch_chunk l)\<lparr>cr_error := error_text err\<rparr>) (wl_event_fd l) h
                    else h);
          Some (exit_with K 1 h) }"

section \<open>The entry\<close>

definition redirect_stdio :: "kernel \<Rightarrow> fd \<Rightarrow> hist \<Rightarrow> hist" where
  "redirect_stdio K log_fd h =
     (let h = (if 0 \<le> log_fd
               then sys_do K (Proc (Dup2 log_fd 2)) (sys_do K (Proc (Dup2 log_fd 1)) h) else h) in
      case sys_open K ''/dev/null'' [O_RDONLY, O_CLOEXEC] h of
        (Inl _, h) \<Rightarrow> h
      | (Inr f, h) \<Rightarrow> sys_close K f (sys_do K (Proc (Dup2 f 0)) h))"

definition run_exec :: "kernel \<Rightarrow> worker_launch \<Rightarrow> hist \<Rightarrow> (worker_end \<times> hist) option" where
  "run_exec K l h =
     (let path = c_str (m_exec_path (wl_meta l));
          args = [path, c_str (m_input (wl_meta l)), c_str (wl_job_dir l @ ''/output'')] in
      case sys_done K (Proc (Execve path args)) h of
        (None, h) \<Rightarrow> Some (Becomes path args, h)
      | (Some e, h) \<Rightarrow>
          do { h \<leftarrow> log_fd_line K (wl_log_fd l) (''execve '' @ m_exec_path (wl_meta l) @ '': '' @ errno_string K e) h;
               Some (exit_with K 127 h) })"

text \<open>\<^verbatim>\<open>log_vm_snapshot\<close>: lines of \<^verbatim>\<open>/proc/self\<close> for the job log.\<close>

definition log_lines :: "kernel \<Rightarrow> fd \<Rightarrow> string \<Rightarrow> string list \<Rightarrow> hist \<Rightarrow> hist option" where
  "log_lines K f tag ls h =
     for_each (\<lambda>l h. do { (_, h) \<leftarrow> write_line K f (tag @ '' '' @ l) h; Some h }) ls h"

definition vm_keys :: "string list" where
  "vm_keys = [''VmRSS:'', ''VmSize:'', ''VmPeak:'', ''voluntary_ctxt_switches:'',
     ''nonvoluntary_ctxt_switches:'']"

definition starts_with :: "string \<Rightarrow> string \<Rightarrow> bool" where
  "starts_with p s \<longleftrightarrow> take (length p) s = p"

text \<open>After seven words: the minor faults, a word, the major faults. A failed extraction leaves 0.\<close>

definition number_rest :: "string \<Rightarrow> string" where
  "number_rest s =
     (let s = dropWhile is_space s in
      dropWhile is_digit (if s \<noteq> [] \<and> (hd s = CHR ''-'' \<or> hd s = CHR ''+'') then tl s else s))"

definition fault_counts :: "string \<Rightarrow> u64 \<times> u64" where
  "fault_counts s =
     (case skip_words 7 s of
        None \<Rightarrow> (0, 0)
      | Some s \<Rightarrow>
          (case extract_u64 s of (ok, minflt) \<Rightarrow>
             (minflt,
              if \<not> ok then 0
              else case next_word (number_rest s) of
                None \<Rightarrow> 0
              | Some (_, s) \<Rightarrow> snd (extract_u64 s))))"

definition log_faults :: "kernel \<Rightarrow> fd \<Rightarrow> string \<Rightarrow> hist \<Rightarrow> hist option" where
  "log_faults K f tag h =
     do { (r, h) \<leftarrow> read_text_file K ''/proc/self/stat'' h;
          case r of
            Inl _ \<Rightarrow> Some h
          | Inr txt \<Rightarrow>
              (case after_last_paren txt of
                 None \<Rightarrow> Some h
               | Some s \<Rightarrow>
                   (case fault_counts s of (minflt, majflt) \<Rightarrow>
                      do { (_, h) \<leftarrow> write_line K f (tag @ '' minflt='' @ dec_u64 minflt @ '' majflt='' @ dec_u64 majflt) h;
                           Some h })) }"

definition log_vm_snapshot :: "kernel \<Rightarrow> fd \<Rightarrow> string \<Rightarrow> hist \<Rightarrow> hist option" where
  "log_vm_snapshot K f tag h =
     do { (_, h) \<leftarrow> write_line K f (''--- vm snapshot '' @ tag @ '' ---'') h;
          (r, h) \<leftarrow> read_text_file K ''/proc/self/io'' h;
          h \<leftarrow> (case r of
                  Inl _ \<Rightarrow> log_lines K f tag [''/proc/self/io unreadable''] h
                | Inr txt \<Rightarrow> log_lines K f tag (filter (\<lambda>l. l \<noteq> []) (getlines txt)) h);
          (r, h) \<leftarrow> read_text_file K ''/proc/self/status'' h;
          h \<leftarrow> (case r of
                  Inl _ \<Rightarrow> Some h
                | Inr txt \<Rightarrow>
                    log_lines K f tag (filter (\<lambda>l. list_ex (\<lambda>k. starts_with k l) vm_keys) (getlines txt)) h);
          log_faults K f tag h }"


section \<open>The operations\<close>

text \<open>Each operation gives the chunk it publishes, or the error of \<^verbatim>\<open>fail_chunk\<close>. An empty range is
  not read.\<close>

definition feed_launch ::
    "kernel \<Rightarrow> worker_launch \<Rightarrow> 'c sink \<Rightarrow> 'c \<Rightarrow> hist \<Rightarrow> ((string + 'c) \<times> hist) option" where
  "feed_launch K l sink ctx h =
     (if 0 < wl_length l
      then feed_range K (m_io (wl_meta l)) (m_input (wl_meta l)) (wl_offset l) (wl_length l) sink ctx
             (wl_log_fd l) h
      else Some (Inr ctx, h))"

definition work_hash ::
    "kernel \<Rightarrow> worker_launch \<Rightarrow> hist \<Rightarrow> ((string + chunk_result) \<times> hist) option" where
  "work_hash K l h =
     do { (r, h) \<leftarrow> feed_launch K l hash_sink sha_reset h;
          Some (case r of
                  Inl err \<Rightarrow> Inl err
                | Inr ctx \<Rightarrow> Inr ((launch_chunk l)\<lparr>cr_ok := 1, cr_hex := to_hex (sha_final ctx),
                                     cr_bytes := wl_length l\<rparr>), h) }"

definition work_count ::
    "kernel \<Rightarrow> worker_launch \<Rightarrow> hist \<Rightarrow> ((string + chunk_result) \<times> hist) option" where
  "work_count K l h =
     do { (r, h) \<leftarrow> feed_launch K l count_sink \<lparr>cc_bytes = 0, cc_sum = 0\<rparr> h;
          Some (case r of
                  Inl err \<Rightarrow> Inl err
                | Inr ctx \<Rightarrow>
                    if cc_bytes ctx \<noteq> wl_length l
                    then Inl (''count shortfall: got '' @ dec_u64 (cc_bytes ctx) @ '' expected ''
                              @ dec_u64 (wl_length l))
                    else Inr ((launch_chunk l)\<lparr>cr_ok := 1, cr_bytes := cc_bytes ctx, cr_aux := cc_sum ctx\<rparr>), h) }"

definition copy_into ::
    "kernel \<Rightarrow> worker_launch \<Rightarrow> fd \<Rightarrow> string \<Rightarrow> fd \<Rightarrow> hist \<Rightarrow> ((string + chunk_result) \<times> hist) option" where
  "copy_into K l dirfd tmp out h =
     do { (r, h) \<leftarrow> feed_launch K l (copy_sink K) \<lparr>cp_fd = out, cp_bytes = 0\<rparr> h;
          case r of
            Inl err \<Rightarrow> Some (Inl err, sys_do K (Fs (Unlinkat dirfd tmp)) h)
          | Inr ctx \<Rightarrow>
             (case publish_file K dirfd out tmp ''output'' h of
                (Inl err, h) \<Rightarrow> Some (Inl err, sys_do K (Fs (Unlinkat dirfd tmp)) h)
              | (Inr _, h) \<Rightarrow>
                  Some (Inr ((launch_chunk l)\<lparr>cr_ok := 1, cr_bytes := cp_bytes ctx\<rparr>), h)) }"

text \<open>The descriptors are closed when the block is left; a failed copy exits before that.\<close>

definition work_copy ::
    "kernel \<Rightarrow> worker_launch \<Rightarrow> hist \<Rightarrow> ((string + chunk_result) \<times> hist) option" where
  "work_copy K l h =
     (case sys_open K (wl_job_dir l) [O_RDONLY, O_DIRECTORY, O_CLOEXEC] h of
        (Inl e, h) \<Rightarrow> Some (Inl (''open job dir: '' @ errno_string K e), h)
      | (Inr dirfd, h) \<Rightarrow>
         (let (pid, h) = sys_value K (Env Getpid) h;
              tmp = ''output.tmp.'' @ dec_int pid in
          case sys_num K (Fs (Openat dirfd tmp [O_WRONLY, O_CREAT, O_EXCL, O_CLOEXEC])) h of
            (Inl e, h) \<Rightarrow> Some (Inl (''open output temp: '' @ errno_string K e), h)
          | (Inr out, h) \<Rightarrow>
              do { (r, h) \<leftarrow> copy_into K l dirfd tmp out h;
                   Some (r, case r of Inl _ \<Rightarrow> h | Inr _ \<Rightarrow> sys_close K dirfd (sys_close K out h)) }))"

definition work ::
    "kernel \<Rightarrow> worker_launch \<Rightarrow> hist \<Rightarrow> ((string + chunk_result) \<times> hist) option" where
  "work K l h =
     (let op = m_op (wl_meta l) in
      if op = ''sha256'' \<or> op = ''chunk-sha256'' then work_hash K l h
      else if op = ''count'' then work_count K l h
      else if op = ''copy'' then work_copy K l h
      else Some (Inl (''worker does not implement '' @ op), h))"

text \<open>After the gate.\<close>

definition run_chunk ::
    "kernel \<Rightarrow> fd \<Rightarrow> worker_launch \<Rightarrow> hist \<Rightarrow> (worker_end \<times> hist) option" where
  "run_chunk K shm l h =
     do { h \<leftarrow> log_fd_line K (wl_log_fd l) (''chunk '' @ dec_int (wl_chunk_index l) @ '' offset ''
            @ dec_u64 (wl_offset l) @ '' length '' @ dec_u64 (wl_length l) @ '' io '' @ m_io (wl_meta l)) h;
          h \<leftarrow> log_vm_snapshot K (wl_log_fd l) ''before'' h;
          (r, h) \<leftarrow> work K l h;
          case r of
            Inl err \<Rightarrow> fail_chunk K (Some shm) l err h
          | Inr chunk \<Rightarrow>
              do { h \<leftarrow> log_vm_snapshot K (wl_log_fd l) ''after'' h;
                   h \<leftarrow> log_fd_line K (wl_log_fd l) (''chunk '' @ dec_int (wl_chunk_index l)
                          @ '' done bytes '' @ dec_u64 (cr_bytes chunk)) h;
                   Some (exit_with K 0 (publish_chunk K shm chunk (wl_event_fd l) h)) } }"

definition gated_work :: "kernel \<Rightarrow> worker_launch \<Rightarrow> hist \<Rightarrow> (worker_end \<times> hist) option" where
  "gated_work K l h =
     (case wl_shm l of
        None \<Rightarrow>
          do { h \<leftarrow> log_fd_line K (wl_log_fd l) ''shared region missing or bad magic'' h;
               Some (exit_with K 2 h) }
      | Some shm \<Rightarrow>
         (case sys_region K (Shm (LoadRegion shm)) h of (region, h) \<Rightarrow>
            if sr_magic region \<noteq> kShmMagic then
              do { h \<leftarrow> log_fd_line K (wl_log_fd l) ''shared region missing or bad magic'' h;
                   Some (exit_with K 2 h) }
            else
              do { (g, h) \<leftarrow> wait_for_start_gate K shm (wl_log_fd l) h;
                   case g of
                     Inl err \<Rightarrow> fail_chunk K (Some shm) l err h
                   | Inr _ \<Rightarrow> run_chunk K shm l h }))"

text \<open>The limits or the hints could not be set.\<close>

definition setup_failed :: "kernel \<Rightarrow> worker_launch \<Rightarrow> string \<Rightarrow> hist \<Rightarrow> (worker_end \<times> hist) option" where
  "setup_failed K l err h =
     (if wl_shm l \<noteq> None
      then fail_chunk K (wl_shm l) l (if err = [] then ''limits/scheduler setup failed'' else err) h
      else do { h \<leftarrow> log_fd_line K (wl_log_fd l) err h; Some (exit_with K 1 h) })"

definition close_inherited :: "kernel \<Rightarrow> worker_launch \<Rightarrow> hist \<Rightarrow> hist" where
  "close_inherited K l h =
     foldl (\<lambda>h f. sys_close K f h) h
       (filter (\<lambda>f. 0 \<le> f \<and> f \<noteq> wl_log_fd l \<and> f \<noteq> wl_event_fd l) (wl_close_fds l))"

definition worker_entry :: "kernel \<Rightarrow> worker_launch \<Rightarrow> hist \<Rightarrow> (worker_end \<times> hist) option" where
  "worker_entry K l h =
     (let h = close_inherited K l h;
          h = sys_do K (Proc ResetSignals) h;
          h = sys_do K (Proc (SetPgid 0)) h;
          h = redirect_stdio K (wl_log_fd l) h in
      do { ((err, ok), h) \<leftarrow> apply_resource_limits K (wl_meta l) (wl_log_fd l) [] h;
           if \<not> ok then setup_failed K l err h
           else
             do { (s, h) \<leftarrow> apply_scheduler_hints K (wl_meta l) (wl_log_fd l) h;
                  case s of
                    Inl err \<Rightarrow> setup_failed K l err h
                  | Inr _ \<Rightarrow>
                      if m_op (wl_meta l) = ''exec'' then
                        do { h \<leftarrow> log_fd_line K (wl_log_fd l) (''exec '' @ m_exec_path (wl_meta l)) h;
                             run_exec K l h }
                      else gated_work K l h } })"

section \<open>The self test\<close>

definition ranges_contiguous :: "byte_range list \<Rightarrow> bool" where
  "ranges_contiguous rs =
     fst (foldl (\<lambda>(ok, prev) r. (ok \<and> br_offset r = prev, br_offset r + br_length r)) (True, 0) rs)"

definition self_test :: "string + unit" where
  "self_test =
     (let empty = hex_of []; abc = hex_of (text_bytes ''abc'');
          ranges = split_ranges 10 3 1; aligned = split_ranges 8202 4 4096 in
      if empty \<noteq> ''e3b0c44298fc1c149afbf4c8996fb92427ae41e4649b934ca495991b7852b855''
      then Inl (''sha256('' @ [CHR 0x22, CHR 0x22] @ '') mismatch: '' @ empty)
      else if abc \<noteq> ''ba7816bf8f01cfea414140de5dae2223b00361a396177a9cb410ff61f20015ad''
      then Inl (''sha256('' @ [CHR 0x22] @ ''abc'' @ [CHR 0x22] @ '') mismatch: '' @ abc)
      else if map br_length ranges \<noteq> [4, 3, 3] then Inl ''split_ranges byte split failed''
      else if \<not> ranges_contiguous aligned then Inl ''aligned split is not contiguous''
      else if sum_list (map br_length aligned) \<noteq> 8202 then Inl ''aligned split length mismatch''
      else Inr ())"

end
