(* ===== verification/Worker_Props.thy ===== *)
theory Worker_Props
  imports Worker
begin

text \<open>
  What a worker reads and publishes. A sink that only depends on the bytes it got, not on how they
  were cut, is a locale; on a kernel that serves the input file, the three ways to read a range feed
  such a sink exactly the bytes of the range. The hash and the count are its two instances.
\<close>

section \<open>The input file\<close>

definition part :: "nat \<Rightarrow> nat \<Rightarrow> 'a list \<Rightarrow> 'a list" where
  "part off n xs = take n (drop off xs)"

lemma part_split: "m \<le> n \<Longrightarrow> part off n xs = part off m xs @ part (off + m) (n - m) xs"
  using take_add [of m "n - m" "drop off xs"] by (simp add: part_def add.commute)

lemma part_0 [simp]: "part off 0 xs = []"
  by (simp add: part_def)

lemma length_part [simp]: "off + n \<le> length xs \<Longrightarrow> length (part off n xs) = n"
  by (simp add: part_def)

text \<open>What the code relies on: opening the input works, \<^verbatim>\<open>pread\<close> inside the file gives some of the
  bytes asked for or is interrupted, a mapping shows the file, and memory can be had.\<close>

definition serves_input :: "string \<Rightarrow> fd \<Rightarrow> bytes \<Rightarrow> kernel \<Rightarrow> bool" where
  "serves_input path f data K \<longleftrightarrow> length data < 2 ^ 64 \<and>
     (\<forall>h flags. k_num K h (Fs (Open (c_str path) flags)) = Inr f) \<and>
     (\<forall>h n pos. 0 < n \<longrightarrow> pos + n \<le> length data \<longrightarrow>
        k_buf K h (Fs (Pread f n pos)) = Inl EINTR \<or>
        (\<exists>m. 0 < m \<and> m \<le> n \<and> k_buf K h (Fs (Pread f n pos)) = Inr (part pos m data))) \<and>
     (\<forall>h len off. unat off + unat len \<le> length data \<longrightarrow>
        k_buf K h (Shm (MmapFile f len off)) = Inr (part (unat off) (unat len) data)) \<and>
     (\<forall>h n. k_done K h (Shm (AlignedAlloc n)) = None)"

lemma serves_open: "serves_input path f data K \<Longrightarrow> k_num K h (Fs (Open (c_str path) flags)) = Inr f"
  by (simp add: serves_input_def)

lemma serves_length: "serves_input path f data K \<Longrightarrow> length data < 2 ^ 64"
  by (simp add: serves_input_def)

lemma serves_mmap:
  "serves_input path f data K \<Longrightarrow> unat off + unat len \<le> length data \<Longrightarrow>
   k_buf K h (Shm (MmapFile f len off)) = Inr (part (unat off) (unat len) data)"
  by (simp add: serves_input_def)

lemma serves_alloc: "serves_input path f data K \<Longrightarrow> k_done K h (Shm (AlignedAlloc n)) = None"
  by (simp add: serves_input_def)

lemma serves_pread:
  assumes "serves_input path f data K" and "0 < n" and "pos + n \<le> length data"
  obtains "k_buf K h (Fs (Pread f n pos)) = Inl EINTR"
  | m where "0 < m" "m \<le> n" "k_buf K h (Fs (Pread f n pos)) = Inr (part pos m data)"
  using assms unfolding serves_input_def by blast

section \<open>Reading exactly what was asked for\<close>

lemma unat_advance:
  "n < 2 ^ 64 \<Longrightarrow> unat pos + n < 2 ^ 64 \<Longrightarrow> unat (pos + word_of_nat n :: u64) = unat pos + n"
  by (simp add: unat_u64_add unat_of_nat_u64)

lemma pread_full_reads:
  assumes patient: "patient b K" and input: "serves_input path f data K"
    and fits: "unat pos + want \<le> length data" "unat pos + want < 2 ^ 64" and got: "length got \<le> want"
  shows "\<exists>h'. pread_full K what eof f want pos got h =
     Some (Inr (got @ part (unat pos + length got) (want - length got) data), h')"
  using got
proof (induction "want - length got" arbitrary: got h rule: less_induct)
  case less
  note shorter = less
  let ?n = "want - length got"
  let ?c = "Fs (Pread f ?n (unat pos + length got))"
  have pos: "unat (pos + word_of_nat (length got)) = unat pos + length got"
    using fits(2) less.prems by (intro unat_advance) auto
  show ?case
  proof (cases "?n = 0")
    case True
    then show ?thesis using less.prems by (subst pread_full.simps) auto
  next
    case False
    show ?thesis
      using patient
    proof (induction h rule: patient_induct [where c = ?c])
      case (attempt h)
      have inside: "unat pos + length got + ?n \<le> length data" using fits(1) less.prems by simp
      show ?case
      proof (rule serves_pread [OF input _ inside, of h])
        show "0 < ?n" using False by simp
        assume intr: "k_buf K h ?c = Inl EINTR"
        from attempt [OF is_interrupt_simps(2) patient_buf [OF patient intr]] show ?thesis
          using False intr by (subst pread_full.simps) (simp add: sys_defs pos)
      next
        fix m assume m: "0 < m" "m \<le> ?n" "k_buf K h ?c = Inr (part (unat pos + length got) m data)"
        let ?b = "part (unat pos + length got) m data"
        have len: "length ?b = m" using m(2) inside by simp
        have "want - length (got @ ?b) < want - length got" "length (got @ ?b) \<le> want"
          using m(1,2) less.prems by (simp_all add: len)
        from shorter(1) [OF this, of "h @ [(?c, Buf (Inr ?b))]"] obtain h' where
          rest: "pread_full K what eof f want pos (got @ ?b) (h @ [(?c, Buf (Inr ?b))]) =
            Some (Inr ((got @ ?b) @ part (unat pos + length (got @ ?b)) (want - length (got @ ?b)) data), h')"
          by blast
        have "part (unat pos + length got) ?n data =
            ?b @ part (unat pos + length got + m) (?n - m) data"
          using m(2) by (rule part_split)
        then show ?thesis
          using False m len rest by (subst pread_full.simps) (auto simp: sys_defs pos add.assoc)
      qed
    qed
  qed
qed

lemma log_fd_line_returns: "patient b K \<Longrightarrow> \<exists>h'. log_fd_line K log_fd line h = Some h'"
  using write_all_returns [of b K log_fd "text_bytes (with_newline line)" h]
  by (auto simp: log_fd_line_def write_line_def returns_iff)

section \<open>Feeding a sink\<close>

locale absorbing =
  fixes wf :: "'c \<Rightarrow> bool" and absorb :: "'c \<Rightarrow> bytes \<Rightarrow> 'c"
  assumes keeps_wf: "wf c \<Longrightarrow> wf (absorb c xs)"
    and absorbs_append: "wf c \<Longrightarrow> absorb (absorb c xs) ys = absorb c (xs @ ys)"
    and absorbs_nothing: "wf c \<Longrightarrow> absorb c [] = c"
begin

lemma read_loop_feeds:
  assumes patient: "patient b K" and input: "serves_input path f data K"
    and fits: "unat pos + unat left \<le> length data" and wf: "wf c"
  shows "\<exists>h'. read_loop K (\<lambda>c xs h. Some (Inr (absorb c xs), h)) f left pos c h =
     Some (Inr (absorb c (part (unat pos) (unat left) data)), h')"
  using fits wf
proof (induction "unat left" arbitrary: left pos c h rule: less_induct)
  case less
  note shorter = less
  let ?n = "min feed_block (unat left)"
  let ?c = "Fs (Pread f ?n (unat pos))"
  show ?case
  proof (cases "left = 0")
    case True
    then show ?thesis using less.prems by (subst read_loop.simps) (simp add: absorbs_nothing)
  next
    case False
    then have pos: "0 < unat left" by (simp add: unat_gt_0)
    show ?thesis
      using patient
    proof (induction h rule: patient_induct [where c = ?c])
      case (attempt h)
      have n: "0 < ?n" "unat pos + ?n \<le> length data" "?n \<le> unat left"
        using pos less.prems(1) by (simp_all add: feed_block_def)
      show ?case
      proof (rule serves_pread [OF input n(1,2), of h])
        assume intr: "k_buf K h ?c = Inl EINTR"
        from attempt [OF is_interrupt_simps(2) patient_buf [OF patient intr]] show ?thesis
          using False intr by (subst read_loop.simps) (simp add: sys_defs)
      next
        fix m assume m: "0 < m" "m \<le> ?n" "k_buf K h ?c = Inr (part (unat pos) m data)"
        let ?b = "part (unat pos) m data"
        have len: "length ?b = m" by (rule length_part) (use m(2) n(2) in linarith)
        have big: "unat pos + m < 2 ^ 64" "m < 2 ^ 64"
          using serves_length [OF input] m(2) n(2) by linarith+
        have left: "unat (left - word_of_nat m) = unat left - m"
          using m(2) n(3) big(2) by (subst unat_u64_sub) (simp_all add: word_le_nat_alt unat_of_nat_u64)
        have at: "unat (pos + word_of_nat m) = unat pos + m" by (rule unat_advance [OF big(2,1)])
        have "unat (left - word_of_nat m) < unat left"
          "unat (pos + word_of_nat m) + unat (left - word_of_nat m) \<le> length data"
          using m(1,2) n(3) less.prems(1) pos by (simp_all add: left at)
        from shorter(1) [OF this keeps_wf [OF less.prems(2)], of ?b "h @ [(?c, Buf (Inr ?b))]"]
        obtain h' where rest: "read_loop K (\<lambda>c xs h. Some (Inr (absorb c xs), h)) f (left - word_of_nat m)
            (pos + word_of_nat m) (absorb c ?b) (h @ [(?c, Buf (Inr ?b))]) =
          Some (Inr (absorb (absorb c ?b) (part (unat pos + m) (unat left - m) data)), h')"
          by (auto simp: left at)
        have "part (unat pos) (unat left) data = ?b @ part (unat pos + m) (unat left - m) data"
          using m(2) n(3) by (intro part_split) simp
        moreover have "?b \<noteq> []" using len m(1) by auto
        ultimately show ?thesis
          using False m(3) len rest less.prems(2)
          by (subst read_loop.simps) (auto simp: sys_defs absorbs_append)
      qed
    qed
  qed
qed

lemma direct_loop_feeds:
  assumes patient: "patient b K" and input: "serves_input path f data K"
    and fits: "unat off + unat aligned \<le> length data" and got: "got \<le> aligned" and wf: "wf c"
  shows "\<exists>h'. direct_loop K (\<lambda>c xs h. Some (Inr (absorb c xs), h)) f off aligned got c h =
     Some (Inr (absorb c (part (unat off + unat got) (unat aligned - unat got) data)), h')"
  using got wf
proof (induction "unat aligned - unat got" arbitrary: got c h rule: less_induct)
  case less
  note shorter = less
  have small: "unat off + unat aligned < 2 ^ 64" using serves_length [OF input] fits by linarith
  have got: "unat got \<le> unat aligned" using less.prems(1) by (simp add: word_le_nat_alt)
  show ?case
  proof (cases "aligned \<le> got")
    case True
    then have "unat aligned - unat got = 0" by (simp add: word_le_nat_alt)
    then show ?thesis using True less.prems by (subst direct_loop.simps) (simp add: absorbs_nothing)
  next
    case False
    let ?n = "min feed_block (unat (aligned - got))"
    have diff: "unat (aligned - got) = unat aligned - unat got"
      using less.prems(1) by (rule unat_u64_sub)
    have n: "0 < ?n" "?n \<le> unat aligned - unat got"
      using False by (simp_all add: feed_block_def diff word_le_nat_alt)
    have start: "unat (off + got) = unat off + unat got"
      using small got by (intro unat_u64_add) linarith
    have next_got: "unat (got + word_of_nat ?n) = unat got + ?n"
      using small got n(2) by (intro unat_advance) linarith+
    have "unat (off + got) + ?n \<le> length data" "unat (off + got) + ?n < 2 ^ 64"
      unfolding start using fits small got n(2) by linarith+
    from pread_full_reads [OF patient input this, of "[]" "''pread O_DIRECT: ''"
        "''unexpected EOF during O_DIRECT read''" h]
    obtain h1 where read: "pread_full K ''pread O_DIRECT: '' ''unexpected EOF during O_DIRECT read'' f
        ?n (off + got) [] h = Some (Inr (part (unat off + unat got) ?n data), h1)"
      by (auto simp: start)
    let ?b = "part (unat off + unat got) ?n data"
    have "unat aligned - unat (got + word_of_nat ?n) < unat aligned - unat got"
      "got + word_of_nat ?n \<le> aligned"
      unfolding next_got word_le_nat_alt using n got by linarith+
    from shorter(1) [OF this keeps_wf [OF less.prems(2)], of ?b h1]
    obtain h2 where rest: "direct_loop K (\<lambda>c xs h. Some (Inr (absorb c xs), h)) f off aligned
        (got + word_of_nat ?n) (absorb c ?b) h1 =
      Some (Inr (absorb (absorb c ?b) (part (unat off + unat got + ?n) (unat aligned - unat got - ?n) data)), h2)"
      by (auto simp only: next_got add.assoc diff_diff_left)
    have "part (unat off + unat got) (unat aligned - unat got) data =
        ?b @ part (unat off + unat got + ?n) (unat aligned - unat got - ?n) data"
      using n(2) by (rule part_split)
    then show ?thesis
      using False read rest less.prems(2)
      by (subst direct_loop.simps) (simp add: absorbs_append)
  qed
qed

text \<open>All three paths.\<close>

lemma feed_read_feeds:
  assumes patient: "patient b K" and input: "serves_input path f data K"
    and fits: "unat off + unat len \<le> length data" and wf: "wf c"
  shows "\<exists>h'. feed_read K (\<lambda>c xs h. Some (Inr (absorb c xs), h)) path off len c h =
     Some (Inr (absorb c (part (unat off) (unat len) data)), h')"
  using read_loop_feeds [OF patient input fits wf]
  by (simp add: feed_read_def sys_open_def sys_num_def serves_open [OF input] bind_Some_conv)

lemma page_start_le: "page_start page off \<le> off"
  by (simp add: page_start_def word_and_le2 and.commute)

lemma feed_mmap_feeds:
  assumes input: "serves_input path f data K"
    and fits: "unat off + unat len \<le> length data"
  shows "\<exists>h'. feed_mmap K (\<lambda>c xs h. Some (Inr (absorb c xs), h)) path off len c h =
     Some (Inr (absorb c (part (unat off) (unat len) data)), h')"
proof -
  obtain page h1 where page: "sys_value K (Env PageSize) (sys_do K (Shm Advise)
      (h @ [(Fs (Open (c_str path) [O_RDONLY, O_CLOEXEC]), Num (Inr f))])) = (page, h1)" by fastforce
  let ?p = "page_start page off"
  have le: "unat ?p \<le> unat off" using page_start_le by (simp add: word_le_nat_alt)
  have pre: "unat (off - ?p) = unat off - unat ?p" by (rule unat_u64_sub [OF page_start_le])
  have len: "unat (off - ?p + len) = unat off - unat ?p + unat len"
    using serves_length [OF input] fits le unfolding pre [symmetric] by (intro unat_u64_add) (simp add: pre)
  have view: "k_buf K h1 (Shm (MmapFile f (off - ?p + len) ?p)) = Inr (part (unat ?p) (unat (off - ?p + len)) data)"
    by (rule serves_mmap [OF input]) (use fits le len in linarith)
  have all: "length (part (unat ?p) (unat (off - ?p + len)) data) = unat (off - ?p + len)"
    by (rule length_part) (use fits le len in linarith)
  have cut: "take (unat len) (drop (unat (off - ?p)) (part (unat ?p) (unat (off - ?p + len)) data)) =
      part (unat off) (unat len) data"
    using le by (simp add: part_def drop_take len pre)
  show ?thesis
    unfolding feed_mmap_def Let_def
    by (simp add: sys_open_def sys_num_def serves_open [OF input] page sys_buf_def view all cut)
qed

lemma feed_tail_feeds:
  assumes patient: "patient b K" and input: "serves_input path f data K"
    and fits: "unat off + unat len \<le> length data" and aligned: "aligned \<le> len" and wf: "wf c"
  shows "\<exists>h'. feed_tail K (\<lambda>c xs h. Some (Inr (absorb c xs), h)) f off aligned len log_fd c h =
     Some (Inr (absorb c (part (unat off + unat aligned) (unat len - unat aligned) data)), h')"
proof (cases "len \<le> aligned")
  case True
  then have "len = aligned" using aligned by simp
  then show ?thesis using wf by (simp add: feed_tail_def absorbs_nothing)
next
  case False
  have le: "unat aligned \<le> unat len" using aligned by (simp add: word_le_nat_alt)
  have start: "unat (off + aligned) = unat off + unat aligned"
    using serves_length [OF input] fits le by (intro unat_u64_add) linarith
  have diff: "unat (len - aligned) = unat len - unat aligned" by (rule unat_u64_sub [OF aligned])
  have "unat (off + aligned) + unat (len - aligned) \<le> length data"
    "unat (off + aligned) + unat (len - aligned) < 2 ^ 64"
    unfolding start diff using serves_length [OF input] fits le by linarith+
  note read = pread_full_reads [OF patient input this, of "[]"]
  obtain h1 where log: "log_fd_line K log_fd (''tail '' @ dec_u64 (len - aligned) @
      '' bytes read via the page cache (O_DIRECT length must be a multiple of 4096)'') h = Some h1"
    using log_fd_line_returns [OF patient] by blast
  obtain h2 where "pread_full K ''pread tail: '' ''unexpected EOF in tail'' f (unat (len - aligned))
      (off + aligned) [] h1 = Some (Inr (part (unat off + unat aligned) (unat len - unat aligned) data), h2)"
    using read [of "''pread tail: ''" "''unexpected EOF in tail''" h1] by (auto simp: start diff)
  with log False show ?thesis by (simp add: feed_tail_def)
qed

lemma feed_open_feeds:
  assumes patient: "patient b K" and input: "serves_input path f data K"
    and fits: "unat off + unat len \<le> length data" and wf: "wf c"
  shows "\<exists>h'. feed_open K (\<lambda>c xs h. Some (Inr (absorb c xs), h)) f f off len log_fd c h =
     Some (Inr (absorb c (part (unat off) (unat len) data)), h')"
proof -
  let ?sink = "\<lambda>c xs h. Some (Inr (absorb c xs), h)"
  let ?a = "len - len mod kDirectAlign"
  have "len mod kDirectAlign \<le> len" by (simp add: word_le_nat_alt unat_mod)
  then have le: "?a \<le> len" by (simp add: word_le_nat_alt unat_u64_sub)
  obtain h1 where log: "(if ?a = 0
      then log_fd_line K log_fd ''range shorter than 4096; O_DIRECT skipped for this slice'' h
      else Some h) = Some h1"
    using log_fd_line_returns [OF patient] by (cases "?a = 0") (simp_all, blast)
  obtain h2 where alloc: "(if 0 < ?a then sys_done K (Shm (AlignedAlloc feed_block)) h1 else (None, h1)) = (None, h2)"
    by (cases "0 < ?a") (simp_all add: sys_done_def serves_alloc [OF input])
  have fits2: "unat off + unat ?a \<le> length data"
    using fits le by (simp add: word_le_nat_alt)
  obtain h3 where dir: "direct_loop K ?sink f off ?a 0 c h2 =
      Some (Inr (absorb c (part (unat off) (unat ?a) data)), h3)"
    using direct_loop_feeds [OF patient input fits2 _ wf, of 0 h2] by auto
  obtain h4 where tail: "feed_tail K ?sink f off ?a len log_fd (absorb c (part (unat off) (unat ?a) data)) h3 =
      Some (Inr (absorb (absorb c (part (unat off) (unat ?a) data))
        (part (unat off + unat ?a) (unat len - unat ?a) data)), h4)"
    using feed_tail_feeds [OF patient input fits le keeps_wf [OF wf]] by blast
  have "part (unat off) (unat len) data =
      part (unat off) (unat ?a) data @ part (unat off + unat ?a) (unat len - unat ?a) data"
    using le by (intro part_split) (simp add: word_le_nat_alt)
  then show ?thesis
    unfolding feed_open_def Let_def log alloc bind.bind_lunit prod.case
    using dir tail wf by (simp add: absorbs_append)
qed

lemma feed_range_feeds:
  assumes patient: "patient b K" and input: "serves_input path f data K"
    and fits: "unat off + unat len \<le> length data" and wf: "wf c"
    and aligned: "mode = ''direct'' \<Longrightarrow> off mod kDirectAlign = 0"
  shows "\<exists>h'. feed_range K mode path off len (\<lambda>c xs h. Some (Inr (absorb c xs), h)) c log_fd h =
     Some (Inr (absorb c (part (unat off) (unat len) data)), h')"
proof -
  have log: "\<exists>h'. log_fd_line K log_fd ''io range empty'' h = Some h'"
    by (rule log_fd_line_returns [OF patient])
  have open_feeds: "\<exists>h'. feed_open K (\<lambda>c xs h. Some (Inr (absorb c xs), h)) f f off len log_fd c h1 =
     Some (Inr (absorb c (part (unat off) (unat len) data)), h')" for h1
    by (rule feed_open_feeds [OF patient input fits wf])
  have "\<exists>h'. feed_direct K (\<lambda>c xs h. Some (Inr (absorb c xs), h)) path off len log_fd c h =
     Some (Inr (absorb c (part (unat off) (unat len) data)), h')" if "mode = ''direct''"
    using aligned [OF that] open_feeds
    by (simp add: feed_direct_def open_readonly_def sys_open_def sys_num_def serves_open [OF input]
        bind_Some_conv)
  then show ?thesis
    using log feed_mmap_feeds [OF input fits, of c h] feed_read_feeds [OF patient input fits wf, of h] wf
    by (auto simp: feed_range_def absorbs_nothing part_def)
qed

end

section \<open>The range of a launch\<close>

text \<open>What a launch asks for can be done: the kernel serves the input, the range lies in the file, and
  it is aligned if it is read with \<^verbatim>\<open>O_DIRECT\<close>.\<close>

definition can_work :: "nat \<Rightarrow> fd \<Rightarrow> bytes \<Rightarrow> kernel \<Rightarrow> worker_launch \<Rightarrow> bool" where
  "can_work b f data K l \<longleftrightarrow> patient b K \<and> serves_input (m_input (wl_meta l)) f data K \<and>
     unat (wl_offset l) + unat (wl_length l) \<le> length data \<and>
     (m_io (wl_meta l) = ''direct'' \<longrightarrow> wl_offset l mod kDirectAlign = 0)"

lemma can_work_patient: "can_work b f data K l \<Longrightarrow> patient b K"
  by (simp add: can_work_def)

definition launch_bytes :: "worker_launch \<Rightarrow> bytes \<Rightarrow> bytes" where
  "launch_bytes l data = part (unat (wl_offset l)) (unat (wl_length l)) data"

context absorbing
begin

lemma feed_launch_feeds:
  assumes "can_work b f data K l" and wf: "wf c"
  shows "\<exists>h'. feed_launch K l (\<lambda>c xs h. Some (Inr (absorb c xs), h)) c h =
     Some (Inr (absorb c (launch_bytes l data)), h')"
proof (cases "wl_length l = 0")
  case True
  then show ?thesis using wf by (simp add: feed_launch_def launch_bytes_def absorbs_nothing)
next
  case False
  then have "0 < wl_length l" by (simp add: word_gt_0)
  with feed_range_feeds [of b K "m_input (wl_meta l)" f data "wl_offset l" "wl_length l" c
      "m_io (wl_meta l)" "wl_log_fd l" h] assms
  show ?thesis by (simp add: feed_launch_def can_work_def launch_bytes_def)
qed

end

section \<open>The sinks of the code\<close>

interpretation hashing: absorbing sha_wf sha_update
  by unfold_locales (simp_all add: sha_update_append sha_update_Nil)

interpretation counting: absorbing "\<lambda>_. True" count_bytes
  by unfold_locales (simp_all add: count_bytes_def)

lemma sinks: "hash_sink = (\<lambda>c xs h. Some (Inr (sha_update c xs), h))"
  "count_sink = (\<lambda>c xs h. Some (Inr (count_bytes c xs), h))"
  by (simp_all add: fun_eq_iff hash_sink_def count_sink_def)

definition byte_sum :: "bytes \<Rightarrow> u64" where
  "byte_sum xs = sum_list (map ucast xs)"

lemma foldl_byte_sum: "foldl (\<lambda>s x. s + ucast x) v xs = v + byte_sum xs"
  by (induction xs arbitrary: v) (simp_all add: byte_sum_def add.assoc)

lemma work_hash_result:
  assumes "can_work b f data K l"
  shows "\<exists>h'. work_hash K l h = Some (Inr ((launch_chunk l)\<lparr>cr_ok := 1, cr_bytes := wl_length l,
     cr_hex := hex_of (launch_bytes l data)\<rparr>), h')"
proof -
  have "\<exists>h'. feed_launch K l hash_sink sha_reset h =
      Some (Inr (sha_update sha_reset (launch_bytes l data)), h')"
    unfolding sinks by (rule hashing.feed_launch_feeds [OF assms]) simp
  then show ?thesis by (auto simp: work_hash_def hex_of_def)
qed

lemma work_count_result:
  assumes "can_work b f data K l"
  shows "\<exists>h'. work_count K l h = Some (Inr ((launch_chunk l)\<lparr>cr_ok := 1, cr_bytes := wl_length l,
     cr_aux := byte_sum (launch_bytes l data)\<rparr>), h')"
proof -
  let ?ctx = "count_bytes \<lparr>cc_bytes = 0, cc_sum = 0\<rparr> (launch_bytes l data)"
  have "\<exists>h'. feed_launch K l count_sink \<lparr>cc_bytes = 0, cc_sum = 0\<rparr> h = Some (Inr ?ctx, h')"
    unfolding sinks by (rule counting.feed_launch_feeds [OF assms]) simp
  moreover have "cc_bytes ?ctx = wl_length l" "cc_sum ?ctx = byte_sum (launch_bytes l data)"
    using assms by (simp_all add: count_bytes_def can_work_def launch_bytes_def foldl_byte_sum)
  ultimately show ?thesis by (auto simp: work_count_def)
qed

section \<open>Properties\<close>



text \<open>A kernel with one input file, whatever its name is.\<close>

definition file_kernel :: "bytes \<Rightarrow> kernel" where
  "file_kernel data = \<lparr>k_done = (\<lambda>_ _. None), k_num = (\<lambda>_ _. Inr 3), k_count = (\<lambda>_ _. Inl EIO),
     k_buf = (\<lambda>_ c. case c of Fs (Pread _ n pos) \<Rightarrow> Inr (part pos n data)
                    | Shm (MmapFile _ len off) \<Rightarrow> Inr (part (unat off) (unat len) data) | _ \<Rightarrow> Inr []),
     k_str = (\<lambda>_ _. Inl EIO), k_names = (\<lambda>_ _. Inl EIO), k_stat = (\<lambda>_ _. Inl EIO),
     k_child = (\<lambda>_ _. Inl ECHILD), k_events = (\<lambda>_ _. Inr []),
     k_region = (\<lambda>_ _. zero_region\<lparr>sr_start_gate := 1, sr_magic := kShmMagic\<rparr>), k_strerror = (\<lambda>_. []),
     k_errno = (\<lambda>_. 5)\<rparr>"

lemma file_kernel_patient: "patient 0 (file_kernel data)"
  by (simp add: patient_def file_kernel_def split: call.split fs_call.split shm_call.split)

lemma file_kernel_serves: "length data < 2 ^ 64 \<Longrightarrow> serves_input path 3 data (file_kernel data)"
  by (auto simp: serves_input_def file_kernel_def)

definition sample_launch :: "string \<Rightarrow> string \<Rightarrow> worker_launch" where
  "sample_launch op mode = \<lparr>wl_meta = empty_meta\<lparr>m_op := op, m_io := mode, m_input := ''/in''\<rparr>,
     wl_job_dir = ''/w/jobs/1'', wl_shm = Some 9, wl_event_fd = -1, wl_log_fd = -1, wl_chunk_index = 0,
     wl_offset = 0, wl_length = 3, wl_close_fds = []\<rparr>"

lemma sample_can_work: "can_work 0 3 [97, 98, 99] (file_kernel [97, 98, 99]) (sample_launch op mode)"
  using file_kernel_patient file_kernel_serves [of "[97, 98, 99]" "''/in''"]
  by (simp add: can_work_def sample_launch_def)



text \<open>What the work returns is marked good and carries the place of the launch.\<close>

definition chunk_for :: "worker_launch \<Rightarrow> chunk_result \<Rightarrow> bool" where
  "chunk_for l chunk \<longleftrightarrow> cr_index chunk = word_of_int (wl_chunk_index l) \<and> cr_offset chunk = wl_offset l \<and>
     cr_length chunk = wl_length l"

lemma launch_chunk_ok: "cr_ok (launch_chunk l) = 0"
  by (simp add: launch_chunk_def empty_chunk_def)

lemma chunk_for_launch [simp]: "chunk_for l (launch_chunk l)"
  by (simp add: chunk_for_def launch_chunk_def)

lemma chunk_for_frame [simp]:
  "chunk_for l (c\<lparr>cr_ok := n\<rparr>) = chunk_for l c" "chunk_for l (c\<lparr>cr_bytes := u\<rparr>) = chunk_for l c"
  "chunk_for l (c\<lparr>cr_aux := u\<rparr>) = chunk_for l c" "chunk_for l (c\<lparr>cr_hex := s\<rparr>) = chunk_for l c"
  "chunk_for l (c\<lparr>cr_error := s\<rparr>) = chunk_for l c"
  by (simp_all add: chunk_for_def)

lemma work_good:
  "yields (\<lambda>(r, _). \<forall>chunk. r = Inr chunk \<longrightarrow> cr_ok chunk = 1 \<and> chunk_for l chunk) (work K l h)"
proof -
  have feed: "yields Q (feed_launch K l sink ctx h1)" if "\<And>r h'. Q (r, h')"
    for Q sink h1
    using that by (auto simp: yields_def)
  have copy: "yields (\<lambda>(r, _). \<forall>chunk. r = Inr chunk \<longrightarrow> cr_ok chunk = 1 \<and> chunk_for l chunk)
      (copy_into K l d tmp out h1)" for d tmp out h1
    unfolding copy_into_def by (auto intro!: yields_bind feed split: prod.split sum.split)
  show ?thesis
    unfolding work_def Let_def work_hash_def work_count_def work_copy_def
    by (auto intro!: yields_bind feed yields_mono [OF copy] split: prod.split sum.split)
qed

definition published_end :: "kernel \<Rightarrow> fd \<Rightarrow> worker_launch \<Rightarrow> worker_end \<times> hist \<Rightarrow> bool" where
  "published_end K shm l r \<longleftrightarrow>
     (\<exists>code chunk h1. r = exit_with K code (publish_chunk K shm chunk (wl_event_fd l) h1) \<and>
        chunk_for l chunk \<and> (code = 0 \<and> cr_ok chunk = 1 \<or> code = 1 \<and> cr_ok chunk = 0))"

lemma published_endI:
  "chunk_for l chunk \<Longrightarrow> cr_ok chunk = 1 \<Longrightarrow>
     published_end K shm l (exit_with K 0 (publish_chunk K shm chunk (wl_event_fd l) h))"
  "chunk_for l chunk \<Longrightarrow> cr_ok chunk = 0 \<Longrightarrow>
     published_end K shm l (exit_with K 1 (publish_chunk K shm chunk (wl_event_fd l) h))"
  unfolding published_end_def by blast+

lemma run_chunk_ends:
  assumes "0 \<le> wl_chunk_index l" and "wl_chunk_index l < kMaxWorkers"
  shows "yields (published_end K shm l) (run_chunk K shm l h)"
proof -
  have fail: "yields (published_end K shm l) (fail_chunk K (Some shm) l err h1)" for err h1
    unfolding fail_chunk_def
    by (rule yields_bind, rule yields_all) (simp add: assms published_endI launch_chunk_ok)
  have good: "yields (published_end K shm l) (Option.bind (log_vm_snapshot K f ''after'' h1)
      (\<lambda>h. Option.bind (log_fd_line K f line h)
        (\<lambda>h. Some (exit_with K 0 (publish_chunk K shm chunk (wl_event_fd l) h)))))"
    if "cr_ok chunk = 1 \<and> chunk_for l chunk" for f line chunk h1
    by (rule yields_bind, rule yields_all, rule yields_bind, rule yields_all) (simp add: that published_endI)
  show ?thesis
    unfolding run_chunk_def
    by (rule yields_bind, rule yields_all, rule yields_bind, rule yields_all, rule yields_bind,
        rule yields_mono [OF work_good]) (auto simp: fail good split: sum.split)
qed


lemma write_line_returns: "patient b K \<Longrightarrow> returns (write_line K f line h)"
  using write_all_returns [of b K f "text_bytes (with_newline line)" h] by (simp add: write_line_def)

lemma log_lines_returns: "patient b K \<Longrightarrow> returns (log_lines K f tag ls h)"
  unfolding log_lines_def by (intro returns_for_each) (auto intro: write_line_returns)

lemma log_vm_snapshot_returns: "patient b K \<Longrightarrow> returns (log_vm_snapshot K f tag h)"
  unfolding log_vm_snapshot_def log_faults_def
  by (auto intro!: write_line_returns read_text_file_returns log_lines_returns
      split: prod.split sum.split option.split)

lemma run_chunk_good:
  assumes patient: "patient b K" and work: "\<And>h. \<exists>h'. work K l h = Some (Inr chunk, h')"
  shows "\<exists>h1. run_chunk K shm l h = Some (exit_with K 0 (publish_chunk K shm chunk (wl_event_fd l) h1))"
proof -
  have log: "\<exists>h'. log_fd_line K f line h1 = Some h'" for f line h1
    by (rule log_fd_line_returns [OF patient])
  have vm: "\<exists>h'. log_vm_snapshot K f tag h1 = Some h'" for f tag h1
    using log_vm_snapshot_returns [OF patient, of f tag h1] by (simp add: returns_iff)
  let ?first = "''chunk '' @ dec_int (wl_chunk_index l) @ '' offset '' @ dec_u64 (wl_offset l)
    @ '' length '' @ dec_u64 (wl_length l) @ '' io '' @ m_io (wl_meta l)"
  let ?last = "''chunk '' @ dec_int (wl_chunk_index l) @ '' done bytes '' @ dec_u64 (cr_bytes chunk)"
  obtain h1 where 1: "log_fd_line K (wl_log_fd l) ?first h = Some h1" using log by blast
  obtain h2 where 2: "log_vm_snapshot K (wl_log_fd l) ''before'' h1 = Some h2" using vm by blast
  obtain h3 where 3: "work K l h2 = Some (Inr chunk, h3)" using work by blast
  obtain h4 where 4: "log_vm_snapshot K (wl_log_fd l) ''after'' h3 = Some h4" using vm by blast
  obtain h5 where 5: "log_fd_line K (wl_log_fd l) ?last h4 = Some h5" using log by blast
  show ?thesis unfolding run_chunk_def 1 2 3 4 5 bind.bind_lunit prod.case sum.case by blast
qed


text \<open>C25. The start gate: a worker goes on only after it has itself loaded 1 from the gate word, however
  the futex calls were answered.\<close>

theorem gate_passed_only_open:
  assumes "wait_for_start_gate K shm log_fd h = Some (Inr (), h')"
  shows "\<exists>h1. sr_start_gate (k_region K h1 (Shm (LoadRegion shm))) = 1 \<and>
     h' = h1 @ [(Shm (LoadRegion shm), Loaded (k_region K h1 (Shm (LoadRegion shm))))]"
proof -
  have "fst r = Inr () \<longrightarrow> (\<exists>h1. sr_start_gate (k_region K h1 (Shm (LoadRegion shm))) = 1 \<and>
     snd r = h1 @ [(Shm (LoadRegion shm), Loaded (k_region K h1 (Shm (LoadRegion shm))))])"
    if "wait_for_start_gate K shm log_fd h = Some r" for r
    using that
  proof (induction rule: wait_for_start_gate.raw_induct [rotated, consumes 1, case_names step])
    case (step loop K shm log_fd h r)
    then show ?case
      by (auto simp: sys_defs Let_def bind_Some_conv split: if_splits option.splits)
  qed
  from this [OF assms] show ?thesis by simp
qed

lemma sample_fields:
  "wl_event_fd (sample_launch op mode) = -1" "wl_chunk_index (sample_launch op mode) = 0"
  by (simp_all add: sample_launch_def)

lemma sample_runs: "\<exists>r. run_chunk (file_kernel [97, 98, 99]) 9 (sample_launch ''count'' mode) [] = Some r"
proof -
  let ?K = "file_kernel [97, 98, 99]" and ?l = "sample_launch ''count'' mode"
  obtain chunk where "\<exists>h'. work_count ?K ?l h = Some (Inr chunk, h')" for h
    using work_count_result [OF sample_can_work] by blast
  moreover have "work ?K ?l = work_count ?K ?l"
    by (simp add: fun_eq_iff work_def sample_launch_def)
  ultimately have "\<exists>h1. run_chunk ?K 9 ?l [] = Some (exit_with ?K 0 (publish_chunk ?K 9 chunk (wl_event_fd ?l) h1))"
    by (intro run_chunk_good [OF file_kernel_patient]) simp
  then show ?thesis by blast
qed



theorem gate_passed_only_open_witness:
  "\<exists>h'. wait_for_start_gate (file_kernel []) 9 (-1) [] = Some (Inr (), h') \<and>
     (\<exists>h1. sr_start_gate (k_region (file_kernel []) h1 (Shm (LoadRegion 9))) = 1)"
proof -
  have "wait_for_start_gate (file_kernel []) 9 (-1) [] =
      Some (Inr (), [(Shm (LoadRegion 9), Loaded (zero_region\<lparr>sr_start_gate := 1, sr_magic := kShmMagic\<rparr>))])"
    by (subst wait_for_start_gate.simps) (simp add: file_kernel_def sys_defs)
  from gate_passed_only_open [OF this] this show ?thesis by blast
qed

end
