(* ===== verification/Start_Gate.thy ===== *)
theory Start_Gate
  imports Worker
begin

text \<open>
  The start gate as a protocol between the controller and its workers: the steps of
  \<^verbatim>\<open>wait_for_start_gate\<close> and \<^verbatim>\<open>open_start_gate\<close> (\<^verbatim>\<open>worker.cpp\<close>), interleaved in any order, on one
  shared word. What the kernel does with the sleepers is a parameter: the set of sleepers \<^verbatim>\<open>futex_wake\<close>
  wakes. A locale states what the protocol needs of it; Linux gives it, macOS does not.
\<close>

section \<open>The steps of the code\<close>

datatype gate_pc = Loading | Waiting | Asleep | Passed | Failed

text \<open>The load of the gate word, and what the worker does with the answer of the wait. \<open>None\<close> is a
  return value 0.\<close>

definition gate_load :: "u32 \<Rightarrow> gate_pc" where
  "gate_load word = (if word = 1 then Passed else Waiting)"

definition gate_reply :: "errno option \<Rightarrow> gate_pc" where
  "gate_reply r = (case r of None \<Rightarrow> Loading | Some e \<Rightarrow> if e = EAGAIN \<or> e = EINTR then Loading else Failed)"

lemma wait_loop_steps:
  "wait_for_start_gate K shm log_fd h =
     (case sys_region K (Shm (LoadRegion shm)) h of
        (r, h1) \<Rightarrow>
          if gate_load (sr_start_gate r) = Passed then Some (Inr (), h1)
          else case sys_done K (Shm (FutexWait shm)) h1 of
            (reply, h2) \<Rightarrow>
              if gate_reply reply = Loading then wait_for_start_gate K shm log_fd h2
              else let err = (if reply = Some ETIMEDOUT then ''start gate was not opened within 30s''
                              else ''futex wait: '' @ errno_string K (the reply)) in
                   Option.bind (log_fd_line K log_fd err h2) (\<lambda>h3. Some (Inl err, h3)))"
  by (subst wait_for_start_gate.simps)
    (auto simp: gate_load_def gate_reply_def split: prod.split option.split)

section \<open>The protocol\<close>

datatype opener = Closed | Stored | Opened

record gate_state =
  gs_word :: u32
  gs_opener :: opener
  gs_pc :: "nat \<Rightarrow> gate_pc"

definition gate_start :: gate_state where
  "gate_start = \<lparr>gs_word = 0, gs_opener = Closed, gs_pc = (\<lambda>_. Loading)\<rparr>"

definition sleepers :: "gate_state \<Rightarrow> nat set" where
  "sleepers s = {w. gs_pc s w = Asleep}"

definition move :: "nat \<Rightarrow> gate_pc \<Rightarrow> gate_state \<Rightarrow> gate_state" where
  "move w pc s = s\<lparr>gs_pc := (gs_pc s)(w := pc)\<rparr>"

text \<open>The kernel compares the word with 0 before it lets a worker sleep; a sleeping worker can come back
  without a reason, be interrupted, or time out; the parent stores 1 and then wakes.\<close>

inductive gate_step :: "(nat set \<Rightarrow> nat set \<Rightarrow> bool) \<Rightarrow> gate_state \<Rightarrow> gate_state \<Rightarrow> bool"
  for wakes where
  load: "gs_pc s w = Loading \<Longrightarrow> gate_step wakes s (move w (gate_load (gs_word s)) s)"
| sleep: "gs_pc s w = Waiting \<Longrightarrow> gs_word s = 0 \<Longrightarrow> gate_step wakes s (move w Asleep s)"
| changed: "gs_pc s w = Waiting \<Longrightarrow> gs_word s \<noteq> 0 \<Longrightarrow> gate_step wakes s (move w (gate_reply (Some EAGAIN)) s)"
| interrupted: "gs_pc s w = Asleep \<Longrightarrow> r = None \<or> r = Some EINTR \<Longrightarrow> gate_step wakes s (move w (gate_reply r) s)"
| expired: "gs_pc s w = Asleep \<Longrightarrow> gate_step wakes s (move w (gate_reply (Some ETIMEDOUT)) s)"
| store: "gs_opener s = Closed \<Longrightarrow> gate_step wakes s (s\<lparr>gs_word := 1, gs_opener := Stored\<rparr>)"
| wake: "gs_opener s = Stored \<Longrightarrow> wakes (sleepers s) W \<Longrightarrow>
    gate_step wakes s (s\<lparr>gs_opener := Opened, gs_pc := (\<lambda>w. if w \<in> W then gate_reply None else gs_pc s w)\<rparr>)"

inductive_cases gate_stepE: "gate_step wakes s t"

abbreviation gate_steps :: "(nat set \<Rightarrow> nat set \<Rightarrow> bool) \<Rightarrow> gate_state \<Rightarrow> gate_state \<Rightarrow> bool" where
  "gate_steps wakes \<equiv> (gate_step wakes)\<^sup>*\<^sup>*"

lemma gate_reply_simps [simp]:
  "gate_reply None = Loading" "gate_reply (Some EAGAIN) = Loading" "gate_reply (Some EINTR) = Loading"
  "gate_reply (Some ETIMEDOUT) = Failed"
  by (simp_all add: gate_reply_def)

lemma move_simps [simp]:
  "gs_word (move w pc s) = gs_word s" "gs_opener (move w pc s) = gs_opener s"
  "gs_pc (move w pc s) v = (if v = w then pc else gs_pc s v)"
  by (simp_all add: move_def)

section \<open>What the protocol needs of the wake\<close>

text \<open>The word is 1 from the store on, and no worker sleeps behind the open gate.\<close>

definition gate_ok :: "gate_state \<Rightarrow> bool" where
  "gate_ok s \<longleftrightarrow> (gs_word s = 1 \<longleftrightarrow> gs_opener s \<noteq> Closed) \<and> (gs_word s = 0 \<or> gs_word s = 1) \<and>
     (gs_opener s = Opened \<longrightarrow> sleepers s = {})"

lemma gate_start_ok: "gate_ok gate_start"
  by (simp add: gate_ok_def gate_start_def)

locale broadcast_wake =
  fixes wakes :: "nat set \<Rightarrow> nat set \<Rightarrow> bool"
  assumes wakes_all: "wakes S W \<Longrightarrow> S \<subseteq> W"
begin

lemma step_ok: "gate_step wakes s t \<Longrightarrow> gate_ok s \<Longrightarrow> gate_ok t"
  by (erule gate_stepE)
    (auto simp: gate_ok_def sleepers_def gate_load_def split: if_splits dest!: wakes_all)

lemma steps_ok: "gate_steps wakes s t \<Longrightarrow> gate_ok s \<Longrightarrow> gate_ok t"
  by (induction rule: rtranclp_induct) (auto intro: step_ok)

lemma open_step: "gate_step wakes s t \<Longrightarrow> gate_ok s \<Longrightarrow> gs_opener s = Opened \<Longrightarrow>
   gs_opener t = Opened \<and> (gs_pc t w = Failed \<longrightarrow> gs_pc s w = Failed)"
  by (erule gate_stepE) (auto simp: gate_ok_def sleepers_def gate_load_def split: if_splits)

lemma open_steps:
  assumes "gate_steps wakes s t" and "gate_ok s" and "gs_opener s = Opened"
  shows "gs_opener t = Opened \<and> (gs_pc t w = Failed \<longrightarrow> gs_pc s w = Failed)"
  using assms
proof (induction rule: rtranclp_induct)
  case (step t u)
  then have "gate_ok t" using steps_ok by blast
  with step open_step [of t u w] show ?case by auto
qed simp

end

text \<open>\<^verbatim>\<open>futex_wake(&gate, INT_MAX)\<close> on Linux wakes every sleeper, and only sleepers.\<close>

definition linux_wakes :: "nat set \<Rightarrow> nat set \<Rightarrow> bool" where
  "linux_wakes S W \<longleftrightarrow> W = S"

text \<open>\<^verbatim>\<open>os_sync_wake_by_address_any\<close> on macOS wakes one of them.\<close>

definition mac_wakes :: "nat set \<Rightarrow> nat set \<Rightarrow> bool" where
  "mac_wakes S W \<longleftrightarrow> (if S = {} then W = {} else (\<exists>w \<in> S. W = {w}))"

interpretation linux_gate: broadcast_wake linux_wakes
  by unfold_locales (simp add: linux_wakes_def)

section \<open>Properties\<close>

text \<open>C26. On Linux no wake-up is lost, however the workers and the controller interleave: once the gate has
  been opened no worker sleeps, so none can time out any more, and every worker that has not failed
  before finds the word 1.\<close>

theorem open_gate_wakes_all:
  assumes "gate_steps linux_wakes gate_start s" and "gs_opener s = Opened" and "gate_steps linux_wakes s t"
  shows "gs_pc t w \<noteq> Asleep \<and> gs_word t = 1 \<and> (gs_pc t w = Failed \<longrightarrow> gs_pc s w = Failed)"
proof -
  have ok: "gate_ok s" "gate_ok t"
    using linux_gate.steps_ok assms(1,3) gate_start_ok by blast+
  from linux_gate.open_steps [OF assms(3) ok(1) assms(2)] ok(2) show ?thesis
    by (auto simp: gate_ok_def sleepers_def)
qed

text \<open>Worker \<open>w\<close> goes to sleep before the gate is opened.\<close>

lemma sleep_steps:
  assumes "gs_pc s w = Loading" and "gs_word s = 0"
  shows "gate_steps wakes s (move w Asleep s)"
proof -
  have "gate_step wakes s (move w Waiting s)"
    using gate_step.load [of s w wakes] assms by (simp add: gate_load_def)
  moreover have "gate_step wakes (move w Waiting s) (move w Asleep (move w Waiting s))"
    by (rule gate_step.sleep) (simp_all add: assms(2))
  moreover have "move w Asleep (move w Waiting s) = move w Asleep s" by (simp add: move_def)
  ultimately show ?thesis by (metis converse_rtranclp_into_rtranclp r_into_rtranclp)
qed

definition two_asleep :: gate_state where
  "two_asleep = move 1 Asleep (move 0 Asleep gate_start)"

lemma two_asleep_reachable: "gate_steps wakes gate_start two_asleep"
proof -
  have "gate_steps wakes gate_start (move 0 Asleep gate_start)"
    by (rule sleep_steps) (simp_all add: gate_start_def)
  also have "gate_steps wakes (move 0 Asleep gate_start) two_asleep"
    unfolding two_asleep_def by (rule sleep_steps) (simp_all add: gate_start_def)
  finally show ?thesis .
qed

definition opened_for :: "nat set \<Rightarrow> gate_state" where
  "opened_for W = two_asleep\<lparr>gs_word := 1, gs_opener := Opened,
     gs_pc := (\<lambda>w. if w \<in> W then Loading else gs_pc two_asleep w)\<rparr>"

lemma sleepers_two: "sleepers two_asleep = {0, 1}"
  by (auto simp: sleepers_def two_asleep_def gate_start_def)

lemma opened_for_reachable:
  assumes "wakes {0, 1} W"
  shows "gate_steps wakes gate_start (opened_for W)"
proof -
  let ?s = "two_asleep\<lparr>gs_word := 1, gs_opener := Stored\<rparr>"
  have "gate_step wakes two_asleep ?s"
    by (rule gate_step.store) (simp add: two_asleep_def gate_start_def)
  moreover have "sleepers ?s = {0, 1}" using sleepers_two by (simp add: sleepers_def)
  then have "gate_step wakes ?s (opened_for W)"
    using gate_step.wake [of ?s wakes W] assms by (simp add: opened_for_def cong: if_cong)
  ultimately show ?thesis
    using two_asleep_reachable by (meson rtranclp.rtrancl_into_rtrancl)
qed

theorem open_gate_wakes_all_witness:
  "gs_opener (opened_for {0, 1}) = Opened \<and> gs_pc (opened_for {0, 1}) 1 \<noteq> Asleep"
proof -
  have "gate_steps linux_wakes gate_start (opened_for {0, 1})"
    by (rule opened_for_reachable) (simp add: linux_wakes_def)
  moreover have "gs_opener (opened_for {0, 1}) = Opened" by (simp add: opened_for_def)
  ultimately show ?thesis
    using open_gate_wakes_all [OF _ _ rtranclp.rtrancl_refl, of "opened_for {0, 1}" 1] by blast
qed

text \<open>C39. On macOS the same protocol loses workers: \<^verbatim>\<open>futex_wake\<close> ignores how many it should wake and wakes one,
  so of two workers that slept one stays asleep behind the open gate, and fails after its 30 seconds
  with the message that the gate was not opened, because it does not look at the word again.\<close>

theorem mac_gate_leaves_sleepers:
  "\<exists>s t. gate_steps mac_wakes gate_start s \<and> gs_opener s = Opened \<and> gs_word s = 1 \<and> gs_pc s 1 = Asleep \<and>
     gate_step mac_wakes s t \<and> gs_pc t 1 = Failed"
proof -
  let ?s = "opened_for {0}"
  have "gate_steps mac_wakes gate_start ?s"
    by (rule opened_for_reachable) (simp add: mac_wakes_def)
  moreover have asleep: "gs_pc ?s 1 = Asleep" by (simp add: opened_for_def two_asleep_def)
  moreover have "gate_step mac_wakes ?s (move 1 (gate_reply (Some ETIMEDOUT)) ?s)"
    by (rule gate_step.expired [OF asleep])
  moreover have "gs_opener ?s = Opened" "gs_word ?s = 1" by (simp_all add: opened_for_def)
  ultimately show ?thesis by (metis gate_reply_simps(4) move_simps(3))
qed

end
