(* ===== verification/Results.thy ===== *)
theory Results
  imports Worker_Props "HOL-Library.Multiset"
begin

text \<open>
  From the workers to the verdict: what the workers of a job publish, in whatever order they get to it,
  is what the controller judges, and the judgement is the SHA-256 of the file, of its slices, or its size.
  The theory joins the split (\<^verbatim>\<open>forge.hpp\<close>), the workers (\<^verbatim>\<open>worker.cpp\<close>), the shared region and
  \<^verbatim>\<open>results_ok\<close> (\<^verbatim>\<open>controller.cpp\<close>).
\<close>

section \<open>Publishing in some order\<close>

fun publish_all :: "shared_region \<Rightarrow> chunk_result list \<Rightarrow> shared_region option" where
  "publish_all r [] = Some r"
| "publish_all r (ch # chs) = Option.bind (region_publish r ch) (\<lambda>r. publish_all r chs)"

definition slot_index :: "chunk_result \<Rightarrow> nat" where
  "slot_index ch = unat (cr_index ch)"

text \<open>Every chunk ends in its own slot, the other slots keep what they had, and the count is the number of
  chunks.\<close>

lemma publish_all_slots:
  assumes "distinct (map slot_index chs)" and "\<forall>ch \<in> set chs. slot_index ch < length (sr_chunks r)"
  shows "\<exists>r'. publish_all r chs = Some r' \<and> length (sr_chunks r') = length (sr_chunks r) \<and>
     sr_nchunks r' = sr_nchunks r \<and> sr_chunks_done r' = sr_chunks_done r + word_of_nat (length chs) \<and>
     (\<forall>ch \<in> set chs. sr_chunks r' ! slot_index ch = ch) \<and>
     (\<forall>i. i \<notin> slot_index ` set chs \<longrightarrow> sr_chunks r' ! i = sr_chunks r ! i)"
  using assms
proof (induction chs arbitrary: r)
  case (Cons ch chs)
  let ?r = "r\<lparr>sr_chunks := (sr_chunks r)[slot_index ch := ch], sr_chunks_done := sr_chunks_done r + 1\<rparr>"
  have pub: "region_publish r ch = Some ?r"
    using Cons.prems(2) by (simp add: region_publish_def slot_index_def)
  obtain r' where r': "publish_all ?r chs = Some r'" "length (sr_chunks r') = length (sr_chunks r)"
    "sr_nchunks r' = sr_nchunks r" "sr_chunks_done r' = sr_chunks_done r + 1 + word_of_nat (length chs)"
    "\<forall>ch \<in> set chs. sr_chunks r' ! slot_index ch = ch"
    "\<forall>i. i \<notin> slot_index ` set chs \<longrightarrow> sr_chunks r' ! i = sr_chunks ?r ! i"
    using Cons.IH [of ?r] Cons.prems by auto
  have "sr_chunks r' ! slot_index ch = ch"
    using r'(6) Cons.prems by simp
  with r' Cons.prems show ?case
    by (intro exI [of _ r']) (auto simp: pub)
qed simp

section \<open>The workers of a job\<close>

text \<open>The result of a worker that could read its range.\<close>

definition chunk_of :: "bytes \<Rightarrow> worker_launch \<Rightarrow> chunk_result" where
  "chunk_of data l =
     (if m_op (wl_meta l) = ''count''
      then (launch_chunk l)\<lparr>cr_ok := 1, cr_bytes := wl_length l, cr_aux := byte_sum (launch_bytes l data)\<rparr>
      else (launch_chunk l)\<lparr>cr_ok := 1, cr_bytes := wl_length l, cr_hex := hex_of (launch_bytes l data)\<rparr>)"

definition parallel_op :: "meta \<Rightarrow> bool" where
  "parallel_op m \<longleftrightarrow> m_op m \<in> {''sha256'', ''chunk-sha256'', ''count''}"

lemma work_gives_chunk:
  assumes "can_work b f data K l" and "parallel_op (wl_meta l)"
  shows "\<exists>h'. work K l h = Some (Inr (chunk_of data l), h')"
  using assms(2) work_hash_result [OF assms(1)] work_count_result [OF assms(1)]
  by (auto simp: parallel_op_def work_def chunk_of_def)

lemma chunk_of_fields:
  "cr_index (chunk_of data l) = word_of_int (wl_chunk_index l)" "cr_ok (chunk_of data l) = 1"
  "cr_bytes (chunk_of data l) = wl_length l" "cr_offset (chunk_of data l) = wl_offset l"
  "cr_length (chunk_of data l) = wl_length l"
  "m_op (wl_meta l) \<noteq> ''count'' \<Longrightarrow> cr_hex (chunk_of data l) = hex_of (launch_bytes l data)"
  by (simp_all add: chunk_of_def launch_chunk_def)

text \<open>The region the controller prepares, and what it should judge in the end.\<close>

definition fresh_region :: "nat \<Rightarrow> shared_region" where
  "fresh_region n = zero_region\<lparr>sr_magic := kShmMagic, sr_nchunks := word_of_nat n\<rparr>"

definition slice_line :: "bytes \<Rightarrow> byte_range list \<Rightarrow> nat \<Rightarrow> string" where
  "slice_line data rs i = dec_nat i @ '' '' @ dec_u64 (br_offset (rs ! i)) @ '' '' @ dec_u64 (br_length (rs ! i))
     @ '' '' @ hex_of (slice data (range_view (rs ! i))) @ [NL]"

definition expected_body :: "meta \<Rightarrow> bytes \<Rightarrow> string" where
  "expected_body m data =
     (if m_op m = ''sha256'' then hex_of data @ [NL]
      else if m_op m = ''count'' then dec_u64 (m_bytes m) @ [NL]
      else ''bytes '' @ dec_u64 (m_bytes m) @ [NL] @ ''chunks '' @ dec_nat (length (job_ranges m)) @ [NL]
           @ ''note each line is the sha256 of that slice, not of the whole file'' @ [NL]
           @ concat (map (slice_line data (job_ranges m)) [0..<length (job_ranges m)]))"

section \<open>Judging\<close>

lemma sum_chunks_ok:
  "\<forall>ch \<in> set chs. cr_ok ch \<noteq> 0 \<Longrightarrow> sum_chunks chs acc = Inr (acc + sum_list (map cr_bytes chs))"
  by (induction chs arbitrary: acc) (simp_all add: add.assoc)

lemma map_upt_0: "map f [0..<Suc n] = f 0 # map (\<lambda>j. f (Suc j)) [0..<n]"
  by (simp add: upt_conv_Cons map_Suc_upt [symmetric] o_def del: upt_Suc)

lemma digest_lines_ok:
  "\<forall>ch \<in> set chs. cr_ok ch \<noteq> 0 \<Longrightarrow>
   digest_lines i chs acc out = Inr (acc + sum_list (map cr_bytes chs),
     out @ concat (map (\<lambda>j. dec_nat (i + j) @ '' '' @ dec_u64 (cr_offset (chs ! j)) @ '' ''
       @ dec_u64 (cr_length (chs ! j)) @ '' '' @ cr_hex (chs ! j) @ [NL]) [0..<length chs]))"
proof (induction chs arbitrary: i acc out)
  case (Cons ch chs)
  from Cons show ?case unfolding length_Cons map_upt_0 by (simp add: add.assoc)
qed simp

lemma sum_ranges:
  assumes "i32_range (m_workers m)" and "m_op m \<noteq> ''exec''"
  shows "sum_list (map br_length (job_ranges m)) = m_bytes m"
proof -
  let ?rs = "job_ranges m"
  have "contiguous 0 (map range_view ?rs) (unat (m_bytes m))"
    using split_ranges_contiguous_view [OF assms(1)] assms(2) by (simp add: job_ranges_def)
  from contiguous_sum [OF this] have "sum_list (map (\<lambda>r. unat (br_length r)) ?rs) = unat (m_bytes m)"
    by (simp add: range_view_def o_def)
  moreover have words: "sum_list (map br_length rs) = word_of_nat (sum_list (map (\<lambda>r. unat (br_length r)) rs))" for rs
    by (induction rs) simp_all
  ultimately have "sum_list (map br_length ?rs) = word_of_nat (unat (m_bytes m))"
    unfolding words [of ?rs] by simp
  then show ?thesis by simp
qed

lemma validated_ranges:
  assumes "validate_meta m = Inr ()" and "m_op m \<noteq> ''exec''"
  shows "i32_range (m_workers m)" "1 \<le> length (job_ranges m)" "length (job_ranges m) \<le> 16"
    "m_op m = ''sha256'' \<Longrightarrow> length (job_ranges m) = 1"
proof -
  have w: "1 \<le> m_workers m" "m_workers m \<le> 16" "m_op m = ''sha256'' \<Longrightarrow> m_workers m = 1"
    using assms(1) by (auto simp: validate_meta_def kMaxWorkers_def split: if_splits)
  then show i32: "i32_range (m_workers m)" by (simp add: i32_range_def)
  have "length (job_ranges m) = 1 \<or> length (job_ranges m) = nat (m_workers m)"
    using split_ranges_length [OF i32] assms(2) by (simp add: job_ranges_def)
  then show "1 \<le> length (job_ranges m)" "length (job_ranges m) \<le> 16"
    "m_op m = ''sha256'' \<Longrightarrow> length (job_ranges m) = 1"
    using w by auto
qed

text \<open>A region that holds the results of all workers.\<close>

definition holds_results :: "meta \<Rightarrow> bytes \<Rightarrow> shared_region \<Rightarrow> bool" where
  "holds_results m data r \<longleftrightarrow>
     (let rs = job_ranges m in
      used_chunks r = take (length rs) (sr_chunks r) \<and> length rs \<le> length (sr_chunks r) \<and>
      unat (sr_nchunks r) = length rs \<and>
      (\<forall>i < length rs. let ch = sr_chunks r ! i in
         cr_ok ch = 1 \<and> cr_offset ch = br_offset (rs ! i) \<and> cr_length ch = br_length (rs ! i) \<and>
         cr_bytes ch = br_length (rs ! i) \<and>
         (m_op m \<noteq> ''count'' \<longrightarrow> cr_hex ch = hex_of (slice data (range_view (rs ! i))))))"

lemma hex_of_nonempty: "hex_of data \<noteq> []"
proof -
  have "length (sha_final s) = 32" for s by (simp add: sha_final_def Let_def)
  then have "sha_final s \<noteq> []" for s by (metis list.size(3) zero_neq_numeral)
  then show ?thesis by (cases "sha_final (sha_update sha_reset data)") (simp_all add: hex_of_def to_hex_def)
qed

lemma judge_results:
  assumes valid: "validate_meta m = Inr ()" and op: "parallel_op m"
    and data: "length data = unat (m_bytes m)" and holds: "holds_results m data r"
  shows "judge_region m r = Inr (expected_body m data)"
proof -
  let ?rs = "job_ranges m" and ?chs = "used_chunks r"
  have not_exec: "m_op m \<noteq> ''exec''" using op by (auto simp: parallel_op_def)
  note ranges = validated_ranges [OF valid not_exec]
  have len: "length ?chs = length ?rs" and nchunks: "unat (sr_nchunks r) = length ?rs"
    using holds by (auto simp: holds_results_def Let_def)
  have at: "?chs ! i = sr_chunks r ! i" if "i < length ?rs" for i
    using holds that by (auto simp: holds_results_def Let_def)
  have slot: "cr_ok (?chs ! i) = 1" "cr_offset (?chs ! i) = br_offset (?rs ! i)"
    "cr_length (?chs ! i) = br_length (?rs ! i)" "cr_bytes (?chs ! i) = br_length (?rs ! i)"
    "m_op m \<noteq> ''count'' \<Longrightarrow> cr_hex (?chs ! i) = hex_of (slice data (range_view (?rs ! i)))"
    if "i < length ?rs" for i
    using holds that at [OF that] by (auto simp: holds_results_def Let_def)
  have ok: "\<forall>ch \<in> set ?chs. cr_ok ch \<noteq> 0" using slot(1) len by (auto simp: in_set_conv_nth)
  have "map cr_bytes ?chs = map br_length ?rs"
    using slot(4) len by (intro nth_equalityI) auto
  then have sum: "sum_list (map cr_bytes ?chs) = m_bytes m"
    using sum_ranges [OF ranges(1) not_exec] by simp
  consider "m_op m = ''sha256''" | "m_op m = ''chunk-sha256''" | "m_op m = ''count''"
    using op by (auto simp: parallel_op_def)
  then show ?thesis
  proof cases
    case 1
    then obtain x where rs: "?rs = [x]" using ranges(4) by (auto simp: length_Suc_conv)
    have "contiguous 0 (map range_view ?rs) (length data)"
      using split_ranges_contiguous_view [OF ranges(1)] data not_exec by (simp add: job_ranges_def)
    from contiguous_slices [OF this] have "slice data (range_view x) = data" by (simp add: rs)
    then have "cr_ok (sr_chunks r ! 0) = 1" "cr_hex (sr_chunks r ! 0) = hex_of data"
      using slot [of 0] at [of 0] 1 by (simp_all add: rs)
    then show ?thesis using 1 hex_of_nonempty by (simp add: judge_region_def expected_body_def)
  next
    case 2
    have "map (\<lambda>j. dec_nat (0 + j) @ '' '' @ dec_u64 (cr_offset (?chs ! j)) @ '' ''
          @ dec_u64 (cr_length (?chs ! j)) @ '' '' @ cr_hex (?chs ! j) @ [NL]) [0..<length ?chs] =
        map (slice_line data ?rs) [0..<length ?rs]"
      using slot 2 unfolding len by (intro map_cong) (simp_all add: slice_line_def)
    from digest_lines_ok [OF ok, of 0, unfolded this]
    have lines: "digest_lines 0 ?chs 0 out =
        Inr (m_bytes m, out @ concat (map (slice_line data ?rs) [0..<length ?rs]))" for out
      by (simp only: sum add_0)
    have other: "m_op m \<noteq> ''sha256''" using 2 by simp
    show ?thesis
      unfolding judge_region_def Let_def lines sum.case prod.case expected_body_def nchunks if_not_P [OF other]
      using 2 by simp
  next
    case 3
    then show ?thesis using sum_chunks_ok [OF ok] sum by (simp add: judge_region_def expected_body_def)
  qed
qed

text \<open>Publishing the results of all workers, in any order.\<close>

lemma unat_of_nat_small: "n < 2 ^ 32 \<Longrightarrow> unat (word_of_nat n :: u32) = n"
  by (simp add: unat_of_nat take_bit_nat_eq_self)

lemma published_holds:
  assumes "length (job_ranges m) \<le> 16" and "mset order = mset [0..<length (job_ranges m)]"
    and chunk: "\<And>i. i \<in> set order \<Longrightarrow> chunk i = chunk_of data (launch i)"
    and launch: "\<And>i. i \<in> set order \<Longrightarrow> wl_meta (launch i) = m \<and> wl_chunk_index (launch i) = int i \<and>
      wl_offset (launch i) = br_offset (job_ranges m ! i) \<and> wl_length (launch i) = br_length (job_ranges m ! i)"
  shows "\<exists>r. publish_all (fresh_region (length (job_ranges m))) (map chunk order) = Some r \<and>
     sr_chunks_done r = sr_nchunks r \<and> holds_results m data r"
proof -
  let ?n = "length (job_ranges m)" and ?r0 = "fresh_region (length (job_ranges m))"
  have set: "set order = {..<?n}" unfolding mset_eq_setD [OF assms(2)] by auto
  have dist: "distinct order" unfolding mset_eq_imp_distinct_iff [OF assms(2)] by simp
  have len: "length order = ?n" unfolding mset_eq_length [OF assms(2)] by simp
  have index: "slot_index (chunk i) = i" if "i < ?n" for i
  proof -
    have "i \<in> set order" using that set by simp
    from chunk [OF this] launch [OF this] have "cr_index (chunk i) = word_of_nat i"
      by (simp add: chunk_of_fields)
    moreover have "unat (word_of_nat i :: u32) = i"
      using that assms(1) by (intro unat_of_nat_small) simp
    ultimately show ?thesis by (simp add: slot_index_def)
  qed
  have "map slot_index (map chunk order) = order"
    using index set by (intro nth_equalityI) (auto simp: set_conv_nth)
  then have distinct: "distinct (map slot_index (map chunk order))" using dist by simp
  have room: "length (sr_chunks ?r0) = 16"
    by (simp add: fresh_region_def zero_region_def kMaxWorkers_def)
  have "\<forall>ch \<in> set (map chunk order). slot_index ch < length (sr_chunks ?r0)"
    unfolding room using index set assms(1) by auto
  from publish_all_slots [OF distinct this] obtain r where
    pub: "publish_all ?r0 (map chunk order) = Some r" and rl: "length (sr_chunks r) = 16"
    and n: "sr_nchunks r = word_of_nat ?n" and dn: "sr_chunks_done r = word_of_nat ?n"
    and slots: "\<forall>ch \<in> chunk ` {..<?n}. sr_chunks r ! slot_index ch = ch"
    unfolding room length_map len by (auto simp: fresh_region_def zero_region_def set)
  have "unat (sr_nchunks r) = ?n"
    unfolding n using assms(1) by (intro unat_of_nat_small) simp
  moreover have "sr_chunks r ! i = chunk_of data (launch i)" if "i < ?n" for i
    using slots index [OF that] chunk [of i] that set by force
  ultimately have "holds_results m data r"
    using launch assms(1) set
    by (auto simp: holds_results_def used_chunks_def rl Let_def chunk_of_fields launch_bytes_def
        Worker_Props.part_def slice_def range_view_def)
  with pub n dn show ?thesis by auto
qed

section \<open>Properties\<close>


text \<open>Two workers on five bytes; the second one is first.\<close>

definition pair_job :: live_job where
  "pair_job = new_job (sample_meta\<lparr>m_op := ''chunk-sha256'', m_io := ''read'', m_workers := 2, m_bytes := 5\<rparr>)"

definition pair_data :: bytes where
  "pair_data = [97, 98, 99, 100, 101]"

lemma pair_ranges: "job_ranges (lj_meta pair_job) = [\<lparr>br_offset = 0, br_length = 3\<rparr>, \<lparr>br_offset = 3, br_length = 2\<rparr>]"
  unfolding pair_job_def by code_simp

lemma pair_fields:
  "m_io (lj_meta pair_job) = ''read''" "length (job_ranges (lj_meta pair_job)) = 2" "length pair_data = 5"
  unfolding pair_ranges by (simp_all add: pair_job_def new_job_def pair_data_def)

lemma pair_can_work:
  assumes "i < 2"
  shows "can_work 0 3 pair_data (file_kernel pair_data)
    (child_launch c pair_job dir shared note log_fd (job_ranges (lj_meta pair_job)) i)"
proof -
  have "i = 0 \<or> i = 1" using assms by auto
  then have "unat (br_offset (job_ranges (lj_meta pair_job) ! i)) + unat (br_length (job_ranges (lj_meta pair_job) ! i)) \<le> 5"
    unfolding pair_ranges by auto
  then show ?thesis
    using file_kernel_patient file_kernel_serves [of pair_data]
    by (simp add: can_work_def child_launch_def pair_fields)
qed


text \<open>When a job may be called completed: every process exited with 0, and unless it is \<^verbatim>\<open>exec\<close> the region
  held the result the operation needs.\<close>

definition good_region :: "meta \<Rightarrow> shared_region \<Rightarrow> bool" where
  "good_region m r \<longleftrightarrow> sr_nchunks r \<le> sr_chunks_done r \<and>
     (m_op m \<in> {''sha256'', ''copy''} \<longrightarrow> cr_ok (sr_chunks r ! 0) \<noteq> 0) \<and>
     (m_op m = ''sha256'' \<longrightarrow> cr_hex (sr_chunks r ! 0) \<noteq> []) \<and>
     (m_op m \<in> {''chunk-sha256'', ''count''} \<longrightarrow> (\<forall>ch \<in> set (used_chunks r). cr_ok ch \<noteq> 0) \<and>
        sum_list (map cr_bytes (used_chunks r)) = m_bytes m)"

lemma sum_chunks_Inr:
  "sum_chunks chs acc = Inr n \<Longrightarrow> (\<forall>ch \<in> set chs. cr_ok ch \<noteq> 0) \<and> n = acc + sum_list (map cr_bytes chs)"
proof (induction chs arbitrary: acc)
  case (Cons ch chs)
  then have "cr_ok ch \<noteq> 0" "sum_chunks chs (acc + cr_bytes ch) = Inr n" by (auto split: if_splits)
  with Cons.IH [OF this(2)] show ?case by (simp add: add.assoc)
qed simp

lemma digest_lines_Inr:
  "digest_lines i chs acc out = Inr (n, txt) \<Longrightarrow>
     (\<forall>ch \<in> set chs. cr_ok ch \<noteq> 0) \<and> n = acc + sum_list (map cr_bytes chs)"
proof (induction chs arbitrary: i acc out)
  case (Cons ch chs)
  then have ok: "cr_ok ch \<noteq> 0" by (auto split: if_splits)
  with Cons.prems obtain out' where "digest_lines (Suc i) chs (acc + cr_bytes ch) out' = Inr (n, txt)" by auto
  from Cons.IH [OF this] ok show ?case by (simp add: add.assoc)
qed simp

lemma judge_region_good:
  assumes "judge_region m r = Inr body" and "sr_nchunks r \<le> sr_chunks_done r"
  shows "good_region m r"
  using assms
  by (auto simp: judge_region_def good_region_def Let_def dest!: sum_chunks_Inr digest_lines_Inr
      split: if_splits sum.splits)

lemma no_bad_exit: "bad_exit job = None \<Longrightarrow> \<forall>pr \<in> set (lj_procs job). pr_how pr = ''exited:0''"
  by (simp add: bad_exit_def find_None_iff)

lemma verdict_completed: "fst (verdict res job) = ''completed'' \<longleftrightarrow> (\<exists>body. res = Inr body)"
  by (simp add: verdict_def failure_state_def split: sum.split)


definition done_region :: shared_region where
  "done_region = \<lparr>sr_magic = kShmMagic, sr_nchunks = 1, sr_start_gate = 1, sr_chunks_done = 1,
     sr_chunks = [empty_chunk\<lparr>cr_ok := 1, cr_length := 5, cr_bytes := 5\<rparr>]\<rparr>"

definition done_job :: live_job where
  "done_job = (new_job (sample_meta\<lparr>m_workers := 1, m_bytes := 5\<rparr>))\<lparr>lj_shm := True,
     lj_procs := [empty_proc\<lparr>pr_how := ''exited:0''\<rparr>]\<rparr>"

definition done_kernel :: kernel where
  "done_kernel = (file_kernel [])\<lparr>k_region := (\<lambda>_ _. done_region)\<rparr>"


end
