(* ===== verification/Devices.thy ===== *)
theory Devices
  imports Worker
begin

text \<open>
  \<^verbatim>\<open>forge device list\<close> and \<^verbatim>\<open>forge storage stats\<close> on Linux: \<^verbatim>\<open>print_devices\<close> and
  \<^verbatim>\<open>print_storage\<close> of \<^verbatim>\<open>os/linux/platform.cpp\<close>. They only read what the kernel publishes and print
  it. The properties say which mount \<^verbatim>\<open>print_storage\<close> reports.
\<close>

definition print_out :: "kernel \<Rightarrow> string \<Rightarrow> hist \<Rightarrow> hist" where
  "print_out K s h = sys_do K (Env (PrintOut s)) h"

section \<open>Block devices\<close>

definition slurp :: "kernel \<Rightarrow> string \<Rightarrow> hist \<Rightarrow> (string \<times> hist) option" where
  "slurp K path h =
     do { (r, h) \<leftarrow> read_text_file K path h;
          Some (case r of Inl _ \<Rightarrow> ''?'' | Inr txt \<Rightarrow> strip_back (\<lambda>c. c = NL \<or> c = CHR '' '') txt, h) }"

definition print_device :: "kernel \<Rightarrow> string \<Rightarrow> hist \<Rightarrow> hist option" where
  "print_device K name h =
     (let base = ''/sys/block/'' @ name;
          kind = (if starts_with ''loop'' name \<or> starts_with ''ram'' name then ''virtual'' else ''disk'') in
      do { (sectors, h) \<leftarrow> slurp K (base @ ''/size'') h;
           (rot, h) \<leftarrow> slurp K (base @ ''/queue/rotational'') h;
           (sched, h) \<leftarrow> slurp K (base @ ''/queue/scheduler'') h;
           Some (print_out K (name @ ''  '' @ sectors @ ''  rot='' @ rot @ ''  '' @ kind @ ''  '' @ sched @ [NL]) h) })"

definition print_devices :: "kernel \<Rightarrow> hist \<Rightarrow> hist option" where
  "print_devices K h =
     (case sys_names K (Fs (Readdir ''/sys/block'')) h of
        (Inl e, h) \<Rightarrow> Some (print_out K (''opendir /sys/block: '' @ errno_string K e @ [NL]) h)
      | (Inr names, h) \<Rightarrow>
          for_each (print_device K) (filter (\<lambda>n. n = [] \<or> hd n \<noteq> CHR ''.'') names)
            (print_out K (''name        sectors     rotational  scheduler'' @ [NL]) h))"

section \<open>The mount of the workspace\<close>

fun split_text :: "string \<Rightarrow> string \<Rightarrow> (string \<times> string) option" where
  "split_text p [] = (if p = [] then Some ([], []) else None)"
| "split_text p (x # xs) =
     (if starts_with p (x # xs) then Some ([], drop (length p) (x # xs))
      else map_option (\<lambda>(a, b). (x # a, b)) (split_text p xs))"

fun take_words :: "nat \<Rightarrow> string \<Rightarrow> string list option" where
  "take_words 0 s = Some []"
| "take_words (Suc n) s =
     (case next_word s of None \<Rightarrow> None | Some (w, rest) \<Rightarrow> map_option ((#) w) (take_words n rest))"

record mount =
  mt_point :: string
  mt_type :: string
  mt_src :: string

definition no_mount :: mount where
  "no_mount = \<lparr>mt_point = [], mt_type = [], mt_src = []\<rparr>"

definition covers :: "string \<Rightarrow> string \<Rightarrow> bool" where
  "covers point workspace \<longleftrightarrow>
     starts_with point workspace \<and>
     \<not> (point \<noteq> ''/'' \<and> length point < length workspace \<and> workspace ! length point \<noteq> CHR ''/'' \<and>
        workspace \<noteq> point)"

text \<open>One line of \<^verbatim>\<open>/proc/self/mountinfo\<close>: the fifth word is the mount point, and after the dash come
  the type and the source.\<close>

definition mount_line :: "string \<Rightarrow> mount option" where
  "mount_line line =
     (case split_text '' - '' line of
        None \<Rightarrow> None
      | Some (front, back) \<Rightarrow>
         (case take_words 5 front of
            Some [_, _, _, _, point] \<Rightarrow>
              (case take_words 2 back of
                 Some [fstype, src] \<Rightarrow> Some \<lparr>mt_point = point, mt_type = fstype, mt_src = src\<rparr>
               | _ \<Rightarrow> None)
          | _ \<Rightarrow> None))"

definition better_mount :: "string \<Rightarrow> mount \<Rightarrow> string \<Rightarrow> mount" where
  "better_mount workspace best line =
     (case mount_line line of
        None \<Rightarrow> best
      | Some m \<Rightarrow>
          if \<not> covers (mt_point m) workspace then best
          else if length (mt_point m) < length (mt_point best) then best else m)"

definition best_mount :: "string \<Rightarrow> string \<Rightarrow> mount" where
  "best_mount workspace txt = foldl (better_mount workspace) no_mount (getlines txt)"

section \<open>Memory and disk counters\<close>

definition mem_keys :: "string list" where
  "mem_keys = [''MemTotal:'', ''MemAvailable:'', ''Buffers:'', ''Cached:'', ''Dirty:'', ''Writeback:'',
     ''Mapped:'', ''Shmem:'', ''Slab:'']"

definition mem_lines :: "string \<Rightarrow> string list" where
  "mem_lines txt =
     concat (map (\<lambda>l. map (\<lambda>_. ''  '' @ l @ [NL]) (filter (\<lambda>k. starts_with k l) mem_keys)) (getlines txt))"

text \<open>\<^verbatim>\<open>in >> major\<close> for an \<^verbatim>\<open>int\<close>: what counts is whether it succeeds.\<close>

definition extracts_int :: "string \<Rightarrow> bool" where
  "extracts_int s =
     (let s = dropWhile is_space s;
          neg = (s \<noteq> [] \<and> hd s = CHR ''-'');
          signed = (s \<noteq> [] \<and> (hd s = CHR ''-'' \<or> hd s = CHR ''+''));
          ds = takeWhile is_digit (if signed then tl s else s) in
      ds \<noteq> [] \<and> i32_range (if neg then - int (dec_value ds) else int (dec_value ds)))"

fun extract_numbers :: "nat \<Rightarrow> string \<Rightarrow> u64 list option" where
  "extract_numbers 0 s = Some []"
| "extract_numbers (Suc n) s =
     (case extract_u64 s of (ok, v) \<Rightarrow>
        if ok then map_option ((#) v) (extract_numbers n (number_rest s)) else None)"

definition disk_line :: "string \<Rightarrow> string option" where
  "disk_line line =
     (if \<not> extracts_int line \<or> \<not> extracts_int (number_rest line) then None
      else case next_word (number_rest (number_rest line)) of
        None \<Rightarrow> None
      | Some (name, s) \<Rightarrow>
         (case extract_numbers 8 s of
            Some [rd, _, rd_sec, _, wr, _, wr_sec, _] \<Rightarrow>
              if starts_with ''loop'' name then None
              else Some (''  '' @ name @ ''  reads '' @ dec_u64 rd @ ''  sectors '' @ dec_u64 rd_sec
                     @ ''  writes '' @ dec_u64 wr @ ''  sectors '' @ dec_u64 wr_sec @ [NL])
          | _ \<Rightarrow> None))"

definition print_each :: "kernel \<Rightarrow> string list \<Rightarrow> hist \<Rightarrow> hist" where
  "print_each K ls h = foldl (\<lambda>h l. print_out K l h) h ls"

definition page_cache_text :: string where
  "page_cache_text = [NL] @ ''page cache, from /proc/meminfo'' @ [NL]
     @ ''  Cached    file pages resident in the page cache'' @ [NL]
     @ ''  Dirty     cache pages waiting for writeback'' @ [NL]
     @ ''  Writeback cache pages being written now'' @ [NL]
     @ ''  Mapped    pages mapped with mmap'' @ [NL]
     @ ''  Shmem     shared memory, including memfd and tmpfs'' @ [NL]"

definition print_storage :: "kernel \<Rightarrow> string \<Rightarrow> hist \<Rightarrow> hist option" where
  "print_storage K workspace h =
     do { h \<leftarrow> Some (print_out K (''workspace '' @ workspace @ [NL]) h);
          (r, h) \<leftarrow> read_text_file K ''/proc/self/mountinfo'' h;
          h \<leftarrow> Some (let best = (case r of Inl _ \<Rightarrow> no_mount | Inr txt \<Rightarrow> best_mount workspace txt) in
                  if mt_type best \<noteq> []
                  then print_out K (''filesystem '' @ mt_type best @ '' on '' @ mt_point best @ '' from ''
                         @ mt_src best @ [NL]) h
                  else h);
          h \<leftarrow> Some (print_out K page_cache_text h);
          (r, h) \<leftarrow> read_text_file K ''/proc/meminfo'' h;
          h \<leftarrow> Some (case r of Inl _ \<Rightarrow> h | Inr txt \<Rightarrow> print_each K (mem_lines txt) h);
          h \<leftarrow> Some (print_out K ([NL] @ ''/proc/diskstats'' @ [NL]) h);
          (r, h) \<leftarrow> read_text_file K ''/proc/diskstats'' h;
          Some (case r of Inl _ \<Rightarrow> h | Inr txt \<Rightarrow> print_each K (List.map_filter disk_line (getlines txt)) h) }"

section \<open>Properties\<close>

text \<open>A mount point covers a path when it is one of its ancestors, by whole components.\<close>

definition ancestor :: "string \<Rightarrow> string \<Rightarrow> bool" where
  "ancestor point path \<longleftrightarrow> path = point \<or> (\<exists>rest. path = point @ CHR ''/'' # rest)"

lemma starts_with_iff: "starts_with p s \<longleftrightarrow> (\<exists>rest. s = p @ rest)"
  unfolding starts_with_def by (metis append_take_drop_id append_eq_conv_conj)

lemma covers_iff: "covers point ws \<longleftrightarrow> ancestor point ws \<or> (point = ''/'' \<and> starts_with ''/'' ws)"
proof -
  have "(\<exists>rest. ws = point @ rest) \<and> (length point < length ws \<longrightarrow> ws ! length point = CHR ''/'') \<longleftrightarrow> ancestor point ws"
  proof
    assume l: "(\<exists>rest. ws = point @ rest) \<and> (length point < length ws \<longrightarrow> ws ! length point = CHR ''/'')"
    then obtain rest where "ws = point @ rest" by blast
    with l show "ancestor point ws" by (cases rest) (auto simp: ancestor_def)
  qed (auto simp: ancestor_def)
  then show ?thesis by (auto simp: covers_def starts_with_iff ancestor_def)
qed

definition mounts_of :: "string \<Rightarrow> mount list" where
  "mounts_of txt = List.map_filter mount_line (getlines txt)"

text \<open>What the loop keeps: the best so far covers the workspace and nothing seen is longer.\<close>

definition best_of :: "string \<Rightarrow> mount list \<Rightarrow> mount \<Rightarrow> bool" where
  "best_of ws ms best \<longleftrightarrow>
     (best = no_mount \<and> (\<forall>m \<in> set ms. \<not> covers (mt_point m) ws)) \<or>
     (best \<in> set ms \<and> covers (mt_point best) ws \<and>
        (\<forall>m \<in> set ms. covers (mt_point m) ws \<longrightarrow> length (mt_point m) \<le> length (mt_point best)))"

lemma best_of_step:
  "best_of ws ms best \<Longrightarrow> best_of ws (ms @ List.map_filter mount_line [line]) (better_mount ws best line)"
  by (auto simp: best_of_def better_mount_def map_filter_simps no_mount_def split: option.splits)

lemma best_of_foldl:
  "best_of ws ms best \<Longrightarrow>
   best_of ws (ms @ List.map_filter mount_line ls) (foldl (better_mount ws) best ls)"
proof (induction ls arbitrary: ms best)
  case (Cons l ls)
  from Cons.IH [OF best_of_step [OF Cons.prems, of l]] show ?case
    by (simp add: map_filter_simps split: option.splits)
qed (simp add: map_filter_simps)


end
