(* ===== verification/Cli.thy ===== *)
theory Cli
  imports Devices Controller_Loop
begin

text \<open>
  The command line (\<^verbatim>\<open>main.cpp\<close>): the flags, every command, and \<^verbatim>\<open>dispatch\<close>. A command takes the
  kernel, its arguments and the history and gives the exit code. \<open>None\<close> means that it does not return,
  as \<^verbatim>\<open>run\<close> and \<^verbatim>\<open>submit --wait\<close> may.
\<close>

section \<open>Output\<close>

definition print_err :: "kernel \<Rightarrow> string \<Rightarrow> hist \<Rightarrow> hist" where
  "print_err K s h = sys_do K (Env (PrintErr s)) h"

text \<open>\<^verbatim>\<open>std::cerr << "forge: " << err << "\n"; return 1;\<close>\<close>

definition complain :: "kernel \<Rightarrow> string \<Rightarrow> hist \<Rightarrow> int \<times> hist" where
  "complain K err h = (1, print_err K (''forge: '' @ err @ [NL]) h)"

definition usage_text :: string where
  "usage_text = concat (map (\<lambda>l. l @ [NL])
     [''Forge '' @ [CHR 0xE2, CHR 0x80, CHR 0x94] @ '' local Linux job engine'',
      [],
      ''  forge run [--workspace DIR] [--slots N]'',
      ''  forge submit --input PATH --operation OP [options] [--wait]'',
      ''  forge jobs [--workspace DIR]'',
      ''  forge status [--workspace DIR]'',
      ''  forge logs ID [--workspace DIR]'',
      ''  forge inspect ID [--workspace DIR]'',
      ''  forge cancel ID [--workspace DIR]'',
      ''  forge device list'',
      ''  forge storage stats [--workspace DIR]'',
      ''  forge self-test'',
      [],
      ''Operations: sha256, chunk-sha256, count, copy, exec'',
      ''  sha256          one worker, digest matches sha256sum'',
      ''  chunk-sha256    N workers, one digest per slice (not the file digest)'',
      ''  count           N workers, byte count (every byte is touched)'',
      ''  copy            one worker, durable output via fsync + rename'',
      ''  exec            one worker, execve of --exec PROGRAM'',
      ''                  argv is: PROGRAM INPUT OUTPUT'',
      [],
      ''submit options:'',
      ''  --workers N       default 1, max 16'',
      ''  --io mmap|read|direct     default mmap'',
      ''  --priority N      larger runs first (not the same scale as nice)'',
      ''  --nice N          Unix nice, -20..19; larger means less CPU'',
      ''  --cpu N           pin the worker to that CPU'',
      ''  --mem-mb N        RLIMIT_AS (includes mmap of the input)'',
      ''  --cpu-sec N       RLIMIT_CPU'',
      ''  --max-fds N       RLIMIT_NOFILE'',
      ''  --max-out-mb N    RLIMIT_FSIZE'',
      ''  --deadline SEC    timerfd; 0 means none'',
      ''  --exec PATH       required for --operation exec'',
      ''  --wait            block until the job reaches a terminal state'',
      [],
      ''Start the controller in one terminal, submit from another.'',
      ''The workspace path decides the filesystem (ext4 vs tmpfs):'',
      ''  forge run --workspace /dev/shm/forge-ws''])"

section \<open>Flags\<close>

text \<open>The first occurrence of the name that has a value after it; both are removed.\<close>

fun take_flag :: "string list \<Rightarrow> string \<Rightarrow> string option \<times> string list" where
  "take_flag (a # v # rest) name =
     (if a = name then (Some v, rest)
      else case take_flag (v # rest) name of (r, args) \<Rightarrow> (r, a # args))"
| "take_flag args name = (None, args)"

fun has_flag :: "string list \<Rightarrow> string \<Rightarrow> bool \<times> string list" where
  "has_flag [] name = (False, [])"
| "has_flag (a # rest) name =
     (if a = name then (True, rest) else case has_flag rest name of (r, args) \<Rightarrow> (r, a # args))"

definition flag_or :: "string list \<Rightarrow> string \<Rightarrow> string \<Rightarrow> string \<times> string list" where
  "flag_or args name fallback =
     (case take_flag args name of (Some v, args) \<Rightarrow> (v, args) | (None, args) \<Rightarrow> (fallback, args))"

definition real_path :: "kernel \<Rightarrow> string \<Rightarrow> hist \<Rightarrow> (string + string) \<times> hist" where
  "real_path K path h =
     (case sys_str K (Fs (Realpath (c_str path))) h of
        (Inl e, h) \<Rightarrow> (Inl (''realpath '' @ path @ '': '' @ errno_string K e), h)
      | (Inr p, h) \<Rightarrow> (Inr p, h))"

section \<open>Run and submit\<close>

definition send_fifo :: "kernel \<Rightarrow> string \<Rightarrow> string \<Rightarrow> hist \<Rightarrow> ((string + unit) \<times> hist) option" where
  "send_fifo K root line h =
     (case sys_open K (control_fifo_path root) [O_WRONLY, O_NONBLOCK, O_CLOEXEC] h of
        (Inl e, h) \<Rightarrow>
          Some (Inl (if e = ENXIO
                     then ''controller is not running for '' @ root @ [NL] @ ''Start it with:'' @ [NL]
                          @ ''  forge run --workspace '' @ root
                     else ''open fifo: '' @ errno_string K e), h)
      | (Inr f, h) \<Rightarrow>
          do { (w, h) \<leftarrow> write_all K f (text_bytes (with_newline line)) h;
               Some (case w of Some e \<Rightarrow> Inl (''write fifo: '' @ errno_string K e) | None \<Rightarrow> Inr (),
                     sys_close K f h) })"

text \<open>The number of slots: the processors that are online, or \<^verbatim>\<open>--slots\<close>.\<close>

definition slots_arg :: "errno + int \<Rightarrow> string option \<Rightarrow> string + int" where
  "slots_arg ncpu flag =
     (case flag of
        Some txt \<Rightarrow>
          (case parse_u64 txt of
             None \<Rightarrow> Inl (''--slots must be 1..'' @ dec_u64 kMaxSlots)
           | Some n \<Rightarrow> if n < 1 \<or> kMaxSlots < n
                       then Inl (''--slots must be 1..'' @ dec_u64 kMaxSlots)
                       else Inr (cast_i32 (uint n)))
      | None \<Rightarrow> Inr (case ncpu of Inr n \<Rightarrow> if 0 < n then cast_i32 n else 1 | Inl _ \<Rightarrow> 1))"

definition cmd_run :: "kernel \<Rightarrow> string list \<Rightarrow> hist \<Rightarrow> (int \<times> hist) option" where
  "cmd_run K args h =
     (let (flag, args) = flag_or args ''--workspace'' [];
          (ws, h) = resolve_workspace K flag h;
          (ncpu, h) = sys_num K (Env CountCpus) h;
          (slot_text, args) = take_flag args ''--slots'' in
      case slots_arg ncpu slot_text of
        Inl err \<Rightarrow> Some (complain K err h)
      | Inr slots \<Rightarrow>
          if args \<noteq> [] then Some (complain K (''unknown argument '' @ hd args) h)
          else run_controller K ws slots h)"

text \<open>The report of a finished job.\<close>

definition final_lines :: "string \<Rightarrow> u64 \<Rightarrow> meta \<Rightarrow> string" where
  "final_lines root jid m =
     ''job '' @ dec_u64 jid @ '' '' @ m_state m @ [NL]
     @ (if m_digest m \<noteq> [] then ''digest '' @ m_digest m @ [NL] else [])
     @ (if m_error m \<noteq> [] then ''error '' @ m_error m @ [NL] else [])
     @ ''output '' @ job_directory root jid @ ''/output'' @ [NL]"

partial_function (option) wait_job :: "kernel \<Rightarrow> string \<Rightarrow> u64 \<Rightarrow> hist \<Rightarrow> (int \<times> hist) option" where
  "wait_job K root jid h =
     Option.bind (load_meta K root jid h)
       (\<lambda>(r, h'). case r of
          Inl err \<Rightarrow> Some (complain K err h')
        | Inr m \<Rightarrow>
            if is_terminal_state (m_state m)
            then Some (if m_state m = ''completed'' then 0 else 1, print_out K (final_lines root jid m) h')
            else wait_job K root jid (sys_do K (Env (Usleep 200000)) h'))"

text \<open>\<^verbatim>\<open>need_i\<close> and \<^verbatim>\<open>need_u\<close>: the value of a numeric flag, if it is there and not empty.\<close>

definition need_i :: "string \<Rightarrow> int \<Rightarrow> string list \<Rightarrow> string + int \<times> string list" where
  "need_i name fallback args =
     (case flag_or args name [] of (txt, args) \<Rightarrow>
        if txt = [] then Inr (fallback, args)
        else case parse_i64 txt of None \<Rightarrow> Inl (''bad '' @ name) | Some n \<Rightarrow> Inr (cast_i32 n, args))"

definition need_u :: "string \<Rightarrow> string list \<Rightarrow> string + u64 \<times> string list" where
  "need_u name args =
     (case flag_or args name [] of (txt, args) \<Rightarrow>
        if txt = [] then Inr (0, args)
        else case parse_u64 txt of None \<Rightarrow> Inl (''bad '' @ name) | Some n \<Rightarrow> Inr (n, args))"

definition submit_numbers :: "meta \<Rightarrow> string list \<Rightarrow> string + meta \<times> string list" where
  "submit_numbers m args =
     and_then (need_i ''--workers'' 1 args) (\<lambda>(workers, args).
     and_then (need_i ''--priority'' 0 args) (\<lambda>(priority, args).
     and_then (need_i ''--nice'' 0 args) (\<lambda>(nice, args).
     and_then (need_i ''--cpu'' (-1) args) (\<lambda>(cpu, args).
     and_then (need_u ''--mem-mb'' args) (\<lambda>(mem_mb, args).
     and_then (need_u ''--cpu-sec'' args) (\<lambda>(cpu_sec, args).
     and_then (need_u ''--max-fds'' args) (\<lambda>(max_fds, args).
     and_then (need_u ''--max-out-mb'' args) (\<lambda>(max_out_mb, args).
     and_then (need_u ''--deadline'' args) (\<lambda>(deadline, args).
       Inr (m\<lparr>m_workers := workers, m_priority := priority, m_nice := nice, m_cpu := cpu,
              m_mem_mb := mem_mb, m_cpu_sec := cpu_sec, m_max_fds := max_fds,
              m_max_out_mb := max_out_mb, m_deadline_s := deadline\<rparr>, args))))))))))"

text \<open>The record the options describe, and \<^verbatim>\<open>--wait\<close>.\<close>

definition submit_options :: "string list \<Rightarrow> string + meta \<times> bool" where
  "submit_options args =
     (let (op, args) = flag_or args ''--operation'' [];
          (inp, args) = flag_or args ''--input'' [];
          (exe, args) = flag_or args ''--exec'' [];
          (io, args) = flag_or args ''--io'' ''mmap'';
          (wait, args) = has_flag args ''--wait'' in
      and_then (submit_numbers (empty_meta\<lparr>m_op := op, m_input := inp, m_exec_path := exe, m_io := io\<rparr>) args)
        (\<lambda>(m, args).
           if args \<noteq> [] then Inl (''unknown argument '' @ hd args)
           else and_then (validate_meta m) (\<lambda>_. Inr (m, wait))))"

text \<open>The paths of a validated record are resolved, and the input is looked at.\<close>

definition resolve_input :: "kernel \<Rightarrow> meta \<Rightarrow> hist \<Rightarrow> (string + meta) \<times> hist" where
  "resolve_input K m h =
     (case real_path K (m_input m) h of
        (Inl err, h) \<Rightarrow> (Inl err, h)
      | (Inr p, h) \<Rightarrow>
          if p = [] then (Inl [], h)
          else case inspect_file K p h of
            (Inl err, h) \<Rightarrow>
              (Inl (''input is not a regular file'' @ (if err = [] then [] else '' ('' @ err @ '')'')), h)
          | (Inr info, h) \<Rightarrow>
              (if fi_regular info then Inr (m\<lparr>m_input := p\<rparr>) else Inl ''input is not a regular file'', h))"

definition resolve_program :: "kernel \<Rightarrow> meta \<Rightarrow> hist \<Rightarrow> (string + meta) \<times> hist" where
  "resolve_program K m h =
     (case real_path K (m_exec_path m) h of
        (Inl err, h) \<Rightarrow> (Inl err, h)
      | (Inr p, h) \<Rightarrow>
          if p = [] then (Inl [], h)
          else if m_input m \<noteq> [] \<and> hd (m_input m) \<noteq> CHR ''/'' then
            (case sys_str K (Env Getcwd) h of
               (Inl _, h) \<Rightarrow> (Inr (m\<lparr>m_exec_path := p\<rparr>), h)
             | (Inr cwd, h) \<Rightarrow> (Inr (m\<lparr>m_exec_path := p, m_input := cwd @ ''/'' @ m_input m\<rparr>), h))
          else (Inr (m\<lparr>m_exec_path := p\<rparr>), h))"

definition resolve_paths :: "kernel \<Rightarrow> meta \<Rightarrow> hist \<Rightarrow> (string + meta) \<times> hist" where
  "resolve_paths K m h = (if m_op m \<noteq> ''exec'' then resolve_input K m h else resolve_program K m h)"

text \<open>The record gets its id, is saved, and is announced.\<close>

definition submit_line :: "u64 \<Rightarrow> string" where
  "submit_line jid = ''SUBMIT '' @ dec_u64 jid"

definition announce :: "kernel \<Rightarrow> string \<Rightarrow> meta \<Rightarrow> bool \<Rightarrow> hist \<Rightarrow> (int \<times> hist) option" where
  "announce K ws m wait h =
     do { (r, h) \<leftarrow> save_meta K ws m h;
          case r of
            Inl err \<Rightarrow> Some (complain K err h)
          | Inr _ \<Rightarrow>
              do { (r, h) \<leftarrow> send_fifo K ws (submit_line (m_id m)) h;
                   case r of
                     Inl err \<Rightarrow> Some (complain K err h)
                   | Inr _ \<Rightarrow>
                      (let h = print_out K (''submitted job '' @ dec_u64 (m_id m) @ [NL]) h in
                       if wait then wait_job K ws (m_id m) h else Some (0, h)) } }"

definition submit_record :: "kernel \<Rightarrow> string \<Rightarrow> meta \<Rightarrow> bool \<Rightarrow> hist \<Rightarrow> (int \<times> hist) option" where
  "submit_record K ws m wait h =
     (case resolve_paths K m h of
        (Inl err, h) \<Rightarrow> Some (complain K err h)
      | (Inr m, h) \<Rightarrow>
          do { (r, h) \<leftarrow> allocate_job_id K ws h;
               case r of
                 Inl err \<Rightarrow> Some (complain K err h)
               | Inr jid \<Rightarrow>
                  (let (now, h) = realtime_ms K h in
                   announce K ws (m\<lparr>m_id := jid, m_state := ''submitted'', m_submitted_ms := now\<rparr>) wait h) })"

definition cmd_submit :: "kernel \<Rightarrow> string list \<Rightarrow> hist \<Rightarrow> (int \<times> hist) option" where
  "cmd_submit K args h =
     (let (flag, args) = flag_or args ''--workspace'' [];
          (ws, h) = resolve_workspace K flag h in
      case ensure_workspace K ws h of
        (Inl err, h) \<Rightarrow> Some (complain K err h)
      | (Inr _, h) \<Rightarrow>
         (case submit_options args of
            Inl err \<Rightarrow> Some (complain K err h)
          | Inr (m, wait) \<Rightarrow> submit_record K ws m wait h))"

section \<open>Reading the workspace\<close>

definition job_row :: "meta \<Rightarrow> string" where
  "job_row m =
     dec_u64 (m_id m) @ ''  '' @ m_state m @ ''  '' @ m_op m @ ''  '' @ dec_int (m_workers m) @ ''  ''
     @ take 48 (if m_digest m = [] then m_error m else m_digest m) @ [NL]"

definition print_job :: "kernel \<Rightarrow> string \<Rightarrow> u64 \<Rightarrow> hist \<Rightarrow> hist option" where
  "print_job K ws jid h =
     do { (r, h) \<leftarrow> load_meta K ws jid h;
          Some (print_out K (case r of Inl err \<Rightarrow> dec_u64 jid @ '' unreadable '' @ err @ [NL]
                                     | Inr m \<Rightarrow> job_row m) h) }"

definition cmd_jobs :: "kernel \<Rightarrow> string \<Rightarrow> hist \<Rightarrow> (int \<times> hist) option" where
  "cmd_jobs K ws h =
     (case list_job_ids K ws h of (ids, h) \<Rightarrow>
        if ids = [] then Some (0, print_out K (''no jobs in '' @ ws @ [NL]) h)
        else
          do { h \<leftarrow> for_each (print_job K ws) ids
                 (print_out K (''id        state        op             workers  digest/error'' @ [NL]) h);
               Some (0, h) })"

text \<open>A signal 0 tells whether the pid exists; its command line must name \<^verbatim>\<open>forge\<close>.\<close>

definition contains_text :: "string \<Rightarrow> string \<Rightarrow> bool" where
  "contains_text p s \<longleftrightarrow> split_text p s \<noteq> None"

definition pid_looks_like_forge :: "kernel \<Rightarrow> int \<Rightarrow> hist \<Rightarrow> (bool \<times> hist) option" where
  "pid_looks_like_forge K pid h =
     (if pid \<le> 0 then Some (False, h)
      else case sys_done K (Proc (Kill pid 0)) h of
        (Some _, h) \<Rightarrow> Some (False, h)
      | (None, h) \<Rightarrow>
          do { (r, h) \<leftarrow> read_text_file K (''/proc/'' @ dec_int pid @ ''/cmdline'') h;
               Some (case r of
                       Inl _ \<Rightarrow> False
                     | Inr txt \<Rightarrow> contains_text ''forge'' (map (\<lambda>c. if c = NUL then CHR '' '' else c) txt), h) })"

definition controller_pid :: "kernel \<Rightarrow> string \<Rightarrow> hist \<Rightarrow> (int option \<times> hist) option" where
  "controller_pid K ws h =
     do { (r, h) \<leftarrow> read_pid_file K ws h;
          case r of
            Inl _ \<Rightarrow> Some (None, h)
          | Inr pid \<Rightarrow>
              do { (ok, h) \<leftarrow> pid_looks_like_forge K pid h;
                   Some (if ok then Some pid else None, h) } }"

record job_counts =
  jc_running :: nat
  jc_queued :: nat
  jc_done :: nat
  jc_failed :: nat

definition no_counts :: job_counts where
  "no_counts = \<lparr>jc_running = 0, jc_queued = 0, jc_done = 0, jc_failed = 0\<rparr>"

definition count_state :: "string \<Rightarrow> job_counts \<Rightarrow> job_counts" where
  "count_state s n =
     (if s = ''running'' \<or> s = ''starting'' then n\<lparr>jc_running := jc_running n + 1\<rparr>
      else if s = ''queued'' \<or> s = ''submitted'' then n\<lparr>jc_queued := jc_queued n + 1\<rparr>
      else if s = ''completed'' then n\<lparr>jc_done := jc_done n + 1\<rparr>
      else n\<lparr>jc_failed := jc_failed n + 1\<rparr>)"

definition count_job :: "kernel \<Rightarrow> string \<Rightarrow> u64 \<Rightarrow> job_counts \<times> hist \<Rightarrow> (job_counts \<times> hist) option" where
  "count_job K ws jid s =
     do { (r, h) \<leftarrow> load_meta K ws jid (snd s);
          Some (case r of Inl _ \<Rightarrow> fst s | Inr m \<Rightarrow> count_state (m_state m) (fst s), h) }"

definition counts_line :: "job_counts \<Rightarrow> string" where
  "counts_line n = ''jobs: '' @ dec_nat (jc_running n) @ '' running, '' @ dec_nat (jc_queued n) @ '' queued, ''
     @ dec_nat (jc_done n) @ '' completed, '' @ dec_nat (jc_failed n) @ '' not-completed'' @ [NL]"

definition cmd_status :: "kernel \<Rightarrow> string \<Rightarrow> hist \<Rightarrow> (int \<times> hist) option" where
  "cmd_status K ws h =
     do { (p, h) \<leftarrow> controller_pid K ws h;
          h \<leftarrow> Some (print_out K (case p of
                  Some pid \<Rightarrow> ''controller: running pid '' @ dec_int pid @ [NL]
                | None \<Rightarrow> ''controller: stopped'' @ [NL]) h);
          (r, h) \<leftarrow> read_text_file K (ws @ ''/status.txt'') h;
          h \<leftarrow> Some (case r of
                  Inl _ \<Rightarrow> h
                | Inr txt \<Rightarrow> print_out K (''status.txt (telemetry, may be stale if the controller was killed)''
                    @ [NL] @ txt) h);
          (ids, h) \<leftarrow> Some (list_job_ids K ws h);
          (n, h) \<leftarrow> for_each (count_job K ws) ids (no_counts, h);
          Some (0, print_out K (counts_line n @ ''workspace: '' @ ws @ [NL]) h) }"

partial_function (option) copy_log :: "kernel \<Rightarrow> fd \<Rightarrow> hist \<Rightarrow> (int \<times> hist) option" where
  "copy_log K f h =
     (case sys_buf K (Fs (Read f 4096)) h of
        (Inl e, h') \<Rightarrow>
          if e = EINTR then copy_log K f h'
          else Some (complain K (''read log: '' @ errno_string K e) h')
      | (Inr b, h') \<Rightarrow> if b = [] then Some (0, h') else copy_log K f (print_out K (bytes_text b) h'))"

definition cmd_logs :: "kernel \<Rightarrow> string \<Rightarrow> u64 \<Rightarrow> hist \<Rightarrow> (int \<times> hist) option" where
  "cmd_logs K ws jid h =
     (let path = job_directory ws jid @ ''/log'' in
      case sys_open K path [O_RDONLY, O_CLOEXEC] h of
        (Inl e, h) \<Rightarrow> Some (complain K (''open '' @ path @ '': '' @ errno_string K e) h)
      | (Inr f, h) \<Rightarrow> do { (rc, h) \<leftarrow> copy_log K f h; Some (rc, sys_close K f h) })"

section \<open>Inspect\<close>

definition filtered_lines :: "string list \<Rightarrow> string \<Rightarrow> string list" where
  "filtered_lines prefixes txt =
     concat (map (\<lambda>l. if prefixes = [] then [''  '' @ l @ [NL]]
                      else map (\<lambda>_. ''  '' @ l @ [NL]) (filter (\<lambda>p. starts_with p l) prefixes)) (getlines txt))"

definition print_filtered_proc :: "kernel \<Rightarrow> string \<Rightarrow> string list \<Rightarrow> hist \<Rightarrow> hist option" where
  "print_filtered_proc K path prefixes h =
     do { (r, h) \<leftarrow> read_text_file K path h;
          Some (case r of
                  Inl err \<Rightarrow> print_out K (path @ '': '' @ err @ [NL]) h
                | Inr txt \<Rightarrow> print_each K (filtered_lines prefixes txt) (print_out K (path @ [NL]) h)) }"

definition status_keys :: "string list" where
  "status_keys = [''Name:'', ''State:'', ''Pid:'', ''PPid:'', ''VmRSS:'', ''VmSize:'', ''VmPeak:'',
     ''Threads:'', ''voluntary_ctxt_switches:'', ''nonvoluntary_ctxt_switches:'', ''Cpus_allowed_list:'']"

text \<open>\<^verbatim>\<open>std::getline(in, tok, ',')\<close>, and the pid of a token \<open>pid\<close> or \<open>pid@start\<close>.\<close>

function getfields :: "string \<Rightarrow> string list" where
  "getfields txt =
     (if txt = [] then []
      else case split_first (CHR '','') txt of
        None \<Rightarrow> [txt]
      | Some (tok, rest) \<Rightarrow> tok # getfields rest)"
  by pat_completeness auto
termination
  by (relation "measure length") (auto dest: split_first_length)

declare getfields.simps [simp del]

definition proc_token :: "string \<Rightarrow> u64 option" where
  "proc_token tok =
     parse_u64 (case split_first (CHR ''@'') tok of None \<Rightarrow> tok | Some (pid, _) \<Rightarrow> pid)"

definition inspect_process :: "kernel \<Rightarrow> u64 \<Rightarrow> hist \<Rightarrow> hist option" where
  "inspect_process K pid h =
     do { h \<leftarrow> Some (print_out K (''--- /proc/'' @ dec_u64 pid @ '' ---'' @ [NL]) h);
          h \<leftarrow> print_filtered_proc K (''/proc/'' @ dec_u64 pid @ ''/status'') status_keys h;
          print_filtered_proc K (''/proc/'' @ dec_u64 pid @ ''/io'') [] h }"

definition inspect_output :: "kernel \<Rightarrow> string \<Rightarrow> meta \<Rightarrow> hist \<Rightarrow> hist option" where
  "inspect_output K path m h =
     (case inspect_file K path h of
        (Inl _, h) \<Rightarrow> Some h
      | (Inr info, h) \<Rightarrow>
          if fi_regular info \<and> fi_size info < 4096 \<and> m_op m \<noteq> ''copy'' then
            do { (r, h) \<leftarrow> read_text_file K path h;
                 Some (case r of
                         Inl _ \<Rightarrow> h
                       | Inr body \<Rightarrow> print_out K (''--- output ---'' @ [NL] @ body) h) }
          else if fi_regular info
          then Some (print_out K (''output bytes '' @ dec_u64 (fi_size info) @ '' at '' @ path @ [NL]) h)
          else Some h)"

definition cmd_inspect :: "kernel \<Rightarrow> string \<Rightarrow> u64 \<Rightarrow> hist \<Rightarrow> (int \<times> hist) option" where
  "cmd_inspect K ws jid h =
     do { (r, h) \<leftarrow> load_meta K ws jid h;
          case r of
            Inl err \<Rightarrow> Some (complain K err h)
          | Inr m \<Rightarrow>
              do { h \<leftarrow> inspect_output K (job_directory ws jid @ ''/output'') m (print_out K (meta_to_text m) h);
                   h \<leftarrow> (if m_state m = ''running'' \<or> m_state m = ''starting''
                         then for_each (inspect_process K) (List.map_filter proc_token (getfields (m_procs m))) h
                         else Some h);
                   Some (0, print_out K (''log: '' @ job_directory ws jid @ ''/log'' @ [NL]) h) } }"

section \<open>Cancel\<close>

definition cancel_line :: "u64 \<Rightarrow> string" where
  "cancel_line jid = ''CANCEL '' @ dec_u64 jid"

fun cancel_wait :: "nat \<Rightarrow> kernel \<Rightarrow> string \<Rightarrow> u64 \<Rightarrow> hist \<Rightarrow> (int \<times> hist) option" where
  "cancel_wait 0 K ws jid h =
     Some (0, print_out K (''cancel sent; job has not reached a terminal state yet'' @ [NL]) h)"
| "cancel_wait (Suc n) K ws jid h =
     Option.bind (load_meta K ws jid h)
       (\<lambda>(r, h). case r of
          Inl _ \<Rightarrow> cancel_wait n K ws jid (sys_do K (Env (Usleep 100000)) h)
        | Inr m \<Rightarrow>
            if is_terminal_state (m_state m)
            then Some (if m_state m = ''cancelled'' \<or> m_state m = ''completed'' then 0 else 1,
                       print_out K (''job '' @ dec_u64 jid @ '' '' @ m_state m @ [NL]) h)
            else cancel_wait n K ws jid (sys_do K (Env (Usleep 100000)) h))"

definition cmd_cancel :: "kernel \<Rightarrow> string \<Rightarrow> u64 \<Rightarrow> hist \<Rightarrow> (int \<times> hist) option" where
  "cmd_cancel K ws jid h =
     do { (r, h) \<leftarrow> send_fifo K ws (cancel_line jid) h;
          case r of
            Inl err \<Rightarrow> Some (complain K err h)
          | Inr _ \<Rightarrow>
              cancel_wait 50 K ws jid (print_out K (''cancel requested for job '' @ dec_u64 jid @ [NL]) h) }"

section \<open>Dispatch\<close>

definition need_id :: "string list \<Rightarrow> u64" where
  "need_id args =
     (if args = [] then 0 else case parse_u64 (hd args) of None \<Rightarrow> 0 | Some n \<Rightarrow> n)"

definition fail_usage :: "kernel \<Rightarrow> hist \<Rightarrow> (int \<times> hist) option" where
  "fail_usage K h = Some (1, print_err K usage_text h)"

definition cmd_device :: "kernel \<Rightarrow> hist \<Rightarrow> (int \<times> hist) option" where
  "cmd_device K h = do { h \<leftarrow> print_devices K h; Some (0, h) }"

definition cmd_storage :: "kernel \<Rightarrow> string \<Rightarrow> hist \<Rightarrow> (int \<times> hist) option" where
  "cmd_storage K ws h = do { h \<leftarrow> print_storage K ws h; Some (0, h) }"

definition cmd_self_test :: "kernel \<Rightarrow> hist \<Rightarrow> int \<times> hist" where
  "cmd_self_test K h =
     (case self_test of
        Inl err \<Rightarrow> complain K err h
      | Inr _ \<Rightarrow> (0, print_out K (''self-test ok'' @ [NL]) h))"

text \<open>The commands about one job.\<close>

definition dispatch_id :: "kernel \<Rightarrow> string \<Rightarrow> string \<Rightarrow> string list \<Rightarrow> hist \<Rightarrow> (int \<times> hist) option" where
  "dispatch_id K cmd root args h =
     (let jid = need_id args in
      if jid = 0 then Some (complain K ''need a job id'' h)
      else if 1 < length args then Some (complain K (''unexpected argument '' @ args ! 1) h)
      else if cmd = ''logs'' then cmd_logs K root jid h
      else if cmd = ''inspect'' then cmd_inspect K root jid h
      else if cmd = ''cancel'' then cmd_cancel K root jid h
      else fail_usage K h)"

text \<open>The arguments after the name of the program.\<close>

definition dispatch :: "kernel \<Rightarrow> string list \<Rightarrow> hist \<Rightarrow> (int \<times> hist) option" where
  "dispatch K argv h =
     (let h = sys_do K (Proc IgnorePipe) h in
      case argv of
        [] \<Rightarrow> fail_usage K h
      | cmd # args \<Rightarrow>
          if cmd = ''help'' \<or> cmd = ''-h'' \<or> cmd = ''--help'' then Some (0, print_out K usage_text h)
          else if cmd = ''self-test'' then Some (cmd_self_test K h)
          else if cmd = ''run'' then cmd_run K args h
          else if cmd = ''submit'' then cmd_submit K args h
          else if cmd = ''device'' then
            if args = [''list''] then cmd_device K h else fail_usage K h
          else
            (let (flag, args) = flag_or args ''--workspace'' [];
                 (root, h) = resolve_workspace K flag h in
             if cmd = ''jobs'' then cmd_jobs K root h
             else if cmd = ''status'' then cmd_status K root h
             else if cmd = ''storage'' then
               if args = [''stats''] then cmd_storage K root h else fail_usage K h
             else dispatch_id K cmd root args h))"

end
