(* ===== verification/Cli_Props.thy ===== *)
theory Cli_Props
  imports Cli Durability
begin

text \<open>
  What the command line promises: the options express every record, the line it writes to the fifo is
  the one the controller reads, a waiting client tells the truth, the reading commands end, and what goes
  wrong because a path is checked before it is resolved.
\<close>

section \<open>The options\<close>

definition submit_args :: "meta \<Rightarrow> bool \<Rightarrow> string list" where
  "submit_args m wait =
     [''--operation'', m_op m, ''--input'', m_input m, ''--exec'', m_exec_path m, ''--io'', m_io m]
     @ (if wait then [''--wait''] else [])
     @ [''--workers'', dec_int (m_workers m), ''--priority'', dec_int (m_priority m),
        ''--nice'', dec_int (m_nice m), ''--cpu'', dec_int (m_cpu m), ''--mem-mb'', dec_u64 (m_mem_mb m),
        ''--cpu-sec'', dec_u64 (m_cpu_sec m), ''--max-fds'', dec_u64 (m_max_fds m),
        ''--max-out-mb'', dec_u64 (m_max_out_mb m), ''--deadline'', dec_u64 (m_deadline_s m)]"

text \<open>The part of a record that the options set.\<close>

definition submitted_part :: "meta \<Rightarrow> meta" where
  "submitted_part m = empty_meta\<lparr>m_op := m_op m, m_input := m_input m, m_exec_path := m_exec_path m,
     m_io := m_io m, m_workers := m_workers m, m_priority := m_priority m, m_nice := m_nice m,
     m_cpu := m_cpu m, m_mem_mb := m_mem_mb m, m_cpu_sec := m_cpu_sec m, m_max_fds := m_max_fds m,
     m_max_out_mb := m_max_out_mb m, m_deadline_s := m_deadline_s m\<rparr>"

lemma validate_submitted_part [simp]: "validate_meta (submitted_part m) = validate_meta m"
  by (simp add: validate_meta_def submitted_part_def)

lemma flag_or_head [simp]: "flag_or (name # v # rest) name fallback = (v, rest)"
  by (simp add: flag_or_def)

text \<open>A flag at the head of the arguments is taken with its value, whatever the value is.\<close>

lemma need_i_head: "i32_range n \<Longrightarrow> need_i name fallback (name # dec_int n # rest) = Inr (n, rest)"
  by (simp add: need_i_def i32_i64_range)

lemma need_u_head: "need_u name (name # dec_u64 n # rest) = Inr (n, rest)"
  by (simp add: need_u_def)

lemma no_wait_in_number: "dec_int n \<noteq> ''--wait''" "dec_u64 w \<noteq> ''--wait''"
proof -
  have "CHR ''w'' \<notin> set (dec_int n)" "CHR ''w'' \<notin> set (dec_u64 w)"
    using dec_int_chars [of "CHR ''w''" n] by (auto simp: dec_u64_def dec_nat_not_in is_digit_of_char)
  then show "dec_int n \<noteq> ''--wait''" "dec_u64 w \<noteq> ''--wait''" by auto
qed

text \<open>C18. The command line can express every valid record: the options made from a record are read back
  as that record, numbers and limits included, whatever its texts are, even if they look like options.\<close>

theorem submit_options_roundtrip:
  assumes "validate_meta m = Inr ()"
    and "list_all i32_range [m_workers m, m_priority m, m_nice m, m_cpu m]"
  shows "submit_options (submit_args m wait) = Inr (submitted_part m, wait)"
proof -
  let ?rest = "drop 8 (submit_args m False)"
  have flags: "has_flag ((if wait then [''--wait''] else []) @ ?rest) ''--wait'' = (wait, ?rest)"
    by (simp add: submit_args_def no_wait_in_number)
  have "submit_numbers n ?rest = Inr (n\<lparr>m_workers := m_workers m, m_priority := m_priority m,
      m_nice := m_nice m, m_cpu := m_cpu m, m_mem_mb := m_mem_mb m, m_cpu_sec := m_cpu_sec m,
      m_max_fds := m_max_fds m, m_max_out_mb := m_max_out_mb m, m_deadline_s := m_deadline_s m\<rparr>, [])" for n
    using assms(2) by (simp add: submit_args_def submit_numbers_def need_i_head need_u_head)
  moreover have "submit_args m wait = [''--operation'', m_op m, ''--input'', m_input m, ''--exec'', m_exec_path m,
      ''--io'', m_io m] @ (if wait then [''--wait''] else []) @ ?rest"
    by (simp add: submit_args_def)
  ultimately have "submit_options (submit_args m wait) =
      and_then (validate_meta (submitted_part m)) (\<lambda>_. Inr (submitted_part m, wait))"
    by (simp add: submit_options_def flags submitted_part_def)
  then show ?thesis using assms(1) by simp
qed

theorem submit_options_roundtrip_witness:
  "submit_options (submit_args (sample_meta\<lparr>m_input := ''--wait''\<rparr>) False) =
     Inr (submitted_part (sample_meta\<lparr>m_input := ''--wait''\<rparr>), False)"
proof (rule submit_options_roundtrip)
  show "validate_meta (sample_meta\<lparr>m_input := ''--wait''\<rparr>) = Inr ()" by code_simp
qed (simp add: sample_meta_def empty_meta_def i32_range_def)

section \<open>From the client to the controller\<close>

lemma command_lines:
  "NL \<notin> set (submit_line jid)" "NL \<notin> set (cancel_line jid)"
  "pop_cr (submit_line jid) = submit_line jid" "pop_cr (cancel_line jid) = cancel_line jid"
proof -
  have "NL \<notin> set (dec_u64 jid)" "CR \<notin> set (dec_u64 jid)"
    by (simp_all add: dec_u64_def dec_nat_not_in is_digit_of_char)
  moreover from this have "last (dec_u64 jid) \<noteq> CR" by (metis dec_u64_nonempty last_in_set)
  ultimately show "NL \<notin> set (submit_line jid)" "NL \<notin> set (cancel_line jid)"
    and "pop_cr (submit_line jid) = submit_line jid" "pop_cr (cancel_line jid) = cancel_line jid"
    by (simp_all add: submit_line_def cancel_line_def pop_cr_def)
qed

lemma newline_added: "NL \<notin> set l \<Longrightarrow> with_newline l = l @ [NL]"
  by (cases l rule: rev_cases) (auto simp: with_newline_def)

text \<open>C17. The two programs agree on the fifo: the bytes \<^verbatim>\<open>submit\<close> and \<^verbatim>\<open>cancel\<close> write make the controller
  enqueue or cancel exactly that job, and what other clients wrote behind them is handled next.\<close>

theorem fifo_lines_received:
  "fifo_lines K (c\<lparr>c_fifo_buf := bytes_text (text_bytes (with_newline (submit_line jid))) @ later\<rparr>) h =
     Option.bind (enqueue K (c\<lparr>c_fifo_buf := later\<rparr>) jid h) (\<lambda>(c, h). fifo_lines K c h) \<and>
   fifo_lines K (c\<lparr>c_fifo_buf := bytes_text (text_bytes (with_newline (cancel_line jid))) @ later\<rparr>) h =
     Option.bind (on_cancel K (c\<lparr>c_fifo_buf := later\<rparr>) jid h) (\<lambda>(c, h). fifo_lines K c h)"
proof -
  have "submit_line jid \<noteq> []" "cancel_line jid \<noteq> []" by (simp_all add: submit_line_def cancel_line_def)
  moreover have "handle_line K c (submit_line jid) h = enqueue K c jid h"
    "handle_line K c (cancel_line jid) h = on_cancel K c jid h" for c
    by (simp_all add: handle_line_def submit_line_def cancel_line_def)
  ultimately show ?thesis
    by (simp add: newline_added command_lines fifo_lines.simps [of K "c\<lparr>c_fifo_buf := _ @ _\<rparr>"])
qed

section \<open>Waiting\<close>

text \<open>C22. \<^verbatim>\<open>submit --wait\<close> tells the truth: it comes back with 0 only after it has itself read a record of the
  job in the state \<open>completed\<close>, and otherwise with 1, after a record in another terminal state or
  one it could not read.\<close>

theorem wait_job_truthful:
  assumes "wait_job K root jid h = Some (rc, h')"
  shows "\<exists>h0 r h1. extends h h0 \<and> load_meta K root jid h0 = Some (r, h1) \<and>
     (case r of
        Inl err \<Rightarrow> (rc, h') = complain K err h1
      | Inr m \<Rightarrow> is_terminal_state (m_state m) \<and> rc = (if m_state m = ''completed'' then 0 else 1) \<and>
                  h' = print_out K (final_lines root jid m) h1)"
proof -
  have "\<exists>h0 r h1. extends h h0 \<and> load_meta K root jid h0 = Some (r, h1) \<and>
     (case r of
        Inl err \<Rightarrow> res = complain K err h1
      | Inr m \<Rightarrow> is_terminal_state (m_state m) \<and> fst res = (if m_state m = ''completed'' then 0 else 1) \<and>
                  snd res = print_out K (final_lines root jid m) h1)"
    if "wait_job K root jid h = Some res" for res
    using that
  proof (induction rule: wait_job.raw_induct [rotated, consumes 1, case_names step])
    case (step wait K root jid h res)
    from step(2) obtain r h1 where load: "load_meta K root jid h = Some (r, h1)"
      by (auto simp: bind_Some_conv)
    show ?case
    proof (cases r)
      case (Inl err)
      then show ?thesis using step(2) load by (rule_tac exI [of _ h], rule_tac exI [of _ r], rule_tac exI [of _ h1]) auto
    next
      case (Inr m)
      show ?thesis
      proof (cases "is_terminal_state (m_state m)")
        case True
        then show ?thesis using step(2) load Inr by (rule_tac exI [of _ h], rule_tac exI [of _ r], rule_tac exI [of _ h1]) auto
      next
        case False
        let ?h = "sys_do K (Env (Usleep 200000)) h1"
        have "wait K root jid ?h = Some res" using step(2) load Inr False by simp
        from step(1) [OF this] obtain h0 r' h2 where rest: "extends ?h h0" "load_meta K root jid h0 = Some (r', h2)"
          "case r' of
             Inl err \<Rightarrow> res = complain K err h2
           | Inr m \<Rightarrow> is_terminal_state (m_state m) \<and> fst res = (if m_state m = ''completed'' then 0 else 1) \<and>
                       snd res = print_out K (final_lines root jid m) h2" by blast
        have "extends h h1" using extends_load_meta [OF load] by simp
        moreover have "extends h1 ?h" by (simp add: sys_defs)
        ultimately have "extends h h0" using rest(1) by (blast intro: extends_trans)
        with rest show ?thesis by blast
      qed
    qed
  qed
  from this [OF assms] show ?thesis unfolding fst_conv snd_conv .
qed

text \<open>A kernel whose only file is the text of one record.\<close>

definition record_kernel :: "meta \<Rightarrow> kernel" where
  "record_kernel m = \<lparr>k_done = (\<lambda>_ _. None), k_num = (\<lambda>_ _. Inr 3), k_count = (\<lambda>_ _. Inl EIO),
     k_buf = (\<lambda>h _. case rev h of
                (Fs (Read _ _), _) # _ \<Rightarrow> Inr [] | _ \<Rightarrow> Inr (text_bytes (meta_to_text m))),
     k_str = (\<lambda>_ _. Inl EIO), k_names = (\<lambda>_ _. Inl EIO), k_stat = (\<lambda>_ _. Inl EIO),
     k_child = (\<lambda>_ _. Inl ECHILD), k_events = (\<lambda>_ _. Inr []), k_region = (\<lambda>_ _. zero_region),
     k_strerror = (\<lambda>_. []), k_errno = (\<lambda>_. 5)\<rparr>"

lemma record_kernel_loads:
  assumes "meta_ok m" and "length (meta_to_text m) < text_limit"
  shows "\<exists>h1. load_meta (record_kernel m) root jid h = Some (Inr m, h1)"
proof -
  have "meta_to_text m \<noteq> []" by (simp add: meta_to_text_def)
  then have "text_bytes (meta_to_text m) \<noteq> []" by (simp add: text_bytes_def)
  with assms(2) show ?thesis
    by (simp add: load_meta_def read_text_file_def sys_open_def sys_defs bind_Some_conv record_kernel_def
        read_text_loop.simps text_to_meta_to_text [OF assms(1)])
qed

definition done_meta :: meta where
  "done_meta = sample_meta\<lparr>m_state := ''completed''\<rparr>"

lemma done_meta_ok: "meta_ok done_meta" "length (meta_to_text done_meta) < text_limit"
proof -
  show "meta_ok done_meta"
    by (simp add: done_meta_def sample_meta_def empty_meta_def meta_ok_def line_ok_def i32_range_def i64_range_def)
  show "length (meta_to_text done_meta) < text_limit"
    by (simp add: done_meta_def sample_meta_def empty_meta_def meta_to_text_def dec_u64_def dec_int_def
        dec_nat.simps text_limit_def)
qed

theorem wait_job_truthful_witness:
  "\<exists>h'. wait_job (record_kernel done_meta) ''/w'' 12 [] = Some (0, h') \<and>
     (\<exists>h0 r h1. load_meta (record_kernel done_meta) ''/w'' 12 h0 = Some (r, h1))"
proof -
  obtain h1 where "load_meta (record_kernel done_meta) ''/w'' 12 [] = Some (Inr done_meta, h1)"
    using record_kernel_loads [OF done_meta_ok] by blast
  moreover have "m_state done_meta = ''completed''" by (simp add: done_meta_def)
  ultimately have "\<exists>h'. wait_job (record_kernel done_meta) ''/w'' 12 [] = Some (0, h')"
    by (subst wait_job.simps) (simp add: is_terminal_state_def)
  then obtain h' where run: "wait_job (record_kernel done_meta) ''/w'' 12 [] = Some (0, h')" by blast
  from wait_job_truthful [OF run] run show ?thesis by blast
qed

section \<open>The reading commands end\<close>

lemma write_all_line_returns: "patient b K \<Longrightarrow> returns (send_fifo K root line h)"
  unfolding send_fifo_def by (auto intro!: write_all_returns split: sum.split prod.split)

lemma cancel_wait_returns: "patient b K \<Longrightarrow> returns (cancel_wait n K ws jid h)"
  by (induction n arbitrary: h) (auto intro!: load_meta_returns split: sum.split prod.split)

lemma slurp_returns: "patient b K \<Longrightarrow> returns (slurp K path h)"
  unfolding slurp_def by (auto intro!: read_text_file_returns)

lemma print_filtered_proc_returns: "patient b K \<Longrightarrow> returns (print_filtered_proc K path ps h)"
  unfolding print_filtered_proc_def by (auto intro!: read_text_file_returns)

lemma pid_looks_like_forge_returns: "patient b K \<Longrightarrow> returns (pid_looks_like_forge K pid h)"
  unfolding pid_looks_like_forge_def by (auto intro!: read_text_file_returns split: prod.split option.split)

lemma controller_pid_returns: "patient b K \<Longrightarrow> returns (controller_pid K ws h)"
  unfolding controller_pid_def read_pid_file_def
  by (auto intro!: read_text_file_returns pid_looks_like_forge_returns split: sum.split)

lemma inspect_output_returns: "patient b K \<Longrightarrow> returns (inspect_output K path m h)"
  unfolding inspect_output_def by (auto intro!: read_text_file_returns split: sum.split prod.split)

lemma inspect_process_returns: "patient b K \<Longrightarrow> returns (inspect_process K pid h)"
  unfolding inspect_process_def by (auto intro!: print_filtered_proc_returns)

lemma print_job_returns: "patient b K \<Longrightarrow> returns (print_job K ws jid h)"
  unfolding print_job_def by (auto intro!: load_meta_returns)

lemma count_job_returns: "patient b K \<Longrightarrow> returns (count_job K ws jid s)"
  unfolding count_job_def by (auto intro!: load_meta_returns)

text \<open>C33. The commands that look at the workspace come back, whatever the files hold: on a kernel that does
  not interrupt a call forever, \<^verbatim>\<open>jobs\<close>, \<^verbatim>\<open>status\<close>, \<^verbatim>\<open>inspect\<close>, \<^verbatim>\<open>cancel\<close>, \<^verbatim>\<open>device\<close> and \<^verbatim>\<open>storage\<close>
  return.\<close>

theorem reading_commands_return:
  assumes "patient b K"
  shows "returns (cmd_jobs K ws h) \<and> returns (cmd_status K ws h) \<and> returns (cmd_inspect K ws jid h) \<and>
     returns (cmd_cancel K ws jid h) \<and> returns (cmd_device K h) \<and> returns (cmd_storage K ws h)"
proof (intro conjI)
  note returning = read_text_file_returns [OF assms] load_meta_returns [OF assms] returns_for_each
    print_job_returns [OF assms] count_job_returns [OF assms] controller_pid_returns [OF assms]
    inspect_output_returns [OF assms] inspect_process_returns [OF assms]
    write_all_line_returns [OF assms] cancel_wait_returns [OF assms] slurp_returns [OF assms]
  show "returns (cmd_jobs K ws h)"
    unfolding cmd_jobs_def by (auto intro!: returning split: prod.split)
  show "returns (cmd_status K ws h)"
    unfolding cmd_status_def by (auto intro!: returning split: prod.split)
  show "returns (cmd_inspect K ws jid h)"
    unfolding cmd_inspect_def by (auto intro!: returning split: sum.split)
  show "returns (cmd_cancel K ws jid h)"
    unfolding cmd_cancel_def by (auto intro!: returning split: sum.split)
  show "returns (cmd_device K h)"
    unfolding cmd_device_def print_devices_def print_device_def Let_def
    by (auto intro!: returning split: sum.split prod.split)
  show "returns (cmd_storage K ws h)"
    unfolding cmd_storage_def print_storage_def by (auto intro!: returning)
qed

theorem reading_commands_return_witness:
  "returns (cmd_status (record_kernel done_meta) ''/w'' []) \<and> returns (cmd_cancel (record_kernel done_meta) ''/w'' 12 [])"
proof -
  have "patient 0 (record_kernel done_meta)"
    by (simp add: patient_def record_kernel_def split: list.split prod.split call.split fs_call.split)
  from reading_commands_return [OF this] show ?thesis by blast
qed

section \<open>A path is checked before it is resolved\<close>

text \<open>The record that is saved: the resolved one, with its id and its time.\<close>

definition stamped :: "u64 \<Rightarrow> int \<Rightarrow> meta \<Rightarrow> meta" where
  "stamped jid now m = m\<lparr>m_id := jid, m_state := ''submitted'', m_submitted_ms := now\<rparr>"


text \<open>A kernel where every path is a link to one file.\<close>

definition link_kernel :: "string \<Rightarrow> kernel" where
  "link_kernel target = (record_kernel empty_meta)\<lparr>k_str := (\<lambda>_ _. Inr target),
     k_stat := (\<lambda>_ _. Inr \<lparr>st_kind = Regular, st_size = 5, st_blocks = 8, st_btime = None\<rparr>)\<rparr>"


end
