(* ===== verification/Mac_Platform.thy ===== *)
theory Mac_Platform
  imports Cli
begin

text \<open>
  The macOS side of the platform line (\<^verbatim>\<open>os/mac/platform.cpp\<close>), on the same histories and with the
  names of the Linux side prefixed: the poller over one kqueue, the anonymous shared mapping, the pipe
  of notifications, the wait on an address, and the reports that use \<^verbatim>\<open>libproc\<close> and \<^verbatim>\<open>statfs\<close>
  instead of \<^verbatim>\<open>/proc\<close>. A macOS kernel answers a few calls with data that Linux does not have.
\<close>

record mac_kernel =
  mk_base :: kernel
  mk_ready :: "hist \<Rightarrow> call \<Rightarrow> errno + kevent list"
  mk_two :: "hist \<Rightarrow> call \<Rightarrow> errno + (int \<times> int)"
  mk_mounts :: "hist \<Rightarrow> call \<Rightarrow> errno + mac_mount list"
  mk_mount :: "hist \<Rightarrow> call \<Rightarrow> errno + mac_mount"

definition sys_ready :: "mac_kernel \<Rightarrow> call \<Rightarrow> hist \<Rightarrow> (errno + kevent list) \<times> hist" where
  "sys_ready M c h = (mk_ready M h c, h @ [(c, Ready (mk_ready M h c))])"

definition sys_two :: "mac_kernel \<Rightarrow> call \<Rightarrow> hist \<Rightarrow> (errno + (int \<times> int)) \<times> hist" where
  "sys_two M c h = (mk_two M h c, h @ [(c, Two (mk_two M h c))])"

definition sys_mounts :: "mac_kernel \<Rightarrow> call \<Rightarrow> hist \<Rightarrow> (errno + mac_mount list) \<times> hist" where
  "sys_mounts M c h = (mk_mounts M h c, h @ [(c, Mounts (mk_mounts M h c))])"

definition sys_mount :: "mac_kernel \<Rightarrow> call \<Rightarrow> hist \<Rightarrow> (errno + mac_mount) \<times> hist" where
  "sys_mount M c h = (mk_mount M h c, h @ [(c, Mounted (mk_mount M h c))])"

declare sys_ready_def [kernel_simps] sys_two_def [kernel_simps] sys_mounts_def [kernel_simps]
  sys_mount_def [kernel_simps]

section \<open>The poller\<close>

record mac_poller =
  mp_kq :: fd
  mp_signal_token :: u64
  mp_signals_watched :: bool
  mp_next_timer :: int
  mp_timers :: "(int \<times> u64) list"

definition mac_empty_poller :: mac_poller where
  "mac_empty_poller = \<lparr>mp_kq = -1, mp_signal_token = 0, mp_signals_watched = False,
     mp_next_timer = 1, mp_timers = []\<rparr>"

definition mac_drop_poller :: "kernel \<Rightarrow> mac_poller \<Rightarrow> hist \<Rightarrow> hist" where
  "mac_drop_poller K p h = (if 0 \<le> mp_kq p then sys_close K (mp_kq p) h else h)"

text \<open>\<^verbatim>\<open>SIGCHLD\<close>, \<^verbatim>\<open>SIGTERM\<close>, \<^verbatim>\<open>SIGINT\<close> by their macOS numbers. Calls in a row stop at the first that
  fails.\<close>

definition supervised :: "int list" where
  "supervised = [20, 15, 2]"

fun until_error :: "kernel \<Rightarrow> call list \<Rightarrow> hist \<Rightarrow> errno option \<times> hist" where
  "until_error K [] h = (None, h)"
| "until_error K (c # cs) h =
     (case sys_done K c h of
        (Some e, h) \<Rightarrow> (Some e, h)
      | (None, h) \<Rightarrow> until_error K cs h)"

definition mac_poller_open :: "kernel \<Rightarrow> mac_poller \<Rightarrow> hist \<Rightarrow> ((string + unit) \<times> mac_poller) \<times> hist" where
  "mac_poller_open K p h =
     (case until_error K (map (\<lambda>s. Mac (CatchSignal s)) supervised) h of
        (Some e, h) \<Rightarrow> ((Inl (''sigaction: '' @ errno_string K e), p), h)
      | (None, h) \<Rightarrow>
          (case sys_num K (Mac Kqueue) h of
             (Inl e, h) \<Rightarrow> ((Inl (''kqueue: '' @ errno_string K e), p\<lparr>mp_kq := -1\<rparr>), h)
           | (Inr kq, h) \<Rightarrow> ((Inr (), p\<lparr>mp_kq := kq\<rparr>), h)))"

definition mac_watch_signals ::
    "kernel \<Rightarrow> mac_poller \<Rightarrow> u64 \<Rightarrow> hist \<Rightarrow> ((string + unit) \<times> mac_poller) \<times> hist" where
  "mac_watch_signals K p token h =
     (let p = p\<lparr>mp_signal_token := token\<rparr> in
      case until_error K (map (\<lambda>s. Mac (KeventAddSignal (mp_kq p) s token)) supervised) h of
        (Some e, h) \<Rightarrow> ((Inl (''kevent signal: '' @ errno_string K e), p), h)
      | (None, h) \<Rightarrow> ((Inr (), p\<lparr>mp_signals_watched := True\<rparr>), h))"

definition mac_watch_fd :: "kernel \<Rightarrow> mac_poller \<Rightarrow> fd \<Rightarrow> u64 \<Rightarrow> hist \<Rightarrow> (string + unit) \<times> hist" where
  "mac_watch_fd K p f token h =
     (case sys_done K (Mac (KeventAddRead (mp_kq p) f token)) h of
        (Some e, h) \<Rightarrow> (Inl (''kevent add fd: '' @ errno_string K e), h)
      | (None, h) \<Rightarrow> (Inr (), h))"

definition mac_unwatch_fd :: "kernel \<Rightarrow> mac_poller \<Rightarrow> fd \<Rightarrow> hist \<Rightarrow> hist" where
  "mac_unwatch_fd K p f h =
     (if mp_kq p < 0 \<or> f < 0 then h else sys_do K (Mac (KeventDelRead (mp_kq p) f)) h)"

text \<open>\<^verbatim>\<open>ms * 1000\<close> at 64 bits, then as a signed \<^verbatim>\<open>intptr_t\<close>; the timer id is consumed even when the
  filter is refused.\<close>

definition mac_period :: "u64 \<Rightarrow> int" where
  "mac_period first_ms = (let ms = (if first_ms = 0 then 1 else first_ms) in cast_i64 (uint (ms * 1000)))"

definition mac_watch_timer ::
    "kernel \<Rightarrow> mac_poller \<Rightarrow> u64 \<Rightarrow> u64 \<Rightarrow> u64 \<Rightarrow> hist \<Rightarrow> ((string + int) \<times> mac_poller) \<times> hist" where
  "mac_watch_timer K p token first_ms every_ms h =
     (let tid = mp_next_timer p;
          p = p\<lparr>mp_next_timer := tid + 1\<rparr> in
      case sys_done K (Mac (KeventAddTimer (mp_kq p) tid (every_ms = 0) (mac_period first_ms) token)) h of
        (Some e, h) \<Rightarrow> ((Inl (''kevent timer: '' @ errno_string K e), p), h)
      | (None, h) \<Rightarrow>
          ((Inr tid, p\<lparr>mp_timers := (if map_of (mp_timers p) tid = None
                                     then (tid, token) # mp_timers p else mp_timers p)\<rparr>), h))"

definition mac_unwatch_timer :: "kernel \<Rightarrow> mac_poller \<Rightarrow> int \<Rightarrow> hist \<Rightarrow> mac_poller \<times> hist" where
  "mac_unwatch_timer K p tid h =
     (if map_of (mp_timers p) tid = None \<or> mp_kq p < 0 then (p, h)
      else (p\<lparr>mp_timers := AList.delete tid (mp_timers p)\<rparr>,
            sys_do K (Mac (KeventDelTimer (mp_kq p) tid)) h))"

definition wait_event_of :: "kevent \<Rightarrow> wait_event" where
  "wait_event_of e = \<lparr>we_token = ev_udata e, we_signo = (if ev_signal e then cast_i32 (ev_ident e) else 0)\<rparr>"

definition mac_poller_wait ::
    "mac_kernel \<Rightarrow> mac_poller \<Rightarrow> nat \<Rightarrow> hist \<Rightarrow> (string + wait_event list) \<times> hist" where
  "mac_poller_wait M p cap h =
     (let ncap = (if cap < 16 then cap else 16) in
      case sys_ready M (Mac (KeventWait (mp_kq p) ncap)) h of
        (Inl e, h) \<Rightarrow>
          if e = EINTR then (Inr [], h) else (Inl (''kevent: '' @ errno_string (mk_base M) e), h)
      | (Inr raw, h) \<Rightarrow> (Inr (map wait_event_of (take cap raw)), h))"

definition mac_inherited_fds :: "mac_poller \<Rightarrow> fd list" where
  "mac_inherited_fds p = (if 0 \<le> mp_kq p then [mp_kq p] else [])"

section \<open>The shared mapping and the notifications\<close>

record mac_map =
  mm_fd :: fd
  mm_ptr :: "int option"

definition mac_no_map :: mac_map where
  "mac_no_map = \<lparr>mm_fd = -1, mm_ptr = None\<rparr>"

definition mac_create_shared_map :: "kernel \<Rightarrow> hist \<Rightarrow> ((string + unit) \<times> mac_map) \<times> hist" where
  "mac_create_shared_map K h =
     (case sys_num K (Mac (MmapAnon region_size)) h of
        (Inl e, h) \<Rightarrow> ((Inl (''mmap MAP_ANON|MAP_SHARED: '' @ errno_string K e), mac_no_map), h)
      | (Inr addr, h) \<Rightarrow>
          ((Inr (), mac_no_map\<lparr>mm_ptr := Some addr\<rparr>), sys_do K (Mac (ZeroRegion addr zero_region)) h))"

definition mac_destroy_shared_map :: "kernel \<Rightarrow> mac_map \<Rightarrow> hist \<Rightarrow> mac_map \<times> hist" where
  "mac_destroy_shared_map K m h =
     (let h = (case mm_ptr m of None \<Rightarrow> h | Some addr \<Rightarrow> sys_do K (Mac (UnmapAnon addr region_size)) h) in
      (mac_no_map, if 0 \<le> mm_fd m then sys_close K (mm_fd m) h else h))"

definition mac_create_notify :: "mac_kernel \<Rightarrow> hist \<Rightarrow> (string + notify) \<times> hist" where
  "mac_create_notify M h =
     (let K = mk_base M in
      case sys_two M (Mac Pipe) h of
        (Inl e, h) \<Rightarrow> (Inl (''pipe: '' @ errno_string K e), h)
      | (Inr (r, w), h) \<Rightarrow>
          (Inr \<lparr>n_held = r, n_write_end = w, n_child_write = w, n_child_close = r\<rparr>,
           sys_do K (Mac (SetCloexec w)) (sys_do K (Mac (SetCloexec r))
             (sys_do K (Mac (SetNonblock w)) (sys_do K (Mac (SetNonblock r)) h)))))"

text \<open>One byte for each notification; a full pipe is as good, it wakes the reader too. (A \<^verbatim>\<open>write\<close> of one
  byte that returned 0 would be judged by an old error number; it counts as not written.)\<close>

definition mac_notify_write :: "kernel \<Rightarrow> fd \<Rightarrow> hist \<Rightarrow> bool \<times> hist" where
  "mac_notify_write K f h =
     (case sys_count K (Fs (Write f [1])) h of
        (Inl e, h) \<Rightarrow> (e = EAGAIN, h)
      | (Inr n, h) \<Rightarrow> (n = 1, h))"

partial_function (option) mac_notify_loop ::
    "kernel \<Rightarrow> fd \<Rightarrow> u64 \<Rightarrow> hist \<Rightarrow> ((bool \<times> u64) \<times> hist) option" where
  "mac_notify_loop K f count h =
     (case sys_buf K (Fs (Read f 64)) h of
        (Inl e, h') \<Rightarrow> Some ((e = EAGAIN \<or> 0 < count, count), h')
      | (Inr b, h') \<Rightarrow>
          if b = [] then Some ((0 < count, count), h')
          else mac_notify_loop K f (count + word_of_nat (length b)) h')"

definition mac_notify_read :: "kernel \<Rightarrow> fd \<Rightarrow> hist \<Rightarrow> ((bool \<times> u64) \<times> hist) option" where
  "mac_notify_read K f h = mac_notify_loop K f 0 h"

section \<open>Waiting on an address, signals, files\<close>

text \<open>A timeout is given in seconds and nanoseconds and handed on in nanoseconds at 64 bits. A positive
  answer is the number of waiters that are left.\<close>

definition mac_futex_wait ::
    "kernel \<Rightarrow> int \<Rightarrow> u32 \<Rightarrow> (u64 \<times> u64) option \<Rightarrow> hist \<Rightarrow> (errno + int) \<times> hist" where
  "mac_futex_wait K addr expected timeout h =
     sys_num K (Mac (SyncWait addr (ucast expected)
       (map_option (\<lambda>(sec, nsec). sec * 1000000000 + nsec) timeout))) h"

definition mac_futex_wake :: "kernel \<Rightarrow> int \<Rightarrow> int \<Rightarrow> hist \<Rightarrow> (errno + int) \<times> hist" where
  "mac_futex_wake K addr nwaiters h = sys_num K (Mac (SyncWakeAny addr)) h"

definition mac_prepare_child_signals :: "kernel \<Rightarrow> hist \<Rightarrow> hist" where
  "mac_prepare_child_signals K h = foldl (\<lambda>h s. sys_do K (Mac (DefaultSignal s)) h) h supervised"

definition mac_replace_at :: "kernel \<Rightarrow> fd \<Rightarrow> string \<Rightarrow> string \<Rightarrow> hist \<Rightarrow> (string + unit) \<times> hist" where
  "mac_replace_at K dirfd tmp name h =
     (case sys_done K (Fs (Renameat dirfd (c_str tmp) (c_str name))) h of
        (None, h) \<Rightarrow> (Inr (), h)
      | (Some e, h) \<Rightarrow> (Inl (''renameat '' @ c_str name @ '': '' @ errno_string K e), h))"

definition mac_advise_mapping :: "kernel \<Rightarrow> int \<Rightarrow> nat \<Rightarrow> hist \<Rightarrow> hist" where
  "mac_advise_mapping K addr len h = sys_do K (Mac (AdviseAddress addr len)) h"

definition mac_open_readonly :: "kernel \<Rightarrow> string \<Rightarrow> bool \<Rightarrow> hist \<Rightarrow> (string + fd) \<times> hist" where
  "mac_open_readonly K path direct h =
     (case sys_open K path [O_RDONLY, O_CLOEXEC] h of
        (Inl e, h) \<Rightarrow> (Inl (''open input: '' @ errno_string K e), h)
      | (Inr f, h) \<Rightarrow>
          (case (if direct then sys_done K (Mac (NoCache f)) h else (None, h)) of
             (Some e, h) \<Rightarrow>
               (Inl (''F_NOCACHE: '' @ errno_string K e @
                 ''. This is the macOS bypass of the unified buffer cache.''), sys_close K f h)
           | (None, h) \<Rightarrow> (Inr f, h)))"

text \<open>0 pinned, 1 this system cannot.\<close>

definition mac_pin_cpu :: "int \<Rightarrow> int \<times> string" where
  "mac_pin_cpu cpu = (1, ''macOS has no sched_setaffinity. Thread affinity policy is a hint, not a CPU jail, '' @
     ''so Forge does not pretend the worker was pinned.'')"

definition mac_scheduler_name :: string where
  "mac_scheduler_name = ''Mach scheduler (no CFS policy id)''"

section \<open>Reports\<close>

definition mac_log_pair ::
    "mac_kernel \<Rightarrow> call \<Rightarrow> fd \<Rightarrow> string \<Rightarrow> string \<Rightarrow> string \<Rightarrow> hist \<Rightarrow> hist option" where
  "mac_log_pair M c f tag first second h =
     (case sys_two M c h of
        (Inl _, h) \<Rightarrow> Some h
      | (Inr (a, b), h) \<Rightarrow>
          do { (_, h) \<leftarrow> write_line (mk_base M) f (tag @ first @ dec_int a @ second @ dec_int b) h; Some h })"

definition mac_log_vm_snapshot :: "mac_kernel \<Rightarrow> fd \<Rightarrow> string \<Rightarrow> hist \<Rightarrow> hist option" where
  "mac_log_vm_snapshot M f tag h =
     do { h \<leftarrow> mac_log_pair M (Mac Rusage) f tag '' minflt='' '' majflt='' h;
          mac_log_pair M (Mac TaskInfo) f tag '' rss='' '' virtual='' h }"

text \<open>An answer of 0 mounts is the error of \<^verbatim>\<open>getmntinfo\<close>; \<open>EOTHER 0\<close> is no error number.\<close>

definition mac_print_devices :: "mac_kernel \<Rightarrow> hist \<Rightarrow> hist" where
  "mac_print_devices M h =
     (let K = mk_base M in
      case sys_mounts M (Mac MountInfo) h of
        (Inl e, h) \<Rightarrow> print_out K (''getmntinfo: '' @ errno_string K e @ [NL]) h
      | (Inr [], h) \<Rightarrow> print_out K (''getmntinfo: '' @ errno_string K (EOTHER 0) @ [NL]) h
      | (Inr (m # ms), h) \<Rightarrow>
          foldl (\<lambda>h m. print_out K (f_mntonname m @ ''  '' @ f_fstypename m @ ''  '' @ f_mntfromname m @ [NL]) h)
            (print_out K (''mount        fstype    device'' @ [NL]) h) (m # ms))"

definition mac_workspace_text :: "string \<Rightarrow> mac_mount \<Rightarrow> string" where
  "mac_workspace_text ws m =
     ''workspace '' @ ws @ [NL] @ ''filesystem '' @ f_fstypename m @ '' on '' @ f_mntonname m @ '' from '' @
     f_mntfromname m @ [NL]"

definition mac_print_storage :: "mac_kernel \<Rightarrow> string \<Rightarrow> hist \<Rightarrow> hist" where
  "mac_print_storage M ws h =
     (let K = mk_base M;
          (r, h) = sys_mount M (Mac (Statfs (c_str ws))) h;
          h = (case r of
                 Inl e \<Rightarrow> print_out K (''statfs '' @ ws @ '': '' @ errno_string K e @ [NL]) h
               | Inr m \<Rightarrow> print_out K (mac_workspace_text ws m) h);
          (mem, h) = sys_num K (Mac HwMemsize) h;
          h = (case mem of Inl _ \<Rightarrow> h | Inr n \<Rightarrow> print_out K (''hw.memsize '' @ dec_int n @ [NL]) h) in
      print_out K (''macOS uses a unified buffer cache. There is no /proc/meminfo Cached line.'' @ [NL] @
        ''Re-run a mmap job and compare majflt in the job log.'' @ [NL]) h)"

definition mac_info_of_stat :: "file_stat \<Rightarrow> file_info" where
  "mac_info_of_stat st =
     \<lparr>fi_size = st_size st, fi_regular = (st_kind st = Regular), fi_blocks_512 = st_blocks st,
      fi_have_btime = True,
      fi_btime_sec = (case st_btime st of Some t \<Rightarrow> cast_i64 t | None \<Rightarrow> 0)\<rparr>"

definition mac_inspect_file :: "kernel \<Rightarrow> string \<Rightarrow> hist \<Rightarrow> (string + file_info) \<times> hist" where
  "mac_inspect_file K path h =
     (case sys_stat K (Fs (Stat (c_str path))) h of
        (Inl e, h) \<Rightarrow> (Inl (''stat '' @ path @ '': '' @ errno_string K e), h)
      | (Inr st, h) \<Rightarrow> (Inr (mac_info_of_stat st), h))"

definition mac_proc_starttime :: "kernel \<Rightarrow> int \<Rightarrow> u64 \<Rightarrow> hist \<Rightarrow> (bool \<times> u64) \<times> hist" where
  "mac_proc_starttime K pid ticks h =
     (case sys_num K (Mac (ProcBsdInfo pid)) h of
        (Inl _, h) \<Rightarrow> ((False, ticks), h)
      | (Inr sec, h) \<Rightarrow> (let ticks = word_of_int sec in ((ticks \<noteq> 0, ticks), h)))"

definition mac_pid_looks_like_forge :: "kernel \<Rightarrow> int \<Rightarrow> hist \<Rightarrow> bool \<times> hist" where
  "mac_pid_looks_like_forge K pid h =
     (if pid \<le> 0 then (False, h)
      else case sys_done K (Proc (Kill pid 0)) h of
        (Some _, h) \<Rightarrow> (False, h)
      | (None, h) \<Rightarrow>
          (case sys_str K (Mac (ProcPidPath pid)) h of
             (Inl _, h) \<Rightarrow> (False, h)
           | (Inr path, h) \<Rightarrow> (contains_text ''forge'' path, h)))"

end
