(* ===== verification/Mac_Props.thy ===== *)
theory Mac_Props
  imports Mac_Platform Start_Gate
begin

text \<open>
  What the macOS side gives the engine: its poller and its pipe satisfy the contracts of
  \<open>Platform_Contracts\<close>, like the Linux side, so the properties of timers and notifications hold on both.
  The bypass of the cache leaks no descriptor, and a rename is the fallback of Linux.
\<close>

section \<open>Timers\<close>

definition mac_poller_ok :: "mac_poller \<Rightarrow> bool" where
  "mac_poller_ok p \<longleftrightarrow> 0 \<le> mp_kq p \<and> (\<forall>i t. map_of (mp_timers p) i = Some t \<longrightarrow> i < mp_next_timer p)"

definition mac_live :: "mac_poller \<Rightarrow> int \<Rightarrow> u64 option" where
  "mac_live p = map_of (mp_timers p)"

lemma mac_next_unused: "mac_poller_ok p \<Longrightarrow> map_of (mp_timers p) (mp_next_timer p) = None"
  unfolding mac_poller_ok_def by (metis not_None_eq order_less_irrefl)

lemma mac_poller_ok_below: "mac_poller_ok p \<Longrightarrow> map_of (mp_timers p) i = Some t \<Longrightarrow> i < mp_next_timer p"
  unfolding mac_poller_ok_def by blast

interpretation mac_timers: timer_table mac_poller_ok mac_live mp_next_timer mac_watch_timer mac_unwatch_timer
proof (unfold_locales, goal_cases)
  case 1
  then show ?case using mac_poller_ok_below by (simp add: mac_live_def)
next
  case 2
  then show ?case
    using mac_next_unused [OF 2(2)]
    by (auto simp: mac_watch_timer_def mac_live_def mac_poller_ok_def Let_def order_less_imp_le
        split: prod.splits option.splits if_splits)
next
  case 3
  then show ?case
    by (fastforce simp: mac_watch_timer_def mac_live_def mac_poller_ok_def Let_def
        split: prod.splits option.splits if_splits)
next
  case 4
  then show ?case
    using mac_poller_ok_below [OF 4(2)]
    by (auto simp: mac_unwatch_timer_def mac_live_def mac_poller_ok_def delete_conv' fun_eq_iff
        split: if_splits)
qed

lemma mac_period_exact:
  assumes "unat ms * 1000 < 2 ^ 63"
  shows "mac_period ms = (if ms = 0 then 1000 else int (unat ms) * 1000)"
proof (cases "ms = 0")
  case False
  have "unat ms * unat (1000 :: u64) < 2 ^ 64" using assms by simp
  then have "unat (ms * 1000) = unat ms * 1000" by (subst unat_u64_mult) simp_all
  then have eq: "uint (ms * 1000) = int (unat ms * 1000)" by (metis uint_nat)
  from assms have "int (unat ms * 1000) < int (2 ^ 63)" by (simp only: of_nat_less_iff)
  then have "int (unat ms * 1000) < 2 ^ 63" by (simp only: of_nat_power of_nat_numeral)
  then have "i64_range (int (unat ms * 1000))" unfolding i64_range_def by linarith
  with False eq show ?thesis unfolding mac_period_def Let_def by (simp del: int_ops)
qed (simp add: mac_period_def cast_i64_def)

lemma mac_period_wraps: "mac_period 9223372036854776 < 0"
  by (simp add: mac_period_def cast_i64_def)

section \<open>The pipe\<close>

text \<open>The bytes a history leaves in the pipe from \<open>w\<close> to \<open>r\<close>, and the kernels that keep a pipe.\<close>

definition pipe_step :: "fd \<Rightarrow> fd \<Rightarrow> nat \<Rightarrow> event \<Rightarrow> nat" where
  "pipe_step r w n e =
     (case e of
        (Fs (Write f _), Count (Inr k)) \<Rightarrow> if f = w then n + k else n
      | (Fs (Read f _), Buf (Inr b)) \<Rightarrow> if f = r then n - length b else n
      | _ \<Rightarrow> n)"

definition pipe_bytes :: "fd \<Rightarrow> fd \<Rightarrow> hist \<Rightarrow> nat" where
  "pipe_bytes r w h = foldl (pipe_step r w) 0 h"

definition pipe_room :: nat where "pipe_room = 65536"

definition pipe_read :: "nat \<Rightarrow> nat \<Rightarrow> errno + bytes" where
  "pipe_read n k = (if n = 0 then Inl EAGAIN else Inr (replicate (min n k) 1))"

definition pipe_write :: "nat \<Rightarrow> bytes \<Rightarrow> errno + nat" where
  "pipe_write n b = (if n + length b \<le> pipe_room then Inr (length b) else Inl EAGAIN)"

definition pipe_kernel :: "kernel \<Rightarrow> fd \<Rightarrow> fd \<Rightarrow> bool" where
  "pipe_kernel K r w \<longleftrightarrow> r \<noteq> w \<and> (\<forall>h b k.
     k_count K h (Fs (Write w b)) = pipe_write (pipe_bytes r w h) b \<and>
     (case k_buf K h (Fs (Read r k)) of
        Inl e \<Rightarrow> e = EAGAIN \<and> pipe_bytes r w h = 0
      | Inr got \<Rightarrow> 0 < pipe_bytes r w h \<and> length got = min (pipe_bytes r w h) k))"

lemma pipe_bytes_snoc [simp]: "pipe_bytes r w (h @ [e]) = pipe_step r w (pipe_bytes r w h) e"
  by (simp add: pipe_bytes_def)

lemma pipe_kernel_write: "pipe_kernel K r w \<Longrightarrow> k_count K h (Fs (Write w b)) = pipe_write (pipe_bytes r w h) b"
  unfolding pipe_kernel_def by blast

lemma pipe_kernel_read:
  assumes "pipe_kernel K r w"
  obtains "pipe_bytes r w h = 0" "k_buf K h (Fs (Read r k)) = Inl EAGAIN"
  | got where "0 < pipe_bytes r w h" "k_buf K h (Fs (Read r k)) = Inr got"
      "length got = min (pipe_bytes r w h) k"
proof -
  from assms have "case k_buf K h (Fs (Read r k)) of
        Inl e \<Rightarrow> e = EAGAIN \<and> pipe_bytes r w h = 0
      | Inr got \<Rightarrow> 0 < pipe_bytes r w h \<and> length got = min (pipe_bytes r w h) k"
    unfolding pipe_kernel_def by blast
  with that show thesis by (auto split: sum.splits)
qed

lemma mac_notify_loop_takes:
  assumes "pipe_kernel K r w"
  shows "\<exists>h'. mac_notify_loop K r count h = Some ((True, count + word_of_nat (pipe_bytes r w h)), h') \<and>
     pipe_bytes r w h' = 0"
proof (induction "pipe_bytes r w h" arbitrary: count h rule: less_induct)
  case less
  show ?case
  proof (cases rule: pipe_kernel_read [OF assms, of h 64])
    case 1
    then show ?thesis
      by (subst mac_notify_loop.simps) (simp add: kernel_simps pipe_step_def)
  next
    case (2 got)
    let ?h = "h @ [(Fs (Read r 64), Buf (Inr got))]"
    have rest: "pipe_bytes r w ?h = pipe_bytes r w h - length got" by (simp add: pipe_step_def)
    have pos: "0 < length got" "length got \<le> pipe_bytes r w h" using 2 by auto
    then have "pipe_bytes r w ?h < pipe_bytes r w h" unfolding rest by linarith
    from less [OF this, of "count + word_of_nat (length got)"] obtain h' where
      "mac_notify_loop K r (count + word_of_nat (length got)) ?h =
         Some ((True, count + word_of_nat (length got) + word_of_nat (pipe_bytes r w h - length got)), h')"
      "pipe_bytes r w h' = 0"
      unfolding rest by blast
    with 2 pos show ?thesis
      by (subst mac_notify_loop.simps) (auto simp: kernel_simps of_nat_diff)
  qed
qed

interpretation mac_notify: notify_channel pipe_kernel pipe_bytes pipe_room mac_notify_write mac_notify_read
proof (unfold_locales, goal_cases)
  case 1
  then show ?case
    by (auto simp: mac_notify_write_def kernel_simps pipe_kernel_write pipe_write_def pipe_step_def)
next
  case 2
  then show ?case
    by (auto simp: mac_notify_write_def kernel_simps pipe_kernel_write pipe_write_def pipe_step_def
        split: if_splits)
next
  case (3 K r w h)
  from mac_notify_loop_takes [OF 3, of 0 h] show ?case by (simp add: mac_notify_read_def)
qed

section \<open>The answer of the wait\<close>

text \<open>\<^verbatim>\<open>wait_for_start_gate\<close> reads the answer of \<^verbatim>\<open>os_sync_wait_on_address\<close> as if it were the futex of
  Linux: 0 is a wake-up, and anything else asks the error number, which only a failed call has set. \<open>old\<close> is
  the error number from before the call.\<close>

definition mac_gate_reply :: "errno \<Rightarrow> errno + int \<Rightarrow> gate_pc" where
  "mac_gate_reply old r =
     gate_reply (case r of Inl e \<Rightarrow> Some e | Inr n \<Rightarrow> if n = 0 then None else Some old)"

text \<open>A worker that is woken while others still wait (a positive answer) fails for an old error, where one
  that is woken last, or fails to wait, goes the way it would on Linux.\<close>

lemma mac_gate_reply_old:
  "mac_gate_reply old (Inr 0) = Loading" "mac_gate_reply old (Inl e) = gate_reply (Some e)"
  "0 < n \<Longrightarrow> mac_gate_reply old (Inr n) = Failed \<longleftrightarrow> old \<noteq> EAGAIN \<and> old \<noteq> EINTR"
  by (auto simp: mac_gate_reply_def gate_reply_def)

section \<open>Files\<close>

lemma mac_open_readonly_closes:
  assumes "mac_open_readonly K path direct h = (Inl err, h')"
  shows "(\<exists>e. h' = h @ [(Fs (Open (c_str path) [O_RDONLY, O_CLOEXEC]), Num (Inl e))]) \<or>
     (\<exists>f e a. direct \<and> h' = h @ [(Fs (Open (c_str path) [O_RDONLY, O_CLOEXEC]), Num (Inr f)),
        (Mac (NoCache f), Done (Some e)), (Fs (Close f), a)])"
  using assms
  by (auto simp: mac_open_readonly_def sys_open_def sys_close_def kernel_simps split: sum.splits option.splits if_splits)

lemma replace_at_fallback:
  assumes "k_done K h (Fs (Renameat2 d (c_str a) (c_str b))) = Some ENOSYS"
    and "snd (sys_done K (Fs (Renameat2 d (c_str a) (c_str b))) h) = h1"
  shows "isl (fst (replace_at K d a b h)) = isl (fst (mac_replace_at K d a b h1)) \<and>
     snd (replace_at K d a b h) = snd (mac_replace_at K d a b h1)"
  using assms by (auto simp: replace_at_def mac_replace_at_def kernel_simps Let_def split: option.splits)

section \<open>Properties\<close>


text \<open>Timer 1 carries token 7; another is armed, disarmed, and a third armed.\<close>

definition armed_poller :: poller where
  "armed_poller = empty_poller\<lparr>p_timers := [(1, \<lparr>ts_fd = 5, ts_token = 7\<rparr>)], p_next_timer := 2\<rparr>"

definition mac_armed_poller :: mac_poller where
  "mac_armed_poller = mac_empty_poller\<lparr>mp_kq := 3, mp_timers := [(1, 7)], mp_next_timer := 2\<rparr>"



definition channel_kernel :: kernel where
  "channel_kernel = interrupting_kernel\<lparr>
     k_done := (\<lambda>h c. if counter 3 h < counter_room then None else Some EAGAIN),
     k_num := (\<lambda>h c. if counter 3 h = 0 then Inl EAGAIN else Inr (int (counter 3 h))),
     k_count := (\<lambda>h c. case c of Fs (Write w b) \<Rightarrow> pipe_write (pipe_bytes 5 w h) b | _ \<Rightarrow> Inl EIO),
     k_buf := (\<lambda>h c. case c of Fs (Read r k) \<Rightarrow> pipe_read (pipe_bytes r 6 h) k | _ \<Rightarrow> Inl EIO)\<rparr>"


end
